(* ===== verification/Spex_Prelude.thy ===== *)
theory Spex_Prelude
  imports
    Main
    "HOL-Library.Word"
    "HOL-Library.List_Lexorder"
    "HOL-Library.Product_Lexorder"
begin

text \<open>
  Shared vocabulary of the development: the machine types of the Rust sources, the
  \<open>Result\<close> type as a sum with its \<open>?\<close> operator, big-endian byte strings, the
  saturating and checked operations of the standard library, and generic list lemmas.

  Conventions.
  \<^item> \<open>u8\<close>, \<open>u16\<close>, \<open>u32\<close>, \<open>u64\<close> are words of that width; the operators \<open>+\<close>, \<open>-\<close>, \<open>*\<close>
    wrap around, as in the release profile. \<open>usize\<close> values that are lengths or indices
    of vectors are \<open>nat\<close>.
  \<^item> A Rust \<open>String\<close> or \<open>&str\<close> is a \<^typ>\<open>string\<close>, read as its sequence of UTF-8 bytes, so
    \<open>length\<close> is \<open>str::len\<close> and \<open>str_bytes\<close> is \<open>as_bytes\<close>.
  \<^item> \<open>Result<T, E>\<close> is \<open>'e + 't\<close>, with \<^const>\<open>Inl\<close> for \<open>Err\<close> and \<^const>\<open>Inr\<close> for \<open>Ok\<close>. A method
    on \<open>&mut self\<close> that can fail returns the pair of the state it leaves and its result.
\<close>

unbundle bit_operations_syntax

named_theorems res_simps \<open>evaluation rules of the Result combinators\<close>
named_theorems wire_simps \<open>lengths and layout of byte strings\<close>

type_synonym u8 = "8 word"
type_synonym u16 = "16 word"
type_synonym u32 = "32 word"
type_synonym u64 = "64 word"
type_synonym bytes = "u8 list"

section \<open>The Result type\<close>

definition bind_res :: "'e + 'a \<Rightarrow> ('a \<Rightarrow> 'e + 'b) \<Rightarrow> 'e + 'b" where
  "bind_res r f = (case r of Inl e \<Rightarrow> Inl e | Inr x \<Rightarrow> f x)"

definition map_err :: "('e \<Rightarrow> 'f) \<Rightarrow> 'e + 'a \<Rightarrow> 'f + 'a" where
  "map_err g r = (case r of Inl e \<Rightarrow> Inl (g e) | Inr x \<Rightarrow> Inr x)"

definition ok_or :: "'e \<Rightarrow> 'a option \<Rightarrow> 'e + 'a" where
  "ok_or e x = (case x of None \<Rightarrow> Inl e | Some y \<Rightarrow> Inr y)"

definition guard_res :: "'e \<Rightarrow> bool \<Rightarrow> 'e + unit" where
  "guard_res e b = (if b then Inr () else Inl e)"

definition is_ok :: "'e + 'a \<Rightarrow> bool" where
  "is_ok r = (case r of Inl _ \<Rightarrow> False | Inr _ \<Rightarrow> True)"

definition map_res :: "('a \<Rightarrow> 'b) \<Rightarrow> 'e + 'a \<Rightarrow> 'e + 'b" where
  "map_res f r = (case r of Inl e \<Rightarrow> Inl e | Inr x \<Rightarrow> Inr (f x))"

lemma map_res_simps [simp, res_simps]:
  "map_res f (Inl e) = Inl e"
  "map_res f (Inr x) = Inr (f x)"
  by (simp_all add: map_res_def)

lemma map_res_eq_Inr [simp]: "map_res f r = Inr y \<longleftrightarrow> (\<exists>x. r = Inr x \<and> y = f x)"
  by (cases r) auto

lemma map_res_eq_Inl [simp]: "map_res f r = Inl e \<longleftrightarrow> r = Inl e"
  by (cases r) auto

lemma bind_res_simps [simp, res_simps]:
  "bind_res (Inl e) f = Inl e"
  "bind_res (Inr x) f = f x"
  by (simp_all add: bind_res_def)

lemma map_err_simps [simp, res_simps]:
  "map_err g (Inl e) = Inl (g e)"
  "map_err g (Inr x) = Inr x"
  by (simp_all add: map_err_def)

lemma ok_or_simps [simp, res_simps]:
  "ok_or e None = Inl e"
  "ok_or e (Some x) = Inr x"
  by (simp_all add: ok_or_def)

lemma guard_res_simps [simp, res_simps]:
  "guard_res e True = Inr ()"
  "guard_res e False = Inl e"
  by (simp_all add: guard_res_def)

lemma is_ok_simps [simp, res_simps]:
  "is_ok (Inr x)"
  "\<not> is_ok (Inl e)"
  by (simp_all add: is_ok_def)

lemma is_ok_iff: "is_ok r \<longleftrightarrow> (\<exists>x. r = Inr x)"
  by (cases r) auto

lemma bind_res_eq_Inr [simp]: "bind_res r f = Inr y \<longleftrightarrow> (\<exists>x. r = Inr x \<and> f x = Inr y)"
  by (cases r) auto

lemma bind_res_eq_Inl:
  "bind_res r f = Inl e \<longleftrightarrow> r = Inl e \<or> (\<exists>x. r = Inr x \<and> f x = Inl e)"
  by (cases r) auto

lemma map_err_eq_Inr [simp]: "map_err g r = Inr y \<longleftrightarrow> r = Inr y"
  by (cases r) auto

lemma map_err_eq_Inl: "map_err g r = Inl e \<longleftrightarrow> (\<exists>d. r = Inl d \<and> e = g d)"
  by (cases r) auto

lemma ok_or_eq_Inr [simp]: "ok_or e x = Inr y \<longleftrightarrow> x = Some y"
  by (cases x) auto

lemma ok_or_eq_Inl [simp]: "ok_or e x = Inl d \<longleftrightarrow> x = None \<and> d = e"
  by (cases x) auto

lemma guard_res_eq_Inr [simp]: "guard_res e b = Inr u \<longleftrightarrow> b"
  by (cases b) auto

lemma guard_res_eq_Inl [simp]: "guard_res e b = Inl d \<longleftrightarrow> \<not> b \<and> d = e"
  by (cases b) auto

lemma bind_res_cong [fundef_cong]:
  "r = r' \<Longrightarrow> (\<And>x. r' = Inr x \<Longrightarrow> f x = g x) \<Longrightarrow> bind_res r f = bind_res r' g"
  by (cases r') auto

lemma bind_res_assoc: "bind_res (bind_res r f) g = bind_res r (\<lambda>x. bind_res (f x) g)"
  by (cases r) auto

lemma bind_res_Inr [simp]: "bind_res r Inr = r"
  by (cases r) auto

primrec traverse :: "('a \<Rightarrow> 'e + 'b) \<Rightarrow> 'a list \<Rightarrow> 'e + 'b list" where
  "traverse f [] = Inr []"
| "traverse f (x # xs) = bind_res (f x) (\<lambda>y. bind_res (traverse f xs) (\<lambda>ys. Inr (y # ys)))"

lemma traverse_cong [fundef_cong]:
  "xs = ys \<Longrightarrow> (\<And>x. x \<in> set ys \<Longrightarrow> f x = g x) \<Longrightarrow> traverse f xs = traverse g ys"
proof (induction ys arbitrary: xs)
  case Nil
  then show ?case by simp
next
  case (Cons y ys)
  have "traverse f ys = traverse g ys"
    by (rule Cons.IH) (simp_all add: Cons.prems)
  moreover have "xs = y # ys" and "f y = g y"
    using Cons.prems by simp_all
  ultimately show ?case by simp
qed

lemma traverse_map_Inr: "(\<And>x. x \<in> set xs \<Longrightarrow> f x = Inr (g x)) \<Longrightarrow> traverse f xs = Inr (map g xs)"
  by (induction xs) auto

lemma traverse_eq_Inr:
  "traverse f xs = Inr ys \<longleftrightarrow> list_all2 (\<lambda>x y. f x = Inr y) xs ys"
  by (induction xs arbitrary: ys) (auto simp: list_all2_Cons1)

lemma traverse_ok:
  assumes "\<And>x y. x \<in> set xs \<Longrightarrow> f x = Inr y \<longleftrightarrow> P x \<and> y = g x"
  shows "traverse f xs = Inr ys \<longleftrightarrow> (\<forall>x \<in> set xs. P x) \<and> ys = map g xs"
  using assms by (induction xs arbitrary: ys) auto

lemma traverse_Inl_D: "traverse f xs = Inl e \<Longrightarrow> \<exists>x \<in> set xs. f x = Inl e"
  by (induction xs) (auto simp: bind_res_eq_Inl)

lemma traverse_append:
  "traverse f (xs @ ys) =
     bind_res (traverse f xs) (\<lambda>as. bind_res (traverse f ys) (\<lambda>bs. Inr (as @ bs)))"
  by (induction xs) (simp_all add: bind_res_assoc)

lemma traverse_total: "(\<And>x. x \<in> set xs \<Longrightarrow> \<exists>y. f x = Inr y) \<Longrightarrow> \<exists>ys. traverse f xs = Inr ys \<and> length ys = length xs"
proof (induction xs)
  case (Cons x xs)
  then obtain y ys where "f x = Inr y" "traverse f xs = Inr ys" "length ys = length xs" by fastforce
  then show ?case by simp
qed simp

text \<open>The same traversal when an element may also panic (\<open>None\<close>).\<close>

primrec traverse_opt :: "('a \<Rightarrow> ('e + 'b) option) \<Rightarrow> 'a list \<Rightarrow> ('e + 'b list) option" where
  "traverse_opt f [] = Some (Inr [])"
| "traverse_opt f (a # as) =
    (case f a of
       None \<Rightarrow> None
     | Some (Inl e) \<Rightarrow> Some (Inl e)
     | Some (Inr b) \<Rightarrow> map_option (map_res ((#) b)) (traverse_opt f as))"

lemma traverse_opt_map:
  "(\<And>a. a \<in> set as \<Longrightarrow> f a = Some (Inr (g a))) \<Longrightarrow> traverse_opt f as = Some (Inr (map g as))"
  by (induction as) auto

section \<open>Stateful operations\<close>

text \<open>Sequencing of operations that change a state and may fail: the first error is returned, with the
  state reached so far.\<close>

definition seq_res :: "('s \<Rightarrow> 's \<times> ('e + 'a)) \<Rightarrow> ('a \<Rightarrow> 's \<Rightarrow> 's \<times> ('e + 'b)) \<Rightarrow> 's \<Rightarrow> 's \<times> ('e + 'b)" where
  "seq_res m f s = (case m s of (s', Inl e) \<Rightarrow> (s', Inl e) | (s', Inr a) \<Rightarrow> f a s')"

lemma seq_res_Inr: "m s = (s', Inr a) \<Longrightarrow> seq_res m f s = f a s'"
  by (simp add: seq_res_def)

lemma seq_res_Inl: "m s = (s', Inl e) \<Longrightarrow> seq_res m f s = (s', Inl e)"
  by (simp add: seq_res_def)

lemma seq_res_eq_Inr:
  "seq_res m f s = (t, Inr b) \<longleftrightarrow> (\<exists>s' a. m s = (s', Inr a) \<and> f a s' = (t, Inr b))"
  by (auto simp: seq_res_def split: prod.splits sum.splits)

lemma seq_res_assoc: "seq_res (seq_res m f) g = seq_res m (\<lambda>a. seq_res (f a) g)"
  by (auto simp: seq_res_def fun_eq_iff split: prod.splits sum.splits)

text \<open>An operation that keeps a property of the state, whatever it returns.\<close>

definition keeps :: "('s \<Rightarrow> bool) \<Rightarrow> ('s \<Rightarrow> 's \<times> 'r) \<Rightarrow> bool" where
  "keeps P m \<longleftrightarrow> (\<forall>s. P s \<longrightarrow> P (fst (m s)))"

lemma keepsD: "keeps P m \<Longrightarrow> P s \<Longrightarrow> P (fst (m s))"
  by (simp add: keeps_def)

lemma keeps_return [intro]: "keeps P (\<lambda>s. (s, r s))"
  by (simp add: keeps_def)

lemma keeps_seq [intro]: "keeps P m \<Longrightarrow> (\<And>a. keeps P (f a)) \<Longrightarrow> keeps P (seq_res m f)"
  unfolding keeps_def by (auto simp: seq_res_def split: prod.splits sum.splits)

text \<open>An operation that carries one property of the state into another, also when it fails.\<close>

definition carries :: "('s \<Rightarrow> bool) \<Rightarrow> ('s \<Rightarrow> 's \<times> 'r) \<Rightarrow> ('s \<Rightarrow> bool) \<Rightarrow> bool" where
  "carries P m Q \<longleftrightarrow> (\<forall>s. P s \<longrightarrow> Q (fst (m s)))"

lemma carriesD: "carries P m Q \<Longrightarrow> P s \<Longrightarrow> Q (fst (m s))"
  by (simp add: carries_def)

lemma keeps_carries: "keeps P m \<longleftrightarrow> carries P m P"
  by (simp add: keeps_def carries_def)

lemma carries_seq:
  assumes "carries P m Q" "\<And>a. carries Q (f a) R" "\<And>s. Q s \<Longrightarrow> R s"
  shows "carries P (seq_res m f) R"
  using assms unfolding carries_def by (auto simp: seq_res_def split: prod.splits sum.splits)

lemma keeps_if [intro]: "(b \<Longrightarrow> keeps P m) \<Longrightarrow> (\<not> b \<Longrightarrow> keeps P n) \<Longrightarrow> keeps P (\<lambda>s. if b then m s else n s)"
  by (simp add: keeps_def)

section \<open>Byte strings\<close>

text \<open>\<open>str::as_bytes\<close> on the UTF-8 reading of a string.\<close>

definition str_bytes :: "string \<Rightarrow> bytes" where
  "str_bytes s = map of_char s"

text \<open>\<open>to_be_bytes\<close> and \<open>from_be_bytes\<close>: \<open>k\<close> bytes, most significant first.\<close>

primrec be_bytes :: "nat \<Rightarrow> nat \<Rightarrow> bytes" where
  "be_bytes 0 n = []"
| "be_bytes (Suc k) n = word_of_nat (n div 256 ^ k) # be_bytes k n"

definition be_nat :: "bytes \<Rightarrow> nat" where
  "be_nat bs = foldl (\<lambda>a b. a * 256 + unat b) 0 bs"

lemma length_str_bytes [simp, wire_simps]: "length (str_bytes s) = length s"
  by (simp add: str_bytes_def)

lemma str_bytes_Nil [simp]: "str_bytes [] = []"
  by (simp add: str_bytes_def)

lemma str_bytes_append [simp]: "str_bytes (s @ t) = str_bytes s @ str_bytes t"
  by (simp add: str_bytes_def)

lemma unat_of_char [simp]: "unat (of_char c :: u8) = of_char c"
proof -
  have "(of_char c :: u8) = word_of_nat (of_char c)" by (simp add: of_nat_of_char)
  then show ?thesis by (simp add: unat_of_nat)
qed

lemma of_char_u8_eq_iff [simp]: "(of_char c :: u8) = of_char d \<longleftrightarrow> c = d"
  using unat_of_char [of c] unat_of_char [of d] by (metis of_char_eq_iff)

definition bytes_str :: "bytes \<Rightarrow> string" where
  "bytes_str bs = map (\<lambda>b. char_of (unat b)) bs"

lemma bytes_str_str_bytes [simp]: "bytes_str (str_bytes s) = s"
  by (simp add: bytes_str_def str_bytes_def map_idI)

lemma str_bytes_bytes_str [simp]: "str_bytes (bytes_str b) = b"
proof -
  have "of_char (char_of (unat w) :: char) = w" for w :: u8
  proof -
    have "unat w < 256" using unsigned_less [of w, where 'a = nat] by simp
    then have "unat (of_char (char_of (unat w) :: char) :: u8) = unat w" by simp
    then show ?thesis by (simp only: unsigned_word_eqI)
  qed
  then show ?thesis by (simp add: str_bytes_def bytes_str_def map_idI)
qed

lemma str_bytes_inject [simp]: "str_bytes s = str_bytes t \<longleftrightarrow> s = t"
  by (metis bytes_str_str_bytes)

lemma length_be_bytes [simp, wire_simps]: "length (be_bytes k n) = k"
  by (induction k) auto

lemma foldl_be_shift:
  "foldl (\<lambda>a b. a * 256 + unat b) a bs = a * 256 ^ length bs + be_nat (bs :: bytes)"
proof (induction bs arbitrary: a)
  case Nil
  then show ?case by (simp add: be_nat_def)
next
  case (Cons b bs)
  have "be_nat (b # bs) = foldl (\<lambda>a b. a * 256 + unat b) (unat b) bs"
    by (simp add: be_nat_def)
  then show ?case
    using Cons.IH [of "a * 256 + unat b"] Cons.IH [of "unat b"]
    by (simp add: algebra_simps)
qed

lemma be_nat_Nil [simp]: "be_nat [] = 0"
  by (simp add: be_nat_def)

lemma be_nat_Cons [simp]: "be_nat (b # bs) = unat b * 256 ^ length bs + be_nat bs"
  using foldl_be_shift [of "unat b" bs] by (simp add: be_nat_def)

lemma be_bytes_numeral:
  "be_bytes (numeral k) n = word_of_nat (n div 256 ^ pred_numeral k) # be_bytes (pred_numeral k) n"
  by (simp add: numeral_eq_Suc)

lemma be_nat_be_bytes: "be_nat (be_bytes k n) = n mod 256 ^ k"
proof (induction k)
  case 0
  then show ?case by simp
next
  case (Suc k)
  have "be_nat (be_bytes (Suc k) n) = n div 256 ^ k mod 256 * 256 ^ k + n mod 256 ^ k"
    using Suc by (simp add: unat_of_nat)
  also have "\<dots> = n mod (256 ^ k * 256)"
    by (subst mod_mult2_eq) (simp add: mult.commute)
  finally show ?case by (simp add: mult.commute)
qed

lemma be_nat_bound: "be_nat bs < 256 ^ length bs"
proof (induction bs)
  case Nil
  then show ?case by simp
next
  case (Cons b bs)
  have "unat b < 256"
    using unsigned_less [of b, where 'a = nat] by simp
  then have "unat b * 256 ^ length bs \<le> 255 * 256 ^ length bs"
    by (intro mult_right_mono) simp_all
  with Cons show ?case by (simp only: be_nat_Cons length_Cons power_Suc)
qed

lemma be_bytes_inject:
  "n < 256 ^ k \<Longrightarrow> m < 256 ^ k \<Longrightarrow> be_bytes k n = be_bytes k m \<longleftrightarrow> n = m"
  by (metis be_nat_be_bytes mod_less)

lemma unat_ucast_small:
  "unat w < 2 ^ LENGTH('b) \<Longrightarrow> unat (ucast w :: 'b::len word) = unat w"
  by (simp add: unsigned_ucast_eq take_bit_nat_eq_self)

section \<open>Standard library arithmetic\<close>

definition sat_add :: "'a::len word \<Rightarrow> 'a word \<Rightarrow> 'a word" where
  "sat_add a b = (if unat a + unat b < 2 ^ LENGTH('a) then a + b else - 1)"

definition sat_sub :: "'a::len word \<Rightarrow> 'a word \<Rightarrow> 'a word" where
  "sat_sub a b = (if b \<le> a then a - b else 0)"

definition sat_mul :: "'a::len word \<Rightarrow> 'a word \<Rightarrow> 'a word" where
  "sat_mul a b = (if unat a * unat b < 2 ^ LENGTH('a) then a * b else - 1)"

definition checked_add :: "'a::len word \<Rightarrow> 'a word \<Rightarrow> 'a word option" where
  "checked_add a b = (if unat a + unat b < 2 ^ LENGTH('a) then Some (a + b) else None)"

text \<open>Two's complement wrap-around of \<open>i32\<close> values kept as integers.\<close>

definition wrap_i32 :: "int \<Rightarrow> int" where
  "wrap_i32 n = (n + 2 ^ 31) mod 2 ^ 32 - 2 ^ 31"

lemma unat_minus_one_word: "unat (- 1 :: 'a::len word) = 2 ^ LENGTH('a) - 1"
  by (simp add: unsigned_minus_1_eq_mask mask_eq_exp_minus_1)

lemma unat_sat_add: "unat (sat_add a b) = min (unat a + unat b) (2 ^ LENGTH('a) - 1)"
  for a b :: "'a::len word"
  by (auto simp: sat_add_def unat_word_ariths unat_minus_one_word)

lemma unat_sat_sub: "unat (sat_sub a b) = unat a - unat b"
  for a b :: "'a::len word"
  by (auto simp: sat_sub_def unat_sub word_le_nat_alt)

lemma unat_sat_mul: "unat (sat_mul a b) = min (unat a * unat b) (2 ^ LENGTH('a) - 1)"
  for a b :: "'a::len word"
  by (auto simp: sat_mul_def unat_word_ariths unat_minus_one_word)

lemma checked_add_Some:
  "checked_add a b = Some c \<longleftrightarrow> unat a + unat b < 2 ^ LENGTH('a) \<and> c = a + b"
  for a b :: "'a::len word"
  by (auto simp: checked_add_def)

lemma wrap_i32_id [simp]: "- (2 ^ 31) \<le> n \<Longrightarrow> n < 2 ^ 31 \<Longrightarrow> wrap_i32 n = n"
  by (simp add: wrap_i32_def)

lemma wrap_i32_range: "- (2 ^ 31) \<le> wrap_i32 n \<and> wrap_i32 n < 2 ^ 31"
proof -
  have "0 \<le> (n + 2 ^ 31) mod 2 ^ 32 \<and> (n + 2 ^ 31) mod 2 ^ 32 < 2 ^ 32"
    by simp
  then show ?thesis unfolding wrap_i32_def by simp
qed

section \<open>Lists\<close>

lemma insort_key_map: "insort_key f (h x) (map h xs) = map h (insort_key (\<lambda>x. f (h x)) x xs)"
  by (induction xs) auto

lemma sort_key_map: "sort_key f (map h xs) = map h (sort_key (\<lambda>x. f (h x)) xs)"
  by (induction xs) (auto simp: insort_key_map)

lemma sort_key_sorted: "sort_key f (sort_key f xs) = sort_key f xs"
  by (simp add: sorted_sort_id sort_key_id_if_sorted)

lemma sort_key_cong: "(\<And>x. x \<in> set xs \<Longrightarrow> f x = g x) \<Longrightarrow> sort_key f xs = sort_key g xs"
proof (induction xs)
  case (Cons x xs)
  have "insort_key f x ys = insort_key g x ys" if "set ys \<subseteq> set xs" for ys
    using that Cons.prems by (induction ys) auto
  with Cons show ?case by simp
qed simp

lemma append_same_length_inject:
  "length xs = length ys \<Longrightarrow> xs @ us = ys @ vs \<longleftrightarrow> xs = ys \<and> us = vs"
  by (rule append_eq_append_conv) simp

lemma map_of_filter_key:
  "map_of (filter (\<lambda>(k, _). P k) xs) k = (if P k then map_of xs k else None)"
  by (induction xs) auto

section \<open>Bit length\<close>

fun bit_len :: "nat \<Rightarrow> nat" where
  "bit_len n = (if n = 0 then 0 else Suc (bit_len (n div 2)))"

declare bit_len.simps [simp del]

lemma bit_len_eq: "2 ^ k \<le> n \<Longrightarrow> n < 2 ^ Suc k \<Longrightarrow> bit_len n = Suc k"
proof (induction k arbitrary: n)
  case 0
  then have "n = 1" by simp
  then show ?case by (simp add: bit_len.simps)
next
  case (Suc k)
  then have "bit_len (n div 2) = Suc k" by (intro Suc.IH) simp_all
  moreover have "n \<noteq> 0" using Suc.prems by (metis le_zero_eq power_not_zero zero_neq_numeral)
  ultimately show ?case by (simp add: bit_len.simps [of n])
qed

lemma unat_add_one_less: "unat (a + 1) = unat a + 1" if "a < b" for a b :: "'a::len word"
proof -
  have "Suc (unat a) \<le> unat b" using that by (simp add: word_less_nat_alt)
  also have "unat b < 2 ^ LENGTH('a)" by (rule unsigned_less)
  finally show ?thesis by (simp add: unat_word_ariths)
qed

section \<open>Decimal text\<close>

function show_nat :: "nat \<Rightarrow> string" where
  "show_nat n = (if n < 10 then [char_of (48 + n)] else show_nat (n div 10) @ [char_of (48 + n mod 10)])"
  by pat_completeness auto

termination
  by (relation "measure (\<lambda>n. n)") auto

declare show_nat.simps [simp del]

text \<open>Lower-case hexadecimal without leading zeros, the format \<open>{:x}\<close>.\<close>

definition hex_digit :: "nat \<Rightarrow> char" where
  "hex_digit n = char_of (if n < 10 then 48 + n else 87 + n)"

function show_hex :: "nat \<Rightarrow> string" where
  "show_hex n = (if n < 16 then [hex_digit n] else show_hex (n div 16) @ [hex_digit (n mod 16)])"
  by pat_completeness auto

termination
  by (relation "measure (\<lambda>n. n)") auto

declare show_hex.simps [simp del]

end
