(* ===== verification/Cbor.thy ===== *)
theory Cbor
  imports Spex_Prelude "HOL-Library.List_Lexorder" "HOL-Library.Product_Lexorder"
begin

text \<open>
  Canonical CBOR, \<open>spex-core/src/cbor.rs\<close> and \<open>spex-core/src/error.rs\<close>.

  \<open>ciborium::Value\<close> is the datatype \<open>Value\<close>; a double is its 64 bit pattern.  The encoder is the
  source's, routine by routine, and returns the bytes the source appends to its output buffer.
  Floating point comparison is done on the exact real value of a bit pattern, an integer count of
  units \<open>2 ^ -1074\<close> (every binary16, binary32 and binary64 number is one).

  The reader \<open>ciborium::de::from_reader\<close> is third-party code and a parameter \<open>de\<close>.  What the
  code relies on is \<open>cbor_conforms de\<close>: it agrees with the definite-length decoder of RFC 8949,
  \<open>cbor_decode\<close>, wherever that one reads the whole input.
\<close>

section \<open>Errors of the core crate\<close>

datatype SpexError =
    InvalidLength string
  | SigVerifyFailed
  | Argon2 string
  | Argon2PasswordHash string
  | Hex string
  | Cbor string
  | CborIntegerOutOfRange
  | CborNotCanonical
  | InvalidInput string

text \<open>The texts of the \<open>#[error]\<close> attributes.\<close>

fun SpexError_to_string :: "SpexError \<Rightarrow> string" where
  "SpexError_to_string (InvalidLength m) = ''invalid length: '' @ m"
| "SpexError_to_string SigVerifyFailed = ''signature verification failed''"
| "SpexError_to_string (Argon2 m) = ''argon2 error: '' @ m"
| "SpexError_to_string (Argon2PasswordHash m) = ''argon2 password hash error: '' @ m"
| "SpexError_to_string (Hex m) = ''hex decode failed: '' @ m"
| "SpexError_to_string (Cbor m) = ''CBOR error: '' @ m"
| "SpexError_to_string CborIntegerOutOfRange = ''CBOR integer out of range for canonical encoding''"
| "SpexError_to_string CborNotCanonical = ''CBOR is not CTAP2 canonical''"
| "SpexError_to_string (InvalidInput m) = ''invalid input: '' @ m"

section \<open>Values\<close>

datatype Value =
    VNull
  | VBool bool
  | VInteger int
  | VBytes bytes
  | VText string
  | VArray "Value list"
  | VMap "(Value \<times> Value) list"
  | VTag u64 Value
  | VFloat u64

datatype CanonicalizationLevel = CanonicalIsh | Ctap2Canonical

definition MAJOR_UINT :: u8 where "MAJOR_UINT = 0x00"
definition MAJOR_NEGINT :: u8 where "MAJOR_NEGINT = 0x20"
definition MAJOR_BYTES :: u8 where "MAJOR_BYTES = 0x40"
definition MAJOR_TEXT :: u8 where "MAJOR_TEXT = 0x60"
definition MAJOR_ARRAY :: u8 where "MAJOR_ARRAY = 0x80"
definition MAJOR_MAP :: u8 where "MAJOR_MAP = 0xa0"
definition MAJOR_TAG :: u8 where "MAJOR_TAG = 0xc0"
definition MAJOR_SIMPLE :: u8 where "MAJOR_SIMPLE = 0xe0"

lemmas major_defs = MAJOR_UINT_def MAJOR_NEGINT_def MAJOR_BYTES_def MAJOR_TEXT_def
  MAJOR_ARRAY_def MAJOR_MAP_def MAJOR_TAG_def MAJOR_SIMPLE_def

section \<open>Floating point values\<close>

datatype fval = FNaN | FInf bool | FFin int

text \<open>
  The magnitude of a binary interchange format with \<open>mb\<close> mantissa bits, in units of its least
  subnormal: \<open>q\<close> is the bit pattern without the sign.
\<close>

definition mag :: "nat \<Rightarrow> nat \<Rightarrow> nat" where
  "mag mb q = (if q < 2 ^ mb then q else (2 ^ mb + q mod 2 ^ mb) * 2 ^ (q div 2 ^ mb - 1))"

definition fval_of :: "nat \<Rightarrow> nat \<Rightarrow> nat \<Rightarrow> bool \<Rightarrow> nat \<Rightarrow> fval" where
  "fval_of eb mb scale neg q =
    (if q div 2 ^ mb = 2 ^ eb - 1 then (if q mod 2 ^ mb = 0 then FInf neg else FNaN)
     else FFin ((if neg then - 1 else 1) * int (mag mb q * 2 ^ scale)))"

definition f64_val :: "u64 \<Rightarrow> fval" where
  "f64_val w = fval_of 11 52 0 (bit w 63) (unat (take_bit 63 w))"

definition f32_val :: "u32 \<Rightarrow> fval" where
  "f32_val w = fval_of 8 23 925 (bit w 31) (unat (take_bit 31 w))"

definition float_eq :: "fval \<Rightarrow> fval \<Rightarrow> bool" where
  "float_eq a b \<longleftrightarrow> a \<noteq> FNaN \<and> b \<noteq> FNaN \<and> a = b"

definition is_nan :: "u64 \<Rightarrow> bool" where
  "is_nan w \<longleftrightarrow> f64_val w = FNaN"

definition f64_to_f16_bits :: "u64 \<Rightarrow> u16" where
  "f64_to_f16_bits bits =
    (let sign = push_bit 15 (ucast (drop_bit 63 bits) :: u16);
         ex = uint (drop_bit 52 bits AND 0x7ff);
         mantissa = bits AND 0x000fffffffffffff
     in if ex = 0x7ff then sign OR 0x7c00 OR (if mantissa \<noteq> 0 then 0x0200 else 0)
        else let exp_f16 = ex - 1023 + 15 in
          if exp_f16 \<ge> 31 then sign OR 0x7c00
          else if exp_f16 \<le> 0 then
            (if exp_f16 < - 10 then sign
             else sign OR ucast (drop_bit (nat (1 - exp_f16 + 42)) (mantissa OR 0x0010000000000000)))
          else sign OR push_bit 10 (word_of_int exp_f16) OR ucast (drop_bit 42 mantissa))"

text \<open>
  \<open>f16_bits_to_f64\<close> multiplies out \<open>sign * mantissa * 2 ^ -24\<close> and
  \<open>sign * (1 + mantissa / 1024) * 2 ^ (exp - 15)\<close>; both products are exact in binary64, and are
  written in units of \<open>2 ^ -1074\<close>.
\<close>

definition f16_bits_to_f64 :: "u16 \<Rightarrow> fval" where
  "f16_bits_to_f64 bits =
    (let neg = (drop_bit 15 bits \<noteq> 0);
         sign = (if neg then - 1 else 1) :: int;
         ex = unat (drop_bit 10 bits AND 0x1f);
         mantissa = int (unat (bits AND 0x03ff))
     in if ex = 0 then FFin (sign * mantissa * 2 ^ (1074 - 24))
        else if ex = 31 then (if mantissa = 0 then FInf neg else FNaN)
        else FFin (sign * (1024 + mantissa) * 2 ^ (1074 - 10 + ex - 15)))"

text \<open>
  The cast \<open>value as f32\<close>: round to nearest, ties to even, overflow to infinity.  A magnitude is
  rounded at the unit of its binade, and a carry out of the mantissa increments the exponent.
\<close>

definition round_half_even :: "nat \<Rightarrow> nat \<Rightarrow> nat" where
  "round_half_even m d =
    (let q = m div d; r = m mod d
     in if 2 * r < d then q else if 2 * r > d then q + 1 else if even q then q else q + 1)"

definition f64_to_f32 :: "u64 \<Rightarrow> u32" where
  "f64_to_f32 w =
    (let q = unat (take_bit 63 w); ex = q div 2 ^ 52; man = q mod 2 ^ 52;
         sign = (if bit w 63 then push_bit 31 1 else 0) :: u32
     in if ex = 2047 then sign OR (if man = 0 then 0x7f800000 else 0x7fc00000)
        else if ex \<le> 896 then sign OR word_of_nat (round_half_even (mag 52 q) (2 ^ 925))
        else sign OR word_of_nat
          (min 0x7f800000 ((ex - 897) * 2 ^ 23 + round_half_even (2 ^ 52 + man) (2 ^ 29))))"

section \<open>The encoder\<close>

definition encode_u64 :: "u8 \<Rightarrow> u64 \<Rightarrow> bytes" where
  "encode_u64 major v =
    (if v \<le> 23 then [major OR ucast v]
     else if v \<le> 0xff then [major OR 24, ucast v]
     else if v \<le> 0xffff then (major OR 25) # be_bytes 2 (unat (ucast v :: u16))
     else if v \<le> 0xffffffff then (major OR 26) # be_bytes 4 (unat (ucast v :: u32))
     else (major OR 27) # be_bytes 8 (unat v))"

definition try_u64 :: "int \<Rightarrow> u64 option" where
  "try_u64 i = (if 0 \<le> i \<and> i < 2 ^ 64 then Some (word_of_int i) else None)"

definition encode_integer :: "int \<Rightarrow> SpexError + bytes" where
  "encode_integer i =
    (if i \<ge> 0 then map_res (encode_u64 MAJOR_UINT) (ok_or CborIntegerOutOfRange (try_u64 i))
     else map_res (encode_u64 MAJOR_NEGINT) (ok_or CborIntegerOutOfRange (try_u64 (- 1 - i))))"

definition encode_length :: "u8 \<Rightarrow> nat \<Rightarrow> SpexError + bytes" where
  "encode_length major n =
    map_res (encode_u64 major) (ok_or CborIntegerOutOfRange (try_u64 (int n)))"

definition encode_float :: "u64 \<Rightarrow> bytes" where
  "encode_float w =
    (if is_nan w then (MAJOR_SIMPLE OR 25) # be_bytes 2 0x7e00
     else let half_bits = f64_to_f16_bits w in
       if float_eq (f16_bits_to_f64 half_bits) (f64_val w)
       then (MAJOR_SIMPLE OR 25) # be_bytes 2 (unat half_bits)
       else let float = f64_to_f32 w in
         if float_eq (f32_val float) (f64_val w)
         then (MAJOR_SIMPLE OR 26) # be_bytes 4 (unat float)
         else (MAJOR_SIMPLE OR 27) # be_bytes 8 (unat w))"

text \<open>The order of \<open>sort_by\<close> on encoded map entries: key length first, then the bytes.\<close>

definition entry_key :: "bytes \<times> 'a \<Rightarrow> nat \<times> bytes" where
  "entry_key e = (length (fst e), fst e)"

fun encode_value :: "Value \<Rightarrow> SpexError + bytes" where
  "encode_value VNull = Inr [MAJOR_SIMPLE OR 22]"
| "encode_value (VBool b) = Inr [MAJOR_SIMPLE OR (if b then 21 else 20)]"
| "encode_value (VInteger i) = encode_integer i"
| "encode_value (VBytes bs) = map_res (\<lambda>h. h @ bs) (encode_length MAJOR_BYTES (length bs))"
| "encode_value (VText s) =
    map_res (\<lambda>h. h @ str_bytes s) (encode_length MAJOR_TEXT (length (str_bytes s)))"
| "encode_value (VArray vs) =
    bind_res (encode_length MAJOR_ARRAY (length vs)) (\<lambda>h.
    bind_res (traverse encode_value vs) (\<lambda>items.
    Inr (h @ concat items)))"
| "encode_value (VMap es) =
    bind_res (traverse (\<lambda>e. bind_res (encode_value (fst e)) (\<lambda>k.
                             bind_res (encode_value (snd e)) (\<lambda>v. Inr (k, v)))) es) (\<lambda>encoded.
    bind_res (encode_length MAJOR_MAP (length encoded)) (\<lambda>h.
    Inr (h @ concat (map (\<lambda>(k, v). k @ v) (sort_key entry_key encoded)))))"
| "encode_value (VTag t v) = bind_res (encode_value v) (\<lambda>b. Inr (encode_u64 MAJOR_TAG t @ b))"
| "encode_value (VFloat w) = Inr (encode_float w)"

definition ctap2_canonical_value_bytes :: "Value \<Rightarrow> SpexError + bytes" where
  "ctap2_canonical_value_bytes v = encode_value v"

section \<open>The readers\<close>

type_synonym cbor_reader = "bytes \<Rightarrow> string + Value"

definition parse_cbor_payload :: "cbor_reader \<Rightarrow> bytes \<Rightarrow> SpexError + Value" where
  "parse_cbor_payload de bs = map_err Cbor (de bs)"

definition ctap2_canonical_value_from_slice :: "cbor_reader \<Rightarrow> bytes \<Rightarrow> SpexError + Value" where
  "ctap2_canonical_value_from_slice de bs =
    bind_res (map_err Cbor (de bs)) (\<lambda>v.
    bind_res (ctap2_canonical_value_bytes v) (\<lambda>canonical.
    if canonical \<noteq> bs then Inl CborNotCanonical else Inr v))"

text \<open>
  The generic entry points go through serde: \<open>ser\<close> stands for \<open>ciborium::ser::into_writer\<close> at the
  payload type, \<open>ser_value\<close> for the same at \<open>Value\<close>, and \<open>de_t\<close> for \<open>from_reader\<close> at the
  target type.
\<close>

definition to_ctap2_canonical_bytes ::
    "('t \<Rightarrow> string + bytes) \<Rightarrow> cbor_reader \<Rightarrow> 't \<Rightarrow> SpexError + bytes" where
  "to_ctap2_canonical_bytes ser de t =
    bind_res (map_err Cbor (ser t)) (\<lambda>buf.
    bind_res (map_err Cbor (de buf)) ctap2_canonical_value_bytes)"

definition from_ctap2_canonical_slice ::
    "cbor_reader \<Rightarrow> (Value \<Rightarrow> string + bytes) \<Rightarrow> (bytes \<Rightarrow> string + 't) \<Rightarrow> bytes \<Rightarrow> SpexError + 't" where
  "from_ctap2_canonical_slice de ser_value de_t bs =
    bind_res (ctap2_canonical_value_from_slice de bs) (\<lambda>v.
    bind_res (map_err Cbor (ser_value v)) (\<lambda>buf.
    map_err Cbor (de_t buf)))"

end
