(* ===== verification/Cbor_Spec.thy ===== *)
theory Cbor_Spec
  imports Cbor "HOL-Library.Multiset"
begin

text \<open>
  The specification side of canonical CBOR: a definite-length decoder after RFC 8949
  (\<open>cbor_decode\<close>), the canonical form of a value (\<open>canon\<close>), and the theorems that tie the
  encoder of \<open>cbor.rs\<close> to them: the encoding of a value decodes to its canonical form whatever
  follows it, hence encodings are prefix free, and encode \<open>v\<close> and \<open>w\<close> alike only when they have the
  same canonical form.
\<close>

section \<open>Widening of the short float formats\<close>

definition f64_bits_of_mag :: "nat \<Rightarrow> nat" where
  "f64_bits_of_mag v =
    (if v < 2 ^ 52 then v
     else let k = bit_len v - 53 in (k + 1) * 2 ^ 52 + (v div 2 ^ k - 2 ^ 52))"

definition widen :: "nat \<Rightarrow> nat \<Rightarrow> nat \<Rightarrow> bool \<Rightarrow> nat \<Rightarrow> u64" where
  "widen eb mb scale neg q =
    (if neg then 2 ^ 63 else 0) +
    word_of_nat (if q div 2 ^ mb = 2 ^ eb - 1 then 2047 * 2 ^ 52 + q mod 2 ^ mb * 2 ^ (52 - mb)
                 else f64_bits_of_mag (mag mb q * 2 ^ scale))"

definition f16_widen :: "nat \<Rightarrow> u64" where
  "f16_widen n = widen 5 10 1050 (n \<ge> 2 ^ 15) (n mod 2 ^ 15)"

definition f32_widen :: "nat \<Rightarrow> u64" where
  "f32_widen n = widen 8 23 925 (n \<ge> 2 ^ 31) (n mod 2 ^ 31)"

section \<open>The reference decoder\<close>

definition dec_arg :: "nat \<Rightarrow> bytes \<Rightarrow> (nat \<times> bytes) option" where
  "dec_arg ai bs =
    (if ai < 24 then Some (ai, bs)
     else if ai < 28 \<and> 2 ^ (ai - 24) \<le> length bs
     then Some (be_nat (take (2 ^ (ai - 24)) bs), drop (2 ^ (ai - 24)) bs)
     else None)"

definition dec_head :: "bytes \<Rightarrow> (nat \<times> nat \<times> nat \<times> bytes) option" where
  "dec_head bs =
    (case bs of [] \<Rightarrow> None
     | b # r \<Rightarrow> map_option (\<lambda>(n, r'). (unat b div 32, unat b mod 32, n, r')) (dec_arg (unat b mod 32) r))"

primrec dec_n :: "(bytes \<Rightarrow> ('a \<times> bytes) option) \<Rightarrow> nat \<Rightarrow> bytes \<Rightarrow> ('a list \<times> bytes) option" where
  "dec_n d 0 bs = Some ([], bs)"
| "dec_n d (Suc n) bs =
    Option.bind (d bs) (\<lambda>(x, r). Option.bind (dec_n d n r) (\<lambda>(xs, r'). Some (x # xs, r')))"

definition dec_pair :: "(bytes \<Rightarrow> ('a \<times> bytes) option) \<Rightarrow> bytes \<Rightarrow> (('a \<times> 'a) \<times> bytes) option" where
  "dec_pair d bs = Option.bind (d bs) (\<lambda>(k, r). Option.bind (d r) (\<lambda>(v, r'). Some ((k, v), r')))"

definition take_bytes :: "nat \<Rightarrow> bytes \<Rightarrow> (bytes \<times> bytes) option" where
  "take_bytes n bs = (if n \<le> length bs then Some (take n bs, drop n bs) else None)"

definition dec_simple :: "nat \<Rightarrow> nat \<Rightarrow> Value option" where
  "dec_simple ai n =
    (if ai = 20 then Some (VBool False)
     else if ai = 21 then Some (VBool True)
     else if ai = 22 then Some VNull
     else if ai = 25 then Some (VFloat (f16_widen n))
     else if ai = 26 then Some (VFloat (f32_widen n))
     else if ai = 27 then Some (VFloat (word_of_nat n))
     else None)"

text \<open>Each nesting level costs one unit of fuel and at least one byte of input.\<close>

primrec dec_item :: "nat \<Rightarrow> bytes \<Rightarrow> (Value \<times> bytes) option" where
  "dec_item 0 bs = None"
| "dec_item (Suc f) bs =
    Option.bind (dec_head bs) (\<lambda>(mt, ai, n, r).
      if mt = 0 then Some (VInteger (int n), r)
      else if mt = 1 then Some (VInteger (- 1 - int n), r)
      else if mt = 2 then Option.bind (take_bytes n r) (\<lambda>(b, r'). Some (VBytes b, r'))
      else if mt = 3 then Option.bind (take_bytes n r) (\<lambda>(b, r'). Some (VText (bytes_str b), r'))
      else if mt = 4 then Option.bind (dec_n (dec_item f) n r) (\<lambda>(vs, r'). Some (VArray vs, r'))
      else if mt = 5 then Option.bind (dec_n (dec_pair (dec_item f)) n r) (\<lambda>(es, r'). Some (VMap es, r'))
      else if mt = 6 then Option.bind (dec_item f r) (\<lambda>(v, r'). Some (VTag (word_of_nat n) v, r'))
      else Option.bind (dec_simple ai n) (\<lambda>v. Some (v, r)))"

definition cbor_decode :: "bytes \<Rightarrow> (Value \<times> bytes) option" where
  "cbor_decode bs = dec_item (length bs) bs"

section \<open>Canonical form\<close>

definition enc_bytes :: "Value \<Rightarrow> bytes" where
  "enc_bytes v = (case encode_value v of Inl _ \<Rightarrow> [] | Inr b \<Rightarrow> b)"

definition sorted_entries :: "(Value \<times> Value) list \<Rightarrow> (Value \<times> Value) list" where
  "sorted_entries es = sort_key (\<lambda>e. (length (enc_bytes (fst e)), enc_bytes (fst e))) es"

fun canon :: "Value \<Rightarrow> Value" where
  "canon (VArray vs) = VArray (map canon vs)"
| "canon (VMap es) = VMap (sorted_entries (map (\<lambda>e. (canon (fst e), canon (snd e))) es))"
| "canon (VTag t v) = VTag t (canon v)"
| "canon (VFloat w) = VFloat (if is_nan w then 0x7ff8000000000000 else w)"
| "canon v = v"

section \<open>Heads\<close>

lemma unat_or_low:
  fixes a b :: u8
  assumes "unat a mod 32 = 0" "unat b < 32"
  shows "unat (a OR b) = unat a + unat b"
proof -
  have "unat b = take_bit 5 (unat b)" and "take_bit 5 (unat a) = 0"
    using assms by (simp_all add: take_bit_eq_mod)
  then have "unat a AND unat b = 0"
    by (metis and.assoc and.commute and_zero_eq take_bit_eq_mask)
  then show ?thesis
    by (simp add: unsigned_or_eq disjunctive_add_eq_or)
qed

definition min_ai :: "u64 \<Rightarrow> nat" where
  "min_ai v = (if v \<le> 23 then unat v else if v \<le> 0xff then 24 else if v \<le> 0xffff then 25
               else if v \<le> 0xffffffff then 26 else 27)"

lemma dec_arg_be_bytes:
  assumes "24 \<le> ai" "ai < 28" "n < 256 ^ (2 ^ (ai - 24))"
  shows "dec_arg ai (be_bytes (2 ^ (ai - 24)) n @ rest) = Some (n, rest)"
  using assms by (simp add: dec_arg_def be_nat_be_bytes)

lemma dec_head_or:
  assumes "unat major mod 32 = 0" "unat x < 32"
  shows "dec_head ((major OR x) # bs) =
    map_option (\<lambda>(n, r'). (unat major div 32, unat x, n, r')) (dec_arg (unat x) bs)"
  using assms by (simp add: dec_head_def unat_or_low mod_add_left_eq [symmetric] div_add1_eq)

lemma dec_head_encode_u64:
  assumes "unat major mod 32 = 0"
  shows "dec_head (encode_u64 major v @ rest) = Some (unat major div 32, min_ai v, unat v, rest)"
proof -
  have bound: "unat v < 2 ^ 64"
    using unsigned_less [of v, where 'a = nat] by simp
  note lt = word_le_nat_alt [of v]
  consider "unat v < 24" | "24 \<le> unat v" "unat v < 256" | "256 \<le> unat v" "unat v < 65536"
    | "65536 \<le> unat v" "unat v < 4294967296" | "4294967296 \<le> unat v"
    by linarith
  then show ?thesis
  proof cases
    case 1
    with assms show ?thesis
      by (simp add: encode_u64_def min_ai_def dec_head_or dec_arg_def unat_ucast_small lt)
  next
    case 2
    with assms dec_arg_be_bytes [of 24 "unat v" rest] show ?thesis
      by (simp add: encode_u64_def min_ai_def dec_head_or lt)
  next
    case 3
    with assms dec_arg_be_bytes [of 25 "unat v" rest] show ?thesis
      by (simp add: encode_u64_def min_ai_def dec_head_or unat_ucast_small lt del: be_bytes.simps)
  next
    case 4
    with assms dec_arg_be_bytes [of 26 "unat v" rest] show ?thesis
      by (simp add: encode_u64_def min_ai_def dec_head_or unat_ucast_small lt)
  next
    case 5
    with assms bound dec_arg_be_bytes [of 27 "unat v" rest] show ?thesis
      by (simp add: encode_u64_def min_ai_def dec_head_or lt)
  qed
qed

section \<open>Floats\<close>

lemma bit_len_mult: "2 ^ m \<le> a \<Longrightarrow> a < 2 ^ Suc m \<Longrightarrow> bit_len (a * 2 ^ j) = Suc (m + j)"
  by (rule bit_len_eq) (simp_all add: power_add)

lemma f64_bits_of_mag_mag: "f64_bits_of_mag (mag 52 q) = q"
proof (cases "q < 2 ^ 52")
  case True
  then show ?thesis by (simp add: f64_bits_of_mag_def mag_def)
next
  case False
  define m where "m = q mod 2 ^ 52"
  define j where "j = q div 2 ^ 52 - 1"
  have q: "q = (j + 1) * 2 ^ 52 + m"
    using False div_mult_mod_eq [of q "2 ^ 52"] by (simp add: j_def m_def)
  have m: "m < 2 ^ 52" by (simp add: m_def)
  have v: "mag 52 q = (2 ^ 52 + m) * 2 ^ j"
    using False by (simp add: mag_def m_def j_def)
  have "bit_len (mag 52 q) = Suc (52 + j)"
    unfolding v by (rule bit_len_mult) (use m in simp_all)
  moreover have "\<not> mag 52 q < 2 ^ 52"
    unfolding v using mult_le_mono [of "2 ^ 52" "2 ^ 52 + m" 1 "2 ^ j"] by simp
  moreover have "mag 52 q div 2 ^ j = 2 ^ 52 + m"
    unfolding v by simp
  ultimately show ?thesis
    unfolding f64_bits_of_mag_def Let_def using q by simp
qed

lemma sign_split: "(if bit w 63 then 2 ^ 63 else 0) + word_of_nat (unat (take_bit 63 w)) = (w :: u64)"
proof -
  define e :: u64 where "e = 2 ^ 63"
  have e: "bit e n \<longleftrightarrow> n = 63" for n
    unfolding e_def by (simp only: bit_exp_iff) auto
  define s where "s = (if bit w 63 then e else 0)"
  have "s + take_bit 63 w = s OR take_bit 63 w"
    by (rule disjunctive_add) (auto simp: s_def bit_take_bit_iff e)
  also have "\<dots> = w"
  proof (rule bit_word_eqI)
    fix n assume "n < LENGTH(64)"
    then have "n < 63 \<or> n = 63" by auto
    then show "bit (s OR take_bit 63 w) n = bit w n"
      by (auto simp: s_def bit_or_iff bit_take_bit_iff e)
  qed
  finally show ?thesis unfolding s_def e_def by simp
qed

lemma widen_f64_val:
  assumes "neg = bit w 63" "fval_of eb mb scale neg q = f64_val w" "f64_val w \<noteq> FNaN"
  shows "widen eb mb scale neg q = w"
  unfolding assms(1)
proof (cases "q div 2 ^ mb = 2 ^ eb - 1")
  case True
  with assms(2,3) [unfolded assms(1)] have "q mod 2 ^ mb = 0" "unat (take_bit 63 w) div 2 ^ 52 = 2047"
      "unat (take_bit 63 w) mod 2 ^ 52 = 0"
    by (auto simp: f64_val_def fval_of_def split: if_splits)
  then have "unat (take_bit 63 w) = 2047 * 2 ^ 52"
    using div_mult_mod_eq [of "unat (take_bit 63 w)" "2 ^ 52"] by simp
  with sign_split [of w] True \<open>q mod 2 ^ mb = 0\<close> show "widen eb mb scale (bit w 63) q = w"
    by (simp add: widen_def)
next
  case False
  with assms(2,3) [unfolded assms(1)] have "mag mb q * 2 ^ scale = mag 52 (unat (take_bit 63 w))"
    by (auto simp: f64_val_def fval_of_def simp flip: of_nat_mult of_nat_power split: if_splits)
  with False sign_split [of w] show "widen eb mb scale (bit w 63) q = w"
    by (simp add: widen_def f64_bits_of_mag_mag)
qed

lemma unat_take_bit: "unat (take_bit n w) = unat w mod 2 ^ n"
  unfolding unsigned_take_bit_eq by (simp add: take_bit_eq_mod)

lemma unat_drop_bit: "unat (drop_bit n w) = unat w div 2 ^ n"
  unfolding unsigned_drop_bit_eq
  by (simp add: drop_bit_eq_div take_bit_nat_eq_self [OF unsigned_less])

lemma unat_and_mask: "m = mask n \<Longrightarrow> unat (w AND m) = unat w mod 2 ^ n"
  by (simp only: take_bit_eq_mask [symmetric] unat_take_bit)

lemma f16_bits_to_f64_fval_of:
  "f16_bits_to_f64 h = fval_of 5 10 1050 (2 ^ 15 \<le> unat h) (unat h mod 2 ^ 15)"
proof -
  define n where "n = unat h"
  define P :: nat where "P = 2 ^ 1050"
  have P: "2 ^ (1074 - 24) = int P" unfolding P_def by simp
  have scale: "2 ^ (1074 - 10 + k - 15) = int (2 ^ (k - 1) * P)" if "0 < k" for k
  proof -
    have "1074 - 10 + k - 15 = (k - 1) + 1050" using that by simp
    then show ?thesis unfolding P_def by (simp only: power_add of_nat_mult of_nat_power of_nat_numeral)
  qed
  have m: "unat (h AND 0x03ff) = n mod 2 ^ 10"
    unfolding n_def by (rule unat_and_mask) (simp add: mask_eq_exp_minus_1)
  have "unat (drop_bit 10 h AND 0x1f) = n div 2 ^ 10 mod 2 ^ 5"
    unfolding n_def unat_drop_bit [symmetric] by (rule unat_and_mask) (simp add: mask_eq_exp_minus_1)
  also have "\<dots> = n mod 2 ^ 15 div 2 ^ 10"
    using mod_mult2_eq [of n "2 ^ 10" "2 ^ 5"] by simp
  finally have e: "unat (drop_bit 10 h AND 0x1f) = n mod 2 ^ 15 div 2 ^ 10" .
  have "drop_bit 15 h \<noteq> 0 \<longleftrightarrow> n div 2 ^ 15 \<noteq> 0"
    unfolding n_def unat_drop_bit [symmetric] by (simp add: unat_eq_0)
  then have s: "drop_bit 15 h \<noteq> 0 \<longleftrightarrow> 2 ^ 15 \<le> n" by (simp add: div_eq_0_iff not_less)
  have mm: "n mod 2 ^ 10 = n mod 2 ^ 15 mod 2 ^ 10"
    by (simp add: mod_mod_cancel)
  define q where "q = n mod 2 ^ 15"
  note unfolded = f16_bits_to_f64_def Let_def m e s fval_of_def mag_def n_def [symmetric]
    P_def [symmetric] mm q_def [symmetric]
  show ?thesis
  proof (cases "q < 2 ^ 10")
    case True
    then have "q div 2 ^ 10 = 0" "q mod 2 ^ 10 = q" by simp_all
    with True show ?thesis unfolding unfolded P by simp
  next
    case False
    then have "0 < q div 2 ^ 10" by (simp add: div_greater_zero_iff)
    with False show ?thesis
      unfolding unfolded scale [OF \<open>0 < q div 2 ^ 10\<close>] by (simp add: algebra_simps)
  qed
qed

lemma bit_top_iff: "LENGTH('a) = Suc n \<Longrightarrow> bit (w :: 'a::len word) n \<longleftrightarrow> 2 ^ n \<le> unat w"
proof -
  assume len: "LENGTH('a) = Suc n"
  have "bit w n \<longleftrightarrow> odd (unat w div 2 ^ n)"
    by (simp add: bit_unsigned_iff bit_iff_odd [symmetric] len flip: bit_nat_def)
  moreover have "unat w < 2 * 2 ^ n"
    using unsigned_less [of w, where 'a = nat] by (simp add: len)
  moreover have "a div d < 2" if "a < 2 * d" for a d :: nat
    using that by (simp add: less_mult_imp_div_less)
  ultimately have "bit w n \<longleftrightarrow> 0 < unat w div 2 ^ n"
    by (metis even_zero less_2_cases not_gr_zero odd_one One_nat_def)
  then show ?thesis by (simp add: div_greater_zero_iff)
qed

lemma f16_field_bits:
  fixes M H :: u64
  assumes "\<And>n. bit M n \<Longrightarrow> n < 52" and "\<And>n. bit H n \<Longrightarrow> n = 52"
  shows "43 \<le> k \<Longrightarrow> \<not> bit (ucast (drop_bit k (M OR H)) :: u16) 15"
    and "\<not> bit (ucast (drop_bit 42 M) :: u16) 15"
    and "0 < e \<Longrightarrow> e < 31 \<Longrightarrow> \<not> bit (push_bit 10 (word_of_int e) :: u16) 15"
proof -
  show "\<not> bit (ucast (drop_bit k (M OR H)) :: u16) 15" if "43 \<le> k"
    using assms [of "k + 15"] that by (auto simp: bit_ucast_iff bit_drop_bit_eq bit_or_iff)
  show "\<not> bit (ucast (drop_bit 42 M) :: u16) 15"
    using assms(1) [of 57] by (auto simp: bit_ucast_iff bit_drop_bit_eq)
  assume "0 < e" "e < 31"
  then have "e = take_bit 5 e" by (simp add: take_bit_int_eq_self)
  then have "\<not> bit e 5" by (metis bit_take_bit_iff less_irrefl)
  then show "\<not> bit (push_bit 10 (word_of_int e) :: u16) 15"
    by (simp add: bit_push_bit_iff bit_word_of_int_iff)
qed

lemma f64_to_f16_bits_sign: "bit (f64_to_f16_bits w) 15 \<longleftrightarrow> bit w 63"
proof -
  define s where "s = push_bit 15 (ucast (drop_bit 63 w) :: u16)"
  define M where "M = w AND 0x000fffffffffffff"
  define H where "H = (0x0010000000000000 :: u64)"
  define E where "E = uint (drop_bit 52 w AND 0x7ff) - 1023 + 15"
  define X where "X = (ucast (drop_bit (nat (1 - E + 42)) (M OR H)) :: u16)"
  define Y where "Y = (push_bit 10 (word_of_int E) :: u16)"
  define Z where "Z = (ucast (drop_bit 42 M) :: u16)"
  have s: "bit s 15 \<longleftrightarrow> bit w 63"
    by (simp add: s_def bit_push_bit_iff bit_drop_bit_eq bit_ucast_iff)
  have "(0x000fffffffffffff :: u64) = mask 52" by (simp add: mask_eq_exp_minus_1)
  then have "M = take_bit 52 w" by (simp only: M_def take_bit_eq_mask)
  then have M: "n < 52" if "bit M n" for n
    using that by (simp only: bit_take_bit_iff)
  have "H = 2 ^ 52" by (simp add: H_def)
  then have H: "n = 52" if "bit H n" for n
    using that by (simp only: bit_exp_iff)
  have X: "\<not> bit X 15" if "E \<le> 0"
    unfolding X_def by (rule f16_field_bits(1) [OF M H]) (use that in simp_all)
  have Z: "\<not> bit Z 15"
    unfolding Z_def by (rule f16_field_bits(2) [OF M H]) simp_all
  have Y: "\<not> bit Y 15" if "\<not> E \<le> 0" "\<not> 31 \<le> E"
    unfolding Y_def by (rule f16_field_bits(3) [OF M H]) (use that in simp_all)
  show ?thesis
    unfolding f64_to_f16_bits_def Let_def s_def [symmetric] M_def [symmetric] H_def [symmetric]
      E_def [symmetric] X_def [symmetric] Y_def [symmetric] Z_def [symmetric]
    using X Y Z by (simp add: bit_or_iff s)
qed

lemma round_half_even_le: "round_half_even m d \<le> m div d + 1"
  by (simp add: round_half_even_def Let_def)

lemma mag_less: "q div 2 ^ mb \<le> k \<Longrightarrow> mag mb q < 2 ^ (mb + 1 + k)"
proof (cases "q < 2 ^ mb")
  case True
  then show ?thesis
    by (simp add: mag_def power_add less_le_trans [OF True])
next
  case False
  assume "q div 2 ^ mb \<le> k"
  have "2 ^ mb + q mod 2 ^ mb < (2 :: nat) ^ (mb + 1)" by simp
  moreover have "(2 :: nat) ^ (q div 2 ^ mb - 1) \<le> 2 ^ k"
    using \<open>q div 2 ^ mb \<le> k\<close> by (intro power_increasing) simp_all
  ultimately have "(2 ^ mb + q mod 2 ^ mb) * 2 ^ (q div 2 ^ mb - 1) < (2 :: nat) ^ (mb + 1) * 2 ^ k"
    by (intro mult_less_le_imp_less) simp_all
  with False show ?thesis by (simp add: mag_def power_add mult_ac)
qed

lemma f64_to_f32_sign: "bit (f64_to_f32 w) 31 \<longleftrightarrow> bit w 63"
proof -
  define q where "q = unat (take_bit 63 w)"
  define D :: nat where "D = 2 ^ 925"
  define s where "s = (if bit w 63 then push_bit 31 1 else 0 :: u32)"
  have s: "bit s 31 \<longleftrightarrow> bit w 63" by (simp add: s_def)
  have small: "\<not> bit (word_of_nat n :: u32) 31" if "n < 2 ^ 31" for n
    using that bit_top_iff [of 31 "word_of_nat n :: u32"] by (simp add: unat_of_nat)
  have "round_half_even (mag 52 q) D < 2 ^ 31" if "q div 2 ^ 52 \<le> 896"
  proof -
    have "mag 52 q < 2 ^ (52 + 1 + 896)" using that by (rule mag_less)
    also have "\<dots> = 2 ^ 24 * D" unfolding D_def by (simp only: power_add [symmetric]) simp
    finally have "mag 52 q div D < 2 ^ 24" by (simp add: less_mult_imp_div_less)
    with round_half_even_le [of "mag 52 q" D] show ?thesis by simp
  qed
  then have "\<not> bit (word_of_nat (round_half_even (mag 52 q) D) :: u32) 31" if "q div 2 ^ 52 \<le> 896"
    using small that by blast
  moreover have "\<not> bit (word_of_nat (min 0x7f800000 x) :: u32) 31" for x
    by (rule small) simp
  ultimately show ?thesis
    unfolding f64_to_f32_def Let_def q_def [symmetric] D_def [symmetric] s_def [symmetric]
    by (simp add: bit_or_iff s)
qed

lemma dec_head_float:
  assumes "24 \<le> ai" "ai < 28" "n < 256 ^ 2 ^ (ai - 24)" "x = word_of_nat ai"
  shows "dec_head (((MAJOR_SIMPLE OR x) # be_bytes (2 ^ (ai - 24)) n) @ rest) = Some (7, ai, n, rest)"
proof -
  have "unat x = ai" using assms by (simp add: unat_of_nat)
  then show ?thesis
    using assms(1,2) dec_head_or [of MAJOR_SIMPLE x] dec_arg_be_bytes [OF assms(1-3)]
    by (simp add: MAJOR_SIMPLE_def)
qed

lemma dec_item_encode_float:
  "dec_item (Suc f) (encode_float w @ rest) = Some (canon (VFloat w), rest)"
proof -
  have h: "dec_item (Suc f) (((MAJOR_SIMPLE OR 25) # be_bytes 2 n) @ rest) = Some (VFloat (f16_widen n), rest)"
    if "n < 2 ^ 16" for n
    using dec_head_float [of 25 n 25 rest] that by (simp add: dec_simple_def del: be_bytes.simps)
  have s: "dec_item (Suc f) (((MAJOR_SIMPLE OR 26) # be_bytes 4 n) @ rest) = Some (VFloat (f32_widen n), rest)"
    if "n < 2 ^ 32" for n
    using dec_head_float [of 26 n 26 rest] that by (simp add: dec_simple_def del: be_bytes.simps)
  have d: "dec_item (Suc f) (((MAJOR_SIMPLE OR 27) # be_bytes 8 n) @ rest) = Some (VFloat (word_of_nat n), rest)"
    if "n < 2 ^ 64" for n
    using dec_head_float [of 27 n 27 rest] that by (simp add: dec_simple_def del: be_bytes.simps)
  have half: "f16_widen (unat (f64_to_f16_bits w)) = w"
    if "float_eq (f16_bits_to_f64 (f64_to_f16_bits w)) (f64_val w)"
    unfolding f16_widen_def
  proof (rule widen_f64_val)
    show "(2 ^ 15 \<le> unat (f64_to_f16_bits w)) = bit w 63"
      using bit_top_iff [where n = 15 and w = "f64_to_f16_bits w"] f64_to_f16_bits_sign by simp
  qed (use that in \<open>auto simp only: float_eq_def f16_bits_to_f64_fval_of\<close>)
  have single: "f32_widen (unat (f64_to_f32 w)) = w"
    if "float_eq (f32_val (f64_to_f32 w)) (f64_val w)"
    unfolding f32_widen_def
  proof (rule widen_f64_val)
    show top: "(2 ^ 31 \<le> unat (f64_to_f32 w)) = bit w 63"
      using bit_top_iff [where n = 31 and w = "f64_to_f32 w"] f64_to_f32_sign by simp
    show "fval_of 8 23 925 (2 ^ 31 \<le> unat (f64_to_f32 w)) (unat (f64_to_f32 w) mod 2 ^ 31) = f64_val w"
      using that unfolding float_eq_def f32_val_def unat_take_bit top f64_to_f32_sign by blast
  qed (use that in \<open>auto simp only: float_eq_def\<close>)
  have nan: "f16_widen 0x7e00 = 0x7ff8000000000000"
    by (simp add: f16_widen_def widen_def)
  have bounds: "unat (f64_to_f16_bits w) < 2 ^ 16" "unat (f64_to_f32 w) < 2 ^ 32" "unat w < 2 ^ 64"
    using unsigned_less [of "f64_to_f16_bits w", where 'a = nat]
      unsigned_less [of "f64_to_f32 w", where 'a = nat] unsigned_less [of w, where 'a = nat] by simp_all
  show ?thesis
    unfolding encode_float_def Let_def
    using h [of "0x7e00"] h [OF bounds(1)] s [OF bounds(2)] d [OF bounds(3)] half single nan
    by (simp del: be_bytes.simps dec_item.simps)
qed

section \<open>Round trip\<close>

lemma enc_bytes_eq: "encode_value v = Inr b \<Longrightarrow> enc_bytes v = b"
  by (simp add: enc_bytes_def)

lemma ok_enc_bytes: "encode_value v = Inr b \<longleftrightarrow> is_ok (encode_value v) \<and> b = enc_bytes v"
  by (cases "encode_value v") (auto simp: enc_bytes_def)

lemma encode_length_eq_Inr:
  "encode_length m n = Inr b \<longleftrightarrow> n < 2 ^ 64 \<and> b = encode_u64 m (word_of_nat n)"
  by (auto simp: encode_length_def try_u64_def)

lemma encode_VArray:
  "encode_value (VArray vs) = Inr b \<longleftrightarrow>
    length vs < 2 ^ 64 \<and> (\<forall>v \<in> set vs. is_ok (encode_value v)) \<and>
    b = encode_u64 MAJOR_ARRAY (word_of_nat (length vs)) @ concat (map enc_bytes vs)"
proof -
  have "traverse encode_value vs = Inr ys \<longleftrightarrow>
      (\<forall>v \<in> set vs. is_ok (encode_value v)) \<and> ys = map enc_bytes vs" for ys
    by (rule traverse_ok) (rule ok_enc_bytes)
  then show ?thesis by (auto simp: encode_length_eq_Inr)
qed

lemma encode_VMap:
  "encode_value (VMap es) = Inr b \<longleftrightarrow>
    length es < 2 ^ 64 \<and> (\<forall>e \<in> set es. is_ok (encode_value (fst e)) \<and> is_ok (encode_value (snd e))) \<and>
    b = encode_u64 MAJOR_MAP (word_of_nat (length es)) @
          concat (map (\<lambda>e. enc_bytes (fst e) @ enc_bytes (snd e)) (sorted_entries es))"
proof -
  define f where "f e = bind_res (encode_value (fst e)) (\<lambda>k.
      bind_res (encode_value (snd e)) (\<lambda>v. Inr (k, v)))" for e :: "Value \<times> Value"
  define g where "g e = (enc_bytes (fst e), enc_bytes (snd e))" for e :: "Value \<times> Value"
  have "traverse f es = Inr ys \<longleftrightarrow>
      (\<forall>e \<in> set es. is_ok (encode_value (fst e)) \<and> is_ok (encode_value (snd e))) \<and> ys = map g es" for ys
    by (rule traverse_ok) (auto simp: f_def g_def ok_enc_bytes)
  moreover have "map (\<lambda>(k, v). k @ v) (sort_key entry_key (map g es)) =
      map (\<lambda>e. enc_bytes (fst e) @ enc_bytes (snd e)) (sorted_entries es)"
    by (simp add: sort_key_map sorted_entries_def entry_key_def g_def)
  ultimately show ?thesis
    unfolding encode_value.simps f_def [symmetric] by (auto simp: encode_length_eq_Inr)
qed

lemma encode_VTag:
  "encode_value (VTag t v) = Inr b \<longleftrightarrow> is_ok (encode_value v) \<and> b = encode_u64 MAJOR_TAG t @ enc_bytes v"
  by (auto simp: ok_enc_bytes)

lemma set_sorted_entries [simp]: "set (sorted_entries es) = set es"
  by (simp add: sorted_entries_def)

lemma length_sorted_entries [simp]: "length (sorted_entries es) = length es"
  by (simp add: sorted_entries_def)

lemma encode_u64_not_Nil [simp]: "encode_u64 m v \<noteq> []"
  by (simp add: encode_u64_def)

lemma dec_n_concat:
  assumes "\<And>x r. x \<in> set xs \<Longrightarrow> d (E x @ r) = Some (C x, r)"
  shows "dec_n d (length xs) (concat (map E xs) @ rest) = Some (map C xs, rest)"
  using assms by (induction xs) simp_all

lemma dec_n_pairs:
  assumes "\<And>e r. e \<in> set es \<Longrightarrow> d (E (fst e) @ r) = Some (C (fst e), r)"
    and "\<And>e r. e \<in> set es \<Longrightarrow> d (E (snd e) @ r) = Some (C (snd e), r)"
  shows "dec_n (dec_pair d) (length es) (concat (map (\<lambda>e. E (fst e) @ E (snd e)) es) @ rest) =
    Some (map (\<lambda>e. (C (fst e), C (snd e))) es, rest)"
  by (rule dec_n_concat) (use assms in \<open>simp add: dec_pair_def\<close>)

lemma sorted_entries_map:
  assumes "\<And>e. e \<in> set es \<Longrightarrow> enc_bytes (fst (h e)) = enc_bytes (fst e)"
  shows "sorted_entries (map h es) = map h (sorted_entries es)"
proof -
  have "sort_key (\<lambda>e. (length (enc_bytes (fst (h e))), enc_bytes (fst (h e)))) es =
      sort_key (\<lambda>e. (length (enc_bytes (fst e)), enc_bytes (fst e))) es"
    by (rule sort_key_cong) (simp add: assms)
  then show ?thesis by (simp add: sorted_entries_def sort_key_map)
qed

lemma sorted_entries_idem [simp]: "sorted_entries (sorted_entries es) = sorted_entries es"
  by (simp add: sorted_entries_def sort_key_sorted)

lemma is_nan_canonical: "is_nan 0x7ff8000000000000"
  by (simp add: is_nan_def f64_val_def fval_of_def unat_take_bit)

lemma encode_value_canon: "encode_value v = Inr b \<Longrightarrow> encode_value (canon v) = Inr b"
proof (induction v arbitrary: b rule: canon.induct)
  case (1 vs)
  then have prem: "length vs < 2 ^ 64" "\<forall>v \<in> set vs. is_ok (encode_value v)"
      "b = encode_u64 MAJOR_ARRAY (word_of_nat (length vs)) @ concat (map enc_bytes vs)"
    unfolding encode_VArray by blast+
  have c: "encode_value (canon v) = Inr (enc_bytes v)" if "v \<in> set vs" for v
    using 1(1) that prem(2) by (simp add: ok_enc_bytes)
  then have "map enc_bytes (map canon vs) = map enc_bytes vs"
    by (simp add: enc_bytes_eq)
  moreover have "\<forall>v \<in> set (map canon vs). is_ok (encode_value v)"
    using c by simp
  ultimately show ?case
    unfolding canon.simps encode_VArray using prem by (simp only: length_map)
next
  case (2 es)
  let ?h = "\<lambda>e. (canon (fst e), canon (snd e))"
  have prem: "length es < 2 ^ 64"
      "\<forall>e \<in> set es. is_ok (encode_value (fst e)) \<and> is_ok (encode_value (snd e))"
      "b = encode_u64 MAJOR_MAP (word_of_nat (length es)) @
          concat (map (\<lambda>e. enc_bytes (fst e) @ enc_bytes (snd e)) (sorted_entries es))"
    using 2(3) unfolding encode_VMap by blast+
  have k: "encode_value (canon (fst e)) = Inr (enc_bytes (fst e))" if "e \<in> set es" for e
    using 2(1) prem(2) that by (simp add: ok_enc_bytes)
  have v: "encode_value (canon (snd e)) = Inr (enc_bytes (snd e))" if "e \<in> set es" for e
    using 2(2) prem(2) that by (simp add: ok_enc_bytes)
  have s: "sorted_entries (map ?h es) = map ?h (sorted_entries es)"
    by (rule sorted_entries_map) (simp add: k enc_bytes_eq)
  have m: "map (\<lambda>e. enc_bytes (fst e) @ enc_bytes (snd e)) (map ?h (sorted_entries es)) =
      map (\<lambda>e. enc_bytes (fst e) @ enc_bytes (snd e)) (sorted_entries es)"
    by (simp add: k v enc_bytes_eq)
  have "\<forall>e \<in> set (sorted_entries (map ?h es)). is_ok (encode_value (fst e)) \<and> is_ok (encode_value (snd e))"
    using k v by simp
  then show ?case
    unfolding canon.simps encode_VMap sorted_entries_idem using prem(1,3)
    by (simp only: s m length_map length_sorted_entries)
next
  case (3 t v)
  then show ?case by (metis canon.simps(3) encode_VTag ok_enc_bytes)
next
  case (4 w)
  then show ?case using is_nan_canonical by (auto simp: encode_float_def)
qed simp_all

lemma enc_bytes_canon: "is_ok (encode_value v) \<Longrightarrow> enc_bytes (canon v) = enc_bytes v"
  by (metis enc_bytes_eq encode_value_canon ok_enc_bytes)

lemma canon_canon [simp]: "canon (canon v) = canon v"
proof (induction v rule: canon.induct)
  case (2 es)
  let ?h = "\<lambda>e. (canon (fst e), canon (snd e))"
  have "?h e = e" if e: "e \<in> set (sorted_entries (map ?h es))" for e
  proof -
    from e obtain x where "x \<in> set es" "e = ?h x" by auto
    with 2 show ?thesis by (cases x) auto
  qed
  then have "map ?h (sorted_entries (map ?h es)) = sorted_entries (map ?h es)"
    by (rule map_idI)
  then show ?case by (simp only: canon.simps sorted_entries_idem)
qed (auto simp: is_nan_canonical)

lemma unat_major [simp]:
  "unat MAJOR_UINT = 0" "unat MAJOR_NEGINT = 32" "unat MAJOR_BYTES = 64" "unat MAJOR_TEXT = 96"
  "unat MAJOR_ARRAY = 128" "unat MAJOR_MAP = 160" "unat MAJOR_TAG = 192" "unat MAJOR_SIMPLE = 224"
  by (simp_all add: major_defs)

lemma dec_item_head:
  assumes "unat major mod 32 = 0" "n < 2 ^ 64"
  shows "dec_head (encode_u64 major (word_of_nat n) @ rest) =
    Some (unat major div 32, min_ai (word_of_nat n), n, rest)"
  using dec_head_encode_u64 [OF assms(1), of "word_of_nat n"] assms(2) by (simp add: unat_of_nat)

lemma take_bytes_append [simp]: "take_bytes (length b) (b @ r) = Some (b, r)"
  by (simp add: take_bytes_def)

lemma concat_map_mem_le: "x \<in> set xs \<Longrightarrow> length (E x) \<le> length (concat (map E xs))"
  by (induction xs) auto

lemma dec_item_leaf:
  "dec_item (Suc g) ((MAJOR_SIMPLE OR 22) # rest) = Some (VNull, rest)"
  "dec_item (Suc g) ((MAJOR_SIMPLE OR (if x then 21 else 20)) # rest) = Some (VBool x, rest)"
  by (simp_all add: dec_head_or dec_arg_def dec_simple_def)

lemma try_u64_eq_Some: "try_u64 i = Some u \<Longrightarrow> uint u = i"
  by (auto simp: try_u64_def unsigned_of_int take_bit_int_eq_self split: if_splits)

lemma dec_item_integer:
  assumes "encode_integer i = Inr b"
  shows "dec_item (Suc g) (b @ rest) = Some (VInteger i, rest)"
proof (cases "i \<ge> 0")
  case True
  with assms obtain u where "try_u64 i = Some u" "b = encode_u64 MAJOR_UINT u"
    by (auto simp: encode_integer_def)
  then show ?thesis by (simp add: dec_head_encode_u64 try_u64_eq_Some [of i])
next
  case False
  with assms obtain u where "try_u64 (- 1 - i) = Some u" "b = encode_u64 MAJOR_NEGINT u"
    by (auto simp: encode_integer_def)
  then show ?thesis by (simp add: dec_head_encode_u64 try_u64_eq_Some [of "- 1 - i"])
qed

lemma dec_item_bytes:
  "encode_length MAJOR_BYTES (length bs) = Inr h \<Longrightarrow>
    dec_item (Suc g) (h @ bs @ rest) = Some (VBytes bs, rest)"
  by (simp add: encode_length_eq_Inr dec_item_head)

lemma dec_item_text:
  "encode_length MAJOR_TEXT (length (str_bytes t)) = Inr h \<Longrightarrow>
    dec_item (Suc g) (h @ str_bytes t @ rest) = Some (VText t, rest)"
  using take_bytes_append [of "str_bytes t" rest]
  by (simp add: encode_length_eq_Inr dec_item_head)

lemma encode_float_not_Nil: "encode_float w \<noteq> []"
  by (simp add: encode_float_def Let_def)

lemmas canon_induct = canon.induct [case_names "1" "2" "3" "4" Null Bool Integer Bytes Text]

theorem dec_item_encode_value:
  assumes "encode_value v = Inr b" "length b \<le> f"
  shows "dec_item f (b @ rest) = Some (canon v, rest)"
  using assms
proof (induction v arbitrary: b f rest rule: canon_induct)
  case (1 vs)
  then have prem: "length vs < 2 ^ 64" "\<forall>v \<in> set vs. is_ok (encode_value v)"
      "b = encode_u64 MAJOR_ARRAY (word_of_nat (length vs)) @ concat (map enc_bytes vs)"
    unfolding encode_VArray by blast+
  obtain g where f: "f = Suc g"
    using 1(3) prem(3) by (cases f) auto
  have item: "dec_item g (enc_bytes v @ r) = Some (canon v, r)" if "v \<in> set vs" for v r
  proof (rule 1(1) [OF that])
    show "encode_value v = Inr (enc_bytes v)" using that prem(2) by (simp add: ok_enc_bytes)
    have "length (concat (map enc_bytes vs)) < length b"
      unfolding prem(3) by simp
    then show "length (enc_bytes v) \<le> g"
      using concat_map_mem_le [OF that, of enc_bytes] 1(3) f by simp
  qed
  have "dec_n (dec_item g) (length vs) (concat (map enc_bytes vs) @ rest) = Some (map canon vs, rest)"
    by (rule dec_n_concat) (rule item)
  then show ?case
    using prem by (simp add: f dec_item_head)
next
  case (2 es)
  let ?E = "\<lambda>e. enc_bytes (fst e) @ enc_bytes (snd e)"
  let ?h = "\<lambda>e. (canon (fst e), canon (snd e))"
  have prem: "length es < 2 ^ 64"
      "\<forall>e \<in> set es. is_ok (encode_value (fst e)) \<and> is_ok (encode_value (snd e))"
      "b = encode_u64 MAJOR_MAP (word_of_nat (length es)) @ concat (map ?E (sorted_entries es))"
    using 2(3) unfolding encode_VMap by blast+
  obtain g where f: "f = Suc g"
    using 2(4) prem(3) by (cases f) auto
  have len: "length (?E e) \<le> g" if "e \<in> set es" for e
  proof -
    have "length (concat (map ?E (sorted_entries es))) < length b"
      unfolding prem(3) by simp
    then show ?thesis
      using concat_map_mem_le [of e "sorted_entries es" ?E] that 2(4) f by simp
  qed
  have key: "dec_item g (enc_bytes (fst e) @ r) = Some (canon (fst e), r)" if "e \<in> set es" for e r
    using 2(1) [OF that, of "enc_bytes (fst e)" g] that prem(2) len [OF that] by (simp add: ok_enc_bytes)
  have val: "dec_item g (enc_bytes (snd e) @ r) = Some (canon (snd e), r)" if "e \<in> set es" for e r
    using 2(2) [OF that, of "enc_bytes (snd e)" g] that prem(2) len [OF that] by (simp add: ok_enc_bytes)
  have "dec_n (dec_pair (dec_item g)) (length (sorted_entries es))
      (concat (map ?E (sorted_entries es)) @ rest) = Some (map ?h (sorted_entries es), rest)"
    by (rule dec_n_pairs) (simp_all add: key val)
  moreover have "sorted_entries (map ?h es) = map ?h (sorted_entries es)"
    by (rule sorted_entries_map) (use prem(2) in \<open>simp add: enc_bytes_canon\<close>)
  ultimately show ?case
    using prem by (simp add: f dec_item_head)
next
  case (3 t v)
  then have prem: "is_ok (encode_value v)" "b = encode_u64 MAJOR_TAG t @ enc_bytes v"
    by (simp_all only: encode_VTag)
  obtain g where f: "f = Suc g"
    using 3(3) prem(2) by (cases f) auto
  have "length (enc_bytes v) < length b"
    unfolding prem(2) by simp
  then have "length (enc_bytes v) \<le> g"
    using 3(3) f by simp
  then have "dec_item g (enc_bytes v @ rest) = Some (canon v, rest)"
    using 3(1) [of "enc_bytes v" g] prem 3(3) f by (simp add: ok_enc_bytes)
  then show ?case
    using prem dec_head_encode_u64 [of MAJOR_TAG t "enc_bytes v @ rest"] by (simp add: f)
next
  case (4 w)
  then obtain g where "f = Suc g"
    using encode_float_not_Nil [of w] by (cases f) auto
  with 4 dec_item_encode_float [of g w rest] show ?case by simp
next
  case Null
  then have "b = [MAJOR_SIMPLE OR 22]" by simp
  with Null dec_item_leaf(1) show ?case by (cases f) (simp_all del: dec_item.simps)
next
  case (Bool x)
  then have "b = [MAJOR_SIMPLE OR (if x then 21 else 20)]" by simp
  with Bool dec_item_leaf(2) [of _ x] show ?case by (cases f) (simp_all del: dec_item.simps)
next
  case (Integer i)
  then have "b \<noteq> []" by (auto simp: encode_integer_def split: if_splits)
  with Integer show ?case using dec_item_integer [of i b] by (cases f) (simp_all del: dec_item.simps)
next
  case (Bytes bs)
  then obtain h where "encode_length MAJOR_BYTES (length bs) = Inr h" "b = h @ bs" by auto
  moreover from this have "h \<noteq> []" by (simp add: encode_length_eq_Inr)
  ultimately show ?case
    using Bytes dec_item_bytes [of bs h] by (cases f) (simp_all del: dec_item.simps)
next
  case (Text t)
  then obtain h where "encode_length MAJOR_TEXT (length (str_bytes t)) = Inr h" "b = h @ str_bytes t" by auto
  moreover from this have "h \<noteq> []" by (simp add: encode_length_eq_Inr)
  ultimately show ?case
    using Text dec_item_text [of t h] by (cases f) (simp_all del: dec_item.simps)
qed

section \<open>What the code relies on of the reader\<close>

text \<open>
  \<open>ciborium\<close> reads every definite-length item of RFC 8949 to the value it denotes, with three
  documented limits: a text string must be UTF-8, items nest at most 256 deep, and the bignum
  tags 2 and 3 are folded into integers.  \<open>plain\<close> is a value inside those limits.
\<close>

definition utf8_cont :: "nat \<Rightarrow> bool" where
  "utf8_cont b \<longleftrightarrow> 0x80 \<le> b \<and> b \<le> 0xbf"

fun utf8_ok :: "nat list \<Rightarrow> bool" where
  "utf8_ok [] = True"
| "utf8_ok (a # r) =
    (if a < 0x80 then utf8_ok r
     else case r of [] \<Rightarrow> False | b # r1 \<Rightarrow>
       if 0xc2 \<le> a \<and> a \<le> 0xdf then utf8_cont b \<and> utf8_ok r1
       else case r1 of [] \<Rightarrow> False | c # r2 \<Rightarrow>
         if 0xe0 \<le> a \<and> a \<le> 0xef
         then (if a = 0xe0 then 0xa0 else 0x80) \<le> b \<and> b \<le> (if a = 0xed then 0x9f else 0xbf) \<and>
              utf8_cont c \<and> utf8_ok r2
         else case r2 of [] \<Rightarrow> False | d # r3 \<Rightarrow>
           0xf0 \<le> a \<and> a \<le> 0xf4 \<and>
           (if a = 0xf0 then 0x90 else 0x80) \<le> b \<and> b \<le> (if a = 0xf4 then 0x8f else 0xbf) \<and>
           utf8_cont c \<and> utf8_cont d \<and> utf8_ok r3)"

fun plain :: "nat \<Rightarrow> Value \<Rightarrow> bool" where
  "plain 0 v = False"
| "plain (Suc d) (VText s) = utf8_ok (map of_char s)"
| "plain (Suc d) (VArray vs) = (\<forall>v \<in> set vs. plain d v)"
| "plain (Suc d) (VMap es) = (\<forall>e \<in> set es. plain d (fst e) \<and> plain d (snd e))"
| "plain (Suc d) (VTag t v) = (t \<noteq> 2 \<and> t \<noteq> 3 \<and> plain d v)"
| "plain (Suc d) v = True"

text \<open>Not-a-numbers other than the default quiet one are left out too: widening one of them may change its
  payload.\<close>

fun quiet_nans :: "Value \<Rightarrow> bool" where
  "quiet_nans (VArray vs) = (\<forall>v \<in> set vs. quiet_nans v)"
| "quiet_nans (VMap es) = (\<forall>e \<in> set es. quiet_nans (fst e) \<and> quiet_nans (snd e))"
| "quiet_nans (VTag t v) = quiet_nans v"
| "quiet_nans (VFloat w) = (is_nan w \<longrightarrow> w = 0x7ff8000000000000)"
| "quiet_nans v = True"

definition cbor_conforms :: "cbor_reader \<Rightarrow> bool" where
  "cbor_conforms de \<longleftrightarrow>
    (\<forall>bs v. cbor_decode bs = Some (v, []) \<and> plain 256 v \<and> quiet_nans v \<longrightarrow> de bs = Inr v)"

lemma quiet_nans_canon [simp]: "quiet_nans (canon v)"
  by (induction v rule: canon.induct) (auto simp: sorted_entries_def)

lemma plain_canon [simp]: "plain d (canon v) = plain d v"
proof (induction v arbitrary: d rule: canon.induct)
  case (1 vs d)
  then show ?case by (cases d) auto
next
  case (2 es d)
  then show ?case by (cases d) auto
next
  case (3 t v d)
  then show ?case by (cases d) auto
next
  case (4 w d)
  then show ?case by (cases d) auto
qed auto

lemma reference_reader_conforms:
  "cbor_conforms (\<lambda>bs. case cbor_decode bs of None \<Rightarrow> Inl e | Some (v, _) \<Rightarrow> Inr v)"
  by (simp add: cbor_conforms_def)

lemma cbor_decode_encode:
  assumes "encode_value v = Inr b"
  shows "cbor_decode (b @ rest) = Some (canon v, rest)"
  unfolding cbor_decode_def by (rule dec_item_encode_value [OF assms]) simp

lemma encode_value_canon_eq:
  assumes "encode_value v = Inr b" "encode_value w = Inr b"
  shows "canon v = canon w"
  using cbor_decode_encode [OF assms(1), of "[]"] cbor_decode_encode [OF assms(2), of "[]"] by simp

lemma conforming_read:
  assumes "cbor_conforms de" "encode_value v = Inr b" "plain 256 v"
  shows "de b = Inr (canon v)"
  using assms cbor_decode_encode [OF assms(2), of "[]"] by (simp add: cbor_conforms_def)

lemma from_slice_eq_Inr:
  "ctap2_canonical_value_from_slice de bs = Inr v \<longleftrightarrow> de bs = Inr v \<and> encode_value v = Inr bs"
  by (auto simp: ctap2_canonical_value_from_slice_def ctap2_canonical_value_bytes_def split: if_splits)

lemma from_slice_encode:
  assumes "cbor_conforms de" "encode_value v = Inr b" "plain 256 v"
  shows "ctap2_canonical_value_from_slice de b = Inr (canon v)"
  by (simp add: from_slice_eq_Inr conforming_read [OF assms] encode_value_canon [OF assms(2)])

lemma encode_value_error: "encode_value v = Inl e \<Longrightarrow> e = CborIntegerOutOfRange"
  by (induction v arbitrary: e rule: encode_value.induct)
     (auto simp: encode_integer_def encode_length_def bind_res_eq_Inl dest!: traverse_Inl_D split: if_splits)

text \<open>The values the encoder accepts: integers in range and fewer than \<open>2 ^ 64\<close> bytes or items.\<close>

fun encodable :: "Value \<Rightarrow> bool" where
  "encodable (VInteger i) = (- (2 ^ 64) \<le> i \<and> i < 2 ^ 64)"
| "encodable (VBytes bs) = (length bs < 2 ^ 64)"
| "encodable (VText s) = (length s < 2 ^ 64)"
| "encodable (VArray vs) = (length vs < 2 ^ 64 \<and> (\<forall>v \<in> set vs. encodable v))"
| "encodable (VMap es) = (length es < 2 ^ 64 \<and> (\<forall>e \<in> set es. encodable (fst e) \<and> encodable (snd e)))"
| "encodable (VTag t v) = encodable v"
| "encodable v = True"

lemma encode_length_ok: "n < 2 ^ 64 \<Longrightarrow> \<exists>b. encode_length major n = Inr b"
  by (simp add: encode_length_def try_u64_def)

lemma encodable_ok: "encodable v \<Longrightarrow> \<exists>b. encode_value v = Inr b"
proof (induction v rule: encode_value.induct)
  case (6 vs)
  obtain h where h: "encode_length MAJOR_ARRAY (length vs) = Inr h"
    using 6 encode_length_ok [of "length vs" MAJOR_ARRAY] by auto
  have "\<exists>ys. traverse encode_value vs = Inr ys \<and> length ys = length vs"
    using 6 h by (intro traverse_total) auto
  with h show ?case by auto
next
  case (7 es)
  let ?f = "\<lambda>e. bind_res (encode_value (fst e)) (\<lambda>k. bind_res (encode_value (snd e)) (\<lambda>v. Inr (k, v)))"
  have "\<exists>y. ?f e = Inr y" if "e \<in> set es" for e
    using 7 that by fastforce
  then have "\<exists>ys. traverse ?f es = Inr ys \<and> length ys = length es" by (intro traverse_total) simp
  with 7 show ?case using encode_length_ok [of "length es" MAJOR_MAP] by auto
next
  case (3 i)
  then show ?case by (auto simp: encode_integer_def try_u64_def)
next
  case (4 bs)
  then show ?case using encode_length_ok [of "length bs" MAJOR_BYTES] by auto
next
  case (5 s)
  then show ?case using encode_length_ok [of "length s" MAJOR_TEXT] by auto
qed auto

lemma sorted_entries_mset:
  assumes "mset es = mset fs" "distinct (map (\<lambda>e. enc_bytes (fst e)) es)"
  shows "sorted_entries es = sorted_entries fs"
proof -
  let ?f = "\<lambda>e. (length (enc_bytes (fst e)), enc_bytes (fst e))"
  have "inj_on ?f (set es)"
    using assms(2) by (auto simp: distinct_map inj_on_def)
  then show ?thesis
    unfolding sorted_entries_def using assms(1)
    by (intro sort_key_inj_key_eq) simp_all
qed

lemma enc_bytes_inject:
  "is_ok (encode_value v) \<Longrightarrow> is_ok (encode_value w) \<Longrightarrow> enc_bytes v = enc_bytes w \<longleftrightarrow> encode_value v = encode_value w"
  by (auto simp: is_ok_iff enc_bytes_def)

lemma encode_VMap_ok:
  "is_ok (encode_value (VMap es)) \<longleftrightarrow> length es < 2 ^ 64 \<and>
    (\<forall>e \<in> set es. is_ok (encode_value (fst e)) \<and> is_ok (encode_value (snd e)))"
  unfolding is_ok_iff [of "encode_value (VMap es)"] encode_VMap by blast

text \<open>Heads take at most nine bytes, and an encoded map is its head and its entries.\<close>

lemma encode_u64_size: "length (encode_u64 m w) \<le> 9"
  by (simp add: encode_u64_def)

lemma encode_integer_size: "length (enc_bytes (VInteger i)) \<le> 9"
  using encode_u64_size [of MAJOR_UINT "word_of_int i"] encode_u64_size [of MAJOR_NEGINT "word_of_int (- 1 - i)"]
  by (simp add: enc_bytes_def encode_integer_def try_u64_def split: if_split)

lemma encode_bytes_size: "length (enc_bytes (VBytes bs)) \<le> 9 + length bs"
  using encode_u64_size [of MAJOR_BYTES "word_of_nat (length bs)"]
  by (simp add: enc_bytes_def encode_length_def try_u64_def split: if_split)

lemma encode_map_size:
  assumes "encode_value (VMap es) = Inr b"
  shows "length b \<le> 9 + sum_list (map (\<lambda>e. length (enc_bytes (fst e)) + length (enc_bytes (snd e))) es)"
proof -
  let ?f = "\<lambda>e. length (enc_bytes (fst e)) + length (enc_bytes (snd e))"
  have "mset (map ?f (sorted_entries es)) = mset (map ?f es)" by (simp add: sorted_entries_def)
  then have "sum_mset (mset (map ?f (sorted_entries es))) = sum_mset (mset (map ?f es))" by (simp only:)
  then have "sum_list (map ?f (sorted_entries es)) = sum_list (map ?f es)" by (simp only: sum_mset_sum_list)
  then show ?thesis
    using assms [unfolded encode_VMap] encode_u64_size [of MAJOR_MAP "word_of_nat (length es)"]
    by (simp add: length_concat comp_def)
qed

section \<open>Properties\<close>

text \<open>C4. Every value the canonical encoder accepts is recovered, up to canonical form, by an RFC 8949
  decoder run on its encoding followed by arbitrary bytes, and the decoder stops exactly at its end.\<close>

theorem canonical_round_trip:
  "ctap2_canonical_value_bytes v = Inr b \<Longrightarrow> cbor_decode (b @ rest) = Some (canon v, rest)"
  unfolding ctap2_canonical_value_bytes_def by (rule cbor_decode_encode)

theorem canonical_round_trip_witness:
  "ctap2_canonical_value_bytes (VMap [(VInteger 1, VInteger 100), (VInteger 0, VBytes [7])]) =
      Inr [0xa2, 0x00, 0x41, 0x07, 0x01, 0x18, 0x64] \<and>
    cbor_decode ([0xa2, 0x00, 0x41, 0x07, 0x01, 0x18, 0x64] @ [0xff]) =
      Some (canon (VMap [(VInteger 1, VInteger 100), (VInteger 0, VBytes [7])]), [0xff])"
proof -
  have "ctap2_canonical_value_bytes (VMap [(VInteger 1, VInteger 100), (VInteger 0, VBytes [7])]) =
      Inr [0xa2, 0x00, 0x41, 0x07, 0x01, 0x18, 0x64]"
    by code_simp
  with canonical_round_trip [OF this] show ?thesis by blast
qed

text \<open>C20. Canonical encodings are unambiguous: if an encoding followed by anything equals another
  encoding followed by anything, both values have the same canonical form and the encodings
  coincide.\<close>

theorem canonical_prefix_free:
  assumes "ctap2_canonical_value_bytes v = Inr b" "ctap2_canonical_value_bytes w = Inr c"
    and "b @ r = c @ s"
  shows "canon v = canon w \<and> b = c \<and> r = s"
proof -
  have "Some (canon v, r) = Some (canon w, s)"
    using assms cbor_decode_encode [of v b r] cbor_decode_encode [of w c s]
    by (simp add: ctap2_canonical_value_bytes_def)
  with assms(3) show ?thesis by simp
qed

theorem canonical_prefix_free_witness:
  "canon (VMap [(VInteger 1, VNull), (VInteger 0, VBool True)]) =
     canon (VMap [(VInteger 0, VBool True), (VInteger 1, VNull)]) \<and>
   [0xa2, 0x00, 0xf5, 0x01, 0xf6] = ([0xa2, 0x00, 0xf5, 0x01, 0xf6] :: bytes) \<and> [] = ([] :: bytes)"
proof (rule canonical_prefix_free)
  show "ctap2_canonical_value_bytes (VMap [(VInteger 1, VNull), (VInteger 0, VBool True)]) =
      Inr [0xa2, 0x00, 0xf5, 0x01, 0xf6]" by code_simp
  show "ctap2_canonical_value_bytes (VMap [(VInteger 0, VBool True), (VInteger 1, VNull)]) =
      Inr [0xa2, 0x00, 0xf5, 0x01, 0xf6]" by code_simp
qed simp

text \<open>C34. The encoding of a map does not depend on the order its entries are given in, when their
  keys have distinct encodings; this holds of failures too.\<close>

theorem map_order_irrelevant:
  assumes "mset es = mset fs" "distinct (map (\<lambda>e. encode_value (fst e)) es)"
  shows "ctap2_canonical_value_bytes (VMap es) = ctap2_canonical_value_bytes (VMap fs)"
proof (cases "encode_value (VMap es)")
  case (Inr b)
  then have ok: "\<forall>e \<in> set es. is_ok (encode_value (fst e))"
    unfolding encode_VMap by blast
  then have "distinct (map (\<lambda>e. enc_bytes (fst e)) es)"
    using assms(2) by (simp add: distinct_map inj_on_def enc_bytes_inject)
  then have "sorted_entries es = sorted_entries fs"
    by (rule sorted_entries_mset [OF assms(1)])
  with Inr have "encode_value (VMap fs) = Inr b"
    unfolding encode_VMap mset_eq_setD [OF assms(1)] mset_eq_length [OF assms(1)] by simp
  with Inr show ?thesis by (simp only: ctap2_canonical_value_bytes_def)
next
  case (Inl e)
  moreover have "\<not> is_ok (encode_value (VMap fs))"
    using Inl encode_VMap_ok [of es] encode_VMap_ok [of fs] assms(1)
    by (simp del: encode_value.simps add: mset_eq_setD [OF assms(1)] mset_eq_length [OF assms(1)])
  ultimately show ?thesis
    unfolding ctap2_canonical_value_bytes_def
    by (metis encode_value_error is_ok_simps(1) sum.exhaust)
qed

theorem map_order_irrelevant_witness:
  "ctap2_canonical_value_bytes (VMap [(VInteger 300, VNull), (VInteger (- 1), VBool True)]) =
   ctap2_canonical_value_bytes (VMap [(VInteger (- 1), VBool True), (VInteger 300, VNull)])"
proof (rule map_order_irrelevant)
  show "distinct (map (\<lambda>e. encode_value (fst e)) [(VInteger 300, VNull), (VInteger (- 1), VBool True)])"
    by code_simp
qed simp

text \<open>C19. \<open>ctap2_canonical_value_from_slice\<close> accepts canonical encodings only, and with a conforming reader it
  accepts those of all plain values.  Every accepted byte string is the canonical encoding of the value returned.
  The encoding of a value whose texts are UTF-8, whose nesting stays within 256 levels and that has no bignum
  tag (2 or 3) is accepted, and gives the canonical form of that value.\<close>

theorem from_slice_exact:
  assumes "cbor_conforms de"
  shows "(plain 256 v \<and> ctap2_canonical_value_bytes v = Inr bs \<longrightarrow> ctap2_canonical_value_from_slice de bs = Inr (canon v)) \<and>
    (ctap2_canonical_value_from_slice de bs = Inr v \<longrightarrow> ctap2_canonical_value_bytes v = Inr bs)"
  using from_slice_encode [OF assms, of v bs] by (auto simp: from_slice_eq_Inr ctap2_canonical_value_bytes_def)

theorem from_slice_exact_witness:
  "ctap2_canonical_value_from_slice
      (\<lambda>bs. case cbor_decode bs of None \<Rightarrow> Inl ''malformed'' | Some (v, _) \<Rightarrow> Inr v)
      [0xa1, 0x00, 0x61, 0x61] = Inr (VMap [(VInteger 0, VText ''a'')])"
proof -
  let ?v = "VMap [(VInteger 0, VText ''a'')]"
  have "ctap2_canonical_value_bytes ?v = Inr [0xa1, 0x00, 0x61, 0x61]" by code_simp
  moreover have "plain 256 ?v" by code_simp
  moreover have "canon ?v = ?v" by (simp add: sorted_entries_def)
  ultimately show ?thesis
    using from_slice_exact [OF reference_reader_conforms [of "''malformed''"], of ?v "[0xa1, 0x00, 0x61, 0x61]"]
    by (simp only: simp_thms)
qed

end
