(* ===== verification/Btree_Map.thy ===== *)
theory Btree_Map
  imports Spex_Prelude
begin

text \<open>
  \<open>std::collections::BTreeMap\<close>: the interface the sources use as a locale, and its model as a list
  of entries with strictly increasing keys, so that iteration order is the order of the list.
\<close>

section \<open>The interface\<close>

locale ordered_map =
  fixes empty :: 'm
    and ins :: "'k::linorder \<Rightarrow> 'v \<Rightarrow> 'm \<Rightarrow> 'm"
    and del :: "'k \<Rightarrow> 'm \<Rightarrow> 'm"
    and get :: "'m \<Rightarrow> 'k \<Rightarrow> 'v option"
    and entries :: "'m \<Rightarrow> ('k \<times> 'v) list"
    and ok :: "'m \<Rightarrow> bool"
  assumes ok_empty: "ok empty"
    and ok_ins: "ok m \<Longrightarrow> ok (ins k v m)"
    and ok_del: "ok m \<Longrightarrow> ok (del k m)"
    and get_empty: "get empty = Map.empty"
    and get_ins: "ok m \<Longrightarrow> get (ins k v m) = (get m)(k \<mapsto> v)"
    and get_del: "ok m \<Longrightarrow> get (del k m) = (get m)(k := None)"
    and map_of_entries: "ok m \<Longrightarrow> map_of (entries m) = get m"
    and entries_increasing: "ok m \<Longrightarrow> sorted_wrt (<) (map fst (entries m))"
begin

lemma entries_unique:
  assumes "ok m" "ok n" "get m = get n"
  shows "entries m = entries n"
proof -
  have "map_of (entries m) = map_of (entries n)"
    using assms by (simp add: map_of_entries)
  moreover have sd: "sorted (map fst (entries x)) \<and> distinct (map fst (entries x))" if "ok x" for x
    using entries_increasing [OF that] by (simp add: strict_sorted_iff)
  ultimately have "set (entries m) = set (entries n)"
    using assms(1,2) by (simp add: map_of_inject_set)
  with sd [OF assms(1)] sd [OF assms(2)] show ?thesis
    by (intro map_sorted_distinct_set_unique [where f = fst]) (auto simp: distinct_map inj_on_def)
qed

lemma foldl_ins:
  "ok m \<Longrightarrow> ok (foldl (\<lambda>m e. ins (fst e) (snd e) m) m kvs) \<and>
    get (foldl (\<lambda>m e. ins (fst e) (snd e) m) m kvs) = get m ++ map_of (rev kvs)"
  by (induction kvs arbitrary: m) (simp_all add: ok_ins get_ins map_add_def fun_eq_iff split: option.splits)

lemma entries_ins_commute:
  assumes "ok m" "k \<noteq> l"
  shows "entries (ins k v (ins l w m)) = entries (ins l w (ins k v m))"
  by (rule entries_unique) (use assms in \<open>simp_all add: ok_ins get_ins fun_upd_twist\<close>)

end

section \<open>The model\<close>

type_synonym ('k, 'v) btree = "('k \<times> 'v) list"

definition btree_ok :: "('k::linorder, 'v) btree \<Rightarrow> bool" where
  "btree_ok m \<longleftrightarrow> sorted_wrt (<) (map fst m)"

fun btree_insert :: "'k::linorder \<Rightarrow> 'v \<Rightarrow> ('k, 'v) btree \<Rightarrow> ('k, 'v) btree" where
  "btree_insert k v [] = [(k, v)]"
| "btree_insert k v ((a, b) # m) =
    (if k < a then (k, v) # (a, b) # m
     else if k = a then (k, v) # m
     else (a, b) # btree_insert k v m)"

definition btree_remove :: "'k \<Rightarrow> ('k, 'v) btree \<Rightarrow> ('k, 'v) btree" where
  "btree_remove k m = filter (\<lambda>e. fst e \<noteq> k) m"

definition btree_extend :: "('k::linorder, 'v) btree \<Rightarrow> ('k \<times> 'v) list \<Rightarrow> ('k, 'v) btree" where
  "btree_extend m kvs = foldl (\<lambda>m e. btree_insert (fst e) (snd e) m) m kvs"

lemma fst_set_btree_insert: "fst ` set (btree_insert k v m) = insert k (fst ` set m)"
  by (induction k v m rule: btree_insert.induct) auto

lemma btree_ok_insert: "btree_ok m \<Longrightarrow> btree_ok (btree_insert k v m)"
proof (induction k v m rule: btree_insert.induct)
  case (2 k v a b m)
  have "fst ` set (btree_insert k v m) = insert k (fst ` set m)" by (rule fst_set_btree_insert)
  with 2 show ?case by (auto simp: btree_ok_def)
qed (simp add: btree_ok_def)

lemma map_of_btree_insert: "map_of (btree_insert k v m) = (map_of m)(k \<mapsto> v)"
  by (induction k v m rule: btree_insert.induct) (auto simp: fun_eq_iff)

lemma map_of_btree_remove: "map_of (btree_remove k m) = (map_of m)(k := None)"
  by (induction m) (auto simp: btree_remove_def fun_eq_iff)

lemma btree_ok_remove: "btree_ok m \<Longrightarrow> btree_ok (btree_remove k m)"
  by (induction m) (auto simp: btree_ok_def btree_remove_def)

interpretation btree: ordered_map "[]" btree_insert btree_remove map_of "\<lambda>m. m" btree_ok
  by unfold_locales
    (simp_all add: btree_ok_insert btree_ok_remove map_of_btree_insert map_of_btree_remove,
     simp_all add: btree_ok_def)

lemma btree_ok_Nil [simp]: "btree_ok []"
  by (rule btree.ok_empty)

lemma btree_ok_Cons [simp]: "btree_ok (e # m) \<longleftrightarrow> (\<forall>f \<in> set m. fst e < fst f) \<and> btree_ok m"
  by (auto simp: btree_ok_def)

lemma btree_extend_ok: "btree_ok m \<Longrightarrow> btree_ok (btree_extend m kvs)"
  using btree.foldl_ins unfolding btree_extend_def by blast

lemma map_of_btree_extend: "btree_ok m \<Longrightarrow> map_of (btree_extend m kvs) = map_of m ++ map_of (rev kvs)"
  using btree.foldl_ins unfolding btree_extend_def by blast

lemma btree_ok_distinct: "btree_ok m \<Longrightarrow> distinct (map fst m)"
  by (simp add: btree_ok_def strict_sorted_iff)

lemma map_of_rev_btree: "btree_ok m \<Longrightarrow> map_of (rev m) = map_of m"
  by (simp add: btree_ok_distinct map_of_inject_set rev_map [symmetric])

end
