(* ===== verification/Spex_Types.thy ===== *)
theory Spex_Types
  imports Cbor_Spec Btree_Map
begin

text \<open>
  The wire structures of \<open>spex-core/src/types.rs\<close> with the fixed-width helpers of
  \<open>utils.rs\<close>, and the structures of the checkpoint log (\<open>log.rs\<close>, lines 13 to 120).

  Each structure is a record.  The trait \<open>Ctap2Cbor\<close> is the locale \<open>ctap2_struct\<close>: an implementor
  gives the \<open>BTreeMap<u64, Value>\<close> it builds, and the CBOR value and the canonical bytes follow.
  The lemmas proved in the locale hold for every structure that is signed or hashed.
\<close>

section \<open>Fixed-width integers\<close>

definition u16be :: "u16 \<Rightarrow> bytes" where "u16be v = be_bytes 2 (unat v)"
definition u32be :: "u32 \<Rightarrow> bytes" where "u32be v = be_bytes 4 (unat v)"
definition u64be :: "u64 \<Rightarrow> bytes" where "u64be v = be_bytes 8 (unat v)"

lemma length_ube [simp, wire_simps]:
  "length (u16be a) = 2" "length (u32be b) = 4" "length (u64be c) = 8"
  by (simp_all add: u16be_def u32be_def u64be_def del: be_bytes.simps)

lemma ube_inject [simp]:
  "u16be a = u16be a' \<longleftrightarrow> a = a'" "u32be b = u32be b' \<longleftrightarrow> b = b'" "u64be c = u64be c' \<longleftrightarrow> c = c'"
  using unsigned_less [of a, where 'a = nat] unsigned_less [of a', where 'a = nat]
    unsigned_less [of b, where 'a = nat] unsigned_less [of b', where 'a = nat]
    unsigned_less [of c, where 'a = nat] unsigned_less [of c', where 'a = nat]
  by (simp_all add: u16be_def u32be_def u64be_def be_bytes_inject word_unat_eq_iff del: be_bytes.simps)

definition to_fixed :: "nat \<Rightarrow> bytes \<Rightarrow> SpexError + bytes" where
  "to_fixed n bs = (if length bs \<noteq> n then Inl (InvalidLength ''fixed array'') else Inr bs)"

section \<open>Structures\<close>

record ProtoSuite =
  ps_major :: u16
  ps_minor :: u16
  ps_ciphersuite_id :: u16

type_synonym extensions = "(u64, Value) btree"

record InviteToken =
  it_major :: u16
  it_minor :: u16
  it_requires_puzzle :: bool
  it_extensions :: extensions

record ContactCard =
  cc_user_id :: bytes
  cc_verifying_key :: bytes
  cc_device_id :: bytes
  cc_device_nonce :: bytes
  cc_issued_at :: u64
  cc_invite :: "InviteToken option"
  cc_signature :: "bytes option"
  cc_extensions :: extensions

record GrantToken =
  gt_user_id :: bytes
  gt_role :: u64
  gt_flags :: "u64 option"
  gt_expires_at :: "u64 option"
  gt_extensions :: extensions

record ThreadConfig =
  tc_proto_major :: u16
  tc_proto_minor :: u16
  tc_ciphersuite_id :: u16
  tc_flags :: u8
  tc_thread_id :: bytes
  tc_grants :: "GrantToken list"
  tc_extensions :: extensions

record Envelope =
  env_thread_id :: bytes
  env_epoch :: u32
  env_seq :: u64
  env_sender_user_id :: bytes
  env_ciphertext :: bytes
  env_signature :: "bytes option"
  env_extensions :: extensions

section \<open>CBOR values of the structures\<close>

definition key_to_cbor :: "u64 \<Rightarrow> Value" where
  "key_to_cbor k = VInteger (uint k)"

text \<open>\<open>Value::Map(map.into_iter().map(|(k, v)| (key_to_cbor(k), v)).collect())\<close>\<close>

definition map_to_cbor :: "(u64, Value) btree \<Rightarrow> Value" where
  "map_to_cbor m = VMap (map (\<lambda>(k, v). (key_to_cbor k, v)) m)"

definition insert_opt :: "u64 \<Rightarrow> Value option \<Rightarrow> (u64, Value) btree \<Rightarrow> (u64, Value) btree" where
  "insert_opt k v m = (case v of None \<Rightarrow> m | Some x \<Rightarrow> btree_insert k x m)"

definition InviteToken_base :: "InviteToken \<Rightarrow> (u64, Value) btree" where
  "InviteToken_base t =
     btree_insert 2 (VBool (it_requires_puzzle t))
     (btree_insert 1 (VInteger (uint (it_minor t)))
     (btree_insert 0 (VInteger (uint (it_major t))) []))"

definition InviteToken_fields :: "InviteToken \<Rightarrow> (u64, Value) btree" where
  "InviteToken_fields t = btree_extend (InviteToken_base t) (it_extensions t)"

definition InviteToken_to_cbor :: "InviteToken \<Rightarrow> Value" where
  "InviteToken_to_cbor t = map_to_cbor (InviteToken_fields t)"

definition ContactCard_base :: "ContactCard \<Rightarrow> (u64, Value) btree" where
  "ContactCard_base c =
     insert_opt 6 (map_option VBytes (cc_signature c))
     (insert_opt 5 (map_option InviteToken_to_cbor (cc_invite c))
     (btree_insert 4 (VInteger (uint (cc_issued_at c)))
     (btree_insert 3 (VBytes (cc_device_nonce c))
     (btree_insert 2 (VBytes (cc_device_id c))
     (btree_insert 1 (VBytes (cc_verifying_key c))
     (btree_insert 0 (VBytes (cc_user_id c)) []))))))"

definition ContactCard_fields :: "ContactCard \<Rightarrow> (u64, Value) btree" where
  "ContactCard_fields c = btree_extend (ContactCard_base c) (cc_extensions c)"

definition ContactCard_to_cbor :: "ContactCard \<Rightarrow> Value" where
  "ContactCard_to_cbor c = map_to_cbor (ContactCard_fields c)"

definition GrantToken_base :: "GrantToken \<Rightarrow> (u64, Value) btree" where
  "GrantToken_base g =
     insert_opt 3 (map_option (\<lambda>e. VInteger (uint e)) (gt_expires_at g))
     (insert_opt 2 (map_option (\<lambda>f. VInteger (uint f)) (gt_flags g))
     (btree_insert 1 (VInteger (uint (gt_role g)))
     (btree_insert 0 (VBytes (gt_user_id g)) [])))"

definition GrantToken_fields :: "GrantToken \<Rightarrow> (u64, Value) btree" where
  "GrantToken_fields g = btree_extend (GrantToken_base g) (gt_extensions g)"

definition GrantToken_to_cbor :: "GrantToken \<Rightarrow> Value" where
  "GrantToken_to_cbor g = map_to_cbor (GrantToken_fields g)"

definition ThreadConfig_base :: "ThreadConfig \<Rightarrow> (u64, Value) btree" where
  "ThreadConfig_base c =
     btree_insert 5 (VArray (map GrantToken_to_cbor (tc_grants c)))
     (btree_insert 4 (VBytes (tc_thread_id c))
     (btree_insert 3 (VInteger (uint (tc_flags c)))
     (btree_insert 2 (VInteger (uint (tc_ciphersuite_id c)))
     (btree_insert 1 (VInteger (uint (tc_proto_minor c)))
     (btree_insert 0 (VInteger (uint (tc_proto_major c))) [])))))"

definition ThreadConfig_fields :: "ThreadConfig \<Rightarrow> (u64, Value) btree" where
  "ThreadConfig_fields c = btree_extend (ThreadConfig_base c) (tc_extensions c)"

definition ThreadConfig_to_cbor :: "ThreadConfig \<Rightarrow> Value" where
  "ThreadConfig_to_cbor c = map_to_cbor (ThreadConfig_fields c)"

definition Envelope_base :: "Envelope \<Rightarrow> (u64, Value) btree" where
  "Envelope_base e =
     insert_opt 5 (map_option VBytes (env_signature e))
     (btree_insert 4 (VBytes (env_ciphertext e))
     (btree_insert 3 (VBytes (env_sender_user_id e))
     (btree_insert 2 (VInteger (uint (env_seq e)))
     (btree_insert 1 (VInteger (uint (env_epoch e)))
     (btree_insert 0 (VBytes (env_thread_id e)) [])))))"

definition Envelope_fields :: "Envelope \<Rightarrow> (u64, Value) btree" where
  "Envelope_fields e = btree_extend (Envelope_base e) (env_extensions e)"

definition Envelope_to_cbor :: "Envelope \<Rightarrow> Value" where
  "Envelope_to_cbor e = map_to_cbor (Envelope_fields e)"

section \<open>Reading an envelope\<close>

datatype de_error =
    Access string
  | Custom string
  | MissingField string

definition value_as_bytes :: "string \<Rightarrow> Value \<Rightarrow> de_error + bytes" where
  "value_as_bytes field v =
    (case v of VBytes b \<Rightarrow> Inr b | _ \<Rightarrow> Inl (Custom (''invalid '' @ field @ '' field (expected bytes)'')))"

definition value_as_u64 :: "string \<Rightarrow> Value \<Rightarrow> de_error + u64" where
  "value_as_u64 field v =
    (case v of
       VInteger n \<Rightarrow>
         if n \<ge> 0 then ok_or (Custom (''invalid '' @ field @ '' field range'')) (try_u64 n)
         else Inl (Custom (''invalid '' @ field @ '' field (expected unsigned integer)''))
     | _ \<Rightarrow> Inl (Custom (''invalid '' @ field @ '' field (expected unsigned integer)'')))"

definition value_as_u32 :: "string \<Rightarrow> Value \<Rightarrow> de_error + u32" where
  "value_as_u32 field v =
    bind_res (value_as_u64 field v) (\<lambda>raw.
    if raw \<le> 0xffffffff then Inr (ucast raw)
    else Inl (Custom (''invalid '' @ field @ '' field range'')))"

record EnvelopeParts =
  ep_thread_id :: "bytes option"
  ep_epoch :: "u32 option"
  ep_seq :: "u64 option"
  ep_sender_user_id :: "bytes option"
  ep_ciphertext :: "bytes option"
  ep_signature :: "bytes option"
  ep_extensions :: extensions

definition empty_parts :: EnvelopeParts where
  "empty_parts = \<lparr>ep_thread_id = None, ep_epoch = None, ep_seq = None, ep_sender_user_id = None,
    ep_ciphertext = None, ep_signature = None, ep_extensions = []\<rparr>"

text \<open>The body of the loop \<open>while let Some(key) = map.next_key::<i128>()?\<close>.\<close>

definition visit_entry :: "EnvelopeParts \<Rightarrow> int \<Rightarrow> Value \<Rightarrow> de_error + EnvelopeParts" where
  "visit_entry p key v =
    (if key = 0 then map_res (\<lambda>b. p\<lparr>ep_thread_id := Some b\<rparr>) (value_as_bytes ''thread_id'' v)
     else if key = 1 then map_res (\<lambda>n. p\<lparr>ep_epoch := Some n\<rparr>) (value_as_u32 ''epoch'' v)
     else if key = 2 then map_res (\<lambda>n. p\<lparr>ep_seq := Some n\<rparr>) (value_as_u64 ''seq'' v)
     else if key = 3 then map_res (\<lambda>b. p\<lparr>ep_sender_user_id := Some b\<rparr>) (value_as_bytes ''sender_user_id'' v)
     else if key = 4 then map_res (\<lambda>b. p\<lparr>ep_ciphertext := Some b\<rparr>) (value_as_bytes ''ciphertext'' v)
     else if key = 5 then map_res (\<lambda>b. p\<lparr>ep_signature := Some b\<rparr>) (value_as_bytes ''signature'' v)
     else if key \<ge> 0 then Inr (p\<lparr>ep_extensions := btree_insert (word_of_int key) v (ep_extensions p)\<rparr>)
     else Inl (Custom ''negative extension key''))"

text \<open>
  \<open>EnvelopeVisitor::visit_map\<close>: the map access is the sequence of its \<open>next_key\<close>/\<open>next_value\<close>
  results, each an entry or the error of the reader.
\<close>

primrec visit_entries :: "EnvelopeParts \<Rightarrow> (string + (int \<times> Value)) list \<Rightarrow> de_error + EnvelopeParts" where
  "visit_entries p [] = Inr p"
| "visit_entries p (e # es) =
    bind_res (map_err Access e) (\<lambda>kv.
    bind_res (visit_entry p (fst kv) (snd kv)) (\<lambda>p'. visit_entries p' es))"

definition visit_map :: "(string + (int \<times> Value)) list \<Rightarrow> de_error + Envelope" where
  "visit_map es =
    bind_res (visit_entries empty_parts es) (\<lambda>p.
    bind_res (ok_or (MissingField ''thread_id'') (ep_thread_id p)) (\<lambda>thread_id.
    bind_res (ok_or (MissingField ''epoch'') (ep_epoch p)) (\<lambda>epoch.
    bind_res (ok_or (MissingField ''seq'') (ep_seq p)) (\<lambda>sq.
    bind_res (ok_or (MissingField ''sender_user_id'') (ep_sender_user_id p)) (\<lambda>sender.
    bind_res (ok_or (MissingField ''ciphertext'') (ep_ciphertext p)) (\<lambda>ciphertext.
    Inr \<lparr>env_thread_id = thread_id, env_epoch = epoch, env_seq = sq, env_sender_user_id = sender,
         env_ciphertext = ciphertext, env_signature = ep_signature p, env_extensions = ep_extensions p\<rparr>))))))"

section \<open>Unsigned keys are in canonical order\<close>

lemma bytes_less_iff: "length xs = length ys \<Longrightarrow> (xs :: bytes) < ys \<longleftrightarrow> be_nat xs < be_nat ys"
proof (induction xs ys rule: list_induct2)
  case Nil
  then show ?case by simp
next
  case (Cons x xs y ys)
  define B where "B = (256 :: nat) ^ length xs"
  have b: "be_nat xs < B" "be_nat ys < B"
    using be_nat_bound [of xs] be_nat_bound [of ys] Cons.hyps by (simp_all add: B_def)
  have "a * B + c < d * B + e \<longleftrightarrow> a < d \<or> a = d \<and> c < e" if "c < B" "e < B" for a c d e :: nat
  proof (cases a d rule: linorder_cases)
    case less
    then have "(a + 1) * B \<le> d * B" by (intro mult_right_mono) simp_all
    with less that show ?thesis by simp
  next
    case greater
    then have "(d + 1) * B \<le> a * B" by (intro mult_right_mono) simp_all
    with greater that show ?thesis by simp
  qed simp
  note this [OF b, of "unat x" "unat y"]
  moreover have "be_nat (x # xs) = unat x * B + be_nat xs" "be_nat (y # ys) = unat y * B + be_nat ys"
    using Cons.hyps by (simp_all add: B_def)
  moreover have "x < y \<longleftrightarrow> unat x < unat y" "x = y \<longleftrightarrow> unat x = unat y"
    by (simp_all add: word_less_nat_alt word_unat_eq_iff)
  ultimately show ?case using Cons.IH by (simp only: Cons_less_Cons)
qed

definition uint_order :: "u64 \<Rightarrow> nat \<times> bytes" where
  "uint_order u = (length (encode_u64 MAJOR_UINT u), encode_u64 MAJOR_UINT u)"

lemma or_zero_word [simp]: "(0 :: 'a::len word) OR w = w"
  by simp

lemma encode_uint_cases:
  "encode_u64 MAJOR_UINT u =
    (if unat u < 24 then [ucast u]
     else if unat u < 256 then 24 # be_bytes 1 (unat u)
     else if unat u < 65536 then 25 # be_bytes 2 (unat u)
     else if unat u < 4294967296 then 26 # be_bytes 4 (unat u)
     else 27 # be_bytes 8 (unat u))"
proof -
  have "be_bytes 1 (unat u) = [ucast u]" by simp
  then show ?thesis
    by (auto simp: encode_u64_def MAJOR_UINT_def word_le_nat_alt unat_ucast_small
        simp del: be_bytes.simps(2) One_nat_def)
qed

lemma be_bytes_less_iff:
  "m < 256 ^ k \<Longrightarrow> n < 256 ^ k \<Longrightarrow> be_bytes k m < be_bytes k n \<longleftrightarrow> m < n"
  by (simp add: bytes_less_iff be_nat_be_bytes)

lemma uint_order_mono:
  assumes "u < v"
  shows "uint_order u < uint_order v"
proof -
  have lt: "unat u < unat v" using assms by (simp add: word_less_nat_alt)
  have v: "unat v < 2 ^ 64" using unsigned_less [of v, where 'a = nat] by simp
  have u8: "(ucast u :: u8) < ucast v" if "unat v < 24"
    using that lt by (simp add: word_less_nat_alt unat_ucast_small)
  note mono = be_bytes_less_iff [where m = "unat u" and n = "unat v"]
  consider "unat v < 24" | "24 \<le> unat v" "unat v < 256" | "256 \<le> unat v" "unat v < 65536"
    | "65536 \<le> unat v" "unat v < 4294967296" | "4294967296 \<le> unat v"
    by linarith
  then show ?thesis
  proof cases
    case 1
    then show ?thesis using lt u8 by (simp add: uint_order_def encode_uint_cases)
  next
    case 2
    then show ?thesis
      using lt mono [of 1] by (simp add: uint_order_def encode_uint_cases del: be_bytes.simps(2) One_nat_def)
  next
    case 3
    then show ?thesis
      using lt mono [of 2] by (simp add: uint_order_def encode_uint_cases del: be_bytes.simps(2))
  next
    case 4
    then show ?thesis
      using lt mono [of 4] by (simp add: uint_order_def encode_uint_cases del: be_bytes.simps(2))
  next
    case 5
    then show ?thesis
      using lt v mono [of 8] by (simp add: uint_order_def encode_uint_cases del: be_bytes.simps(2))
  qed
qed

lemma encode_key [simp]: "encode_value (key_to_cbor k) = Inr (encode_u64 MAJOR_UINT k)"
  using uint_bounded [of k] by (simp add: key_to_cbor_def encode_integer_def try_u64_def)

lemma enc_bytes_key: "enc_bytes (key_to_cbor k) = encode_u64 MAJOR_UINT k"
  by (simp add: enc_bytes_def)

lemma sorted_entries_keys:
  assumes "btree_ok m"
  shows "sorted_entries (map (\<lambda>(k, v). (key_to_cbor k, v)) m) = map (\<lambda>(k, v). (key_to_cbor k, v)) m"
proof -
  have "sorted (map (\<lambda>e. uint_order (fst e)) m)"
  proof (rule sorted_wrt_mono_rel)
    show "sorted_wrt (\<lambda>a b. a < b) (map (\<lambda>e. uint_order (fst e)) m)"
      using assms unfolding btree_ok_def sorted_wrt_map
      by (rule sorted_wrt_mono_rel [rotated]) (simp add: uint_order_mono)
  qed simp
  then show ?thesis
    unfolding sorted_entries_def
    by (intro sort_key_id_if_sorted) (simp add: o_def case_prod_beta enc_bytes_key uint_order_def)
qed

definition canon_fields :: "(u64, Value) btree \<Rightarrow> (u64, Value) btree" where
  "canon_fields m = map (\<lambda>(k, v). (k, canon v)) m"

lemma btree_ok_canon_fields [simp]: "btree_ok (canon_fields m) = btree_ok m"
  by (simp add: btree_ok_def canon_fields_def o_def case_prod_beta)

lemma map_of_canon_fields: "map_of (canon_fields m) k = map_option canon (map_of m k)"
  by (simp add: canon_fields_def map_of_map)

lemma canon_key [simp]: "canon (key_to_cbor k) = key_to_cbor k"
  by (simp add: key_to_cbor_def)

lemma canon_map_to_cbor: "btree_ok m \<Longrightarrow> canon (map_to_cbor m) = map_to_cbor (canon_fields m)"
  using sorted_entries_keys [of "canon_fields m"] btree_ok_canon_fields [of m]
  by (simp add: map_to_cbor_def canon_fields_def o_def case_prod_beta)

lemma key_to_cbor_inject [simp]: "key_to_cbor k = key_to_cbor l \<longleftrightarrow> k = l"
  by (simp add: key_to_cbor_def word_uint_eq_iff)

lemma map_to_cbor_inject: "map_to_cbor m = map_to_cbor n \<longleftrightarrow> m = n"
  unfolding map_to_cbor_def Value.inject
  by (rule inj_map_eq_map) (auto simp: inj_on_def)

section \<open>The trait \<open>Ctap2Cbor\<close>\<close>

locale ctap2_struct =
  fixes fields :: "'a \<Rightarrow> (u64, Value) btree"
    and to_cbor :: "'a \<Rightarrow> Value"
  assumes to_cbor_fields: "to_cbor x = map_to_cbor (fields x)"
    and fields_ok: "btree_ok (fields x)"
begin

lemma canon_to_cbor: "canon (to_cbor x) = map_to_cbor (canon_fields (fields x))"
  by (simp add: to_cbor_fields canon_map_to_cbor fields_ok)

lemma same_bytes_same_fields:
  assumes "ctap2_canonical_value_bytes (to_cbor x) = Inr b"
    and "ctap2_canonical_value_bytes (to_cbor y) = Inr b"
  shows "canon_fields (fields x) = canon_fields (fields y)"
  using encode_value_canon_eq [of "to_cbor x" b "to_cbor y"] assms
  by (simp add: ctap2_canonical_value_bytes_def canon_to_cbor map_to_cbor_inject)

lemma same_bytes_lookup:
  assumes "ctap2_canonical_value_bytes (to_cbor x) = Inr b"
    and "ctap2_canonical_value_bytes (to_cbor y) = Inr b"
  shows "map_option canon (map_of (fields x) k) = map_option canon (map_of (fields y) k)"
  using same_bytes_same_fields [OF assms] by (metis map_of_canon_fields)

end

text \<open>
  An extension map is well formed for a structure with \<open>n\<close> reserved field identifiers when it
  is a \<open>BTreeMap\<close> and no extension reuses a reserved identifier.
\<close>

definition ext_ok :: "u64 \<Rightarrow> extensions \<Rightarrow> bool" where
  "ext_ok n m \<longleftrightarrow> btree_ok m \<and> (\<forall>e \<in> set m. n \<le> fst e)"

lemma btree_extend_append:
  assumes "btree_ok m" "\<forall>e \<in> set m. fst e < n" "ext_ok n x"
  shows "btree_extend m x = m @ x"
proof (rule btree.entries_unique)
  have "fst e < fst f" if "e \<in> set m" "f \<in> set x" for e f
    using assms(2,3) that less_le_trans unfolding ext_ok_def by blast
  then show ok: "btree_ok (m @ x)"
    using assms(1,3) by (simp add: ext_ok_def btree_ok_def sorted_wrt_append)
  show "btree_ok (btree_extend m x)" using assms(1) by (rule btree_extend_ok)
  have "dom (map_of m) \<inter> dom (map_of x) = {}"
    using btree_ok_distinct [OF ok] by (simp add: dom_map_of_conv_image_fst)
  then show "map_of (btree_extend m x) = map_of (m @ x)"
    using assms(1,3) by (simp add: map_of_btree_extend map_of_rev_btree ext_ok_def map_add_comm [of "map_of m"])
qed

lemma split_at_reserved:
  assumes "a @ x = b @ y" "\<forall>e \<in> set a. fst e < n" "\<forall>e \<in> set b. fst e < n"
    and "\<forall>e \<in> set x. n \<le> fst e" "\<forall>e \<in> set y. n \<le> (fst e :: u64)"
  shows "a = b \<and> x = y"
proof -
  have "filter (\<lambda>e. fst e < n) (a @ x) = a" "filter (\<lambda>e. fst e < n) (b @ y) = b"
    using assms(2-5) by (auto simp: filter_id_conv filter_empty_conv)
  then have "a = b" using assms(1) by simp
  with assms(1) show ?thesis by simp
qed

lemma canon_fields_append [simp]: "canon_fields (a @ b) = canon_fields a @ canon_fields b"
  by (simp add: canon_fields_def)

lemma fst_canon_fields: "fst ` set (canon_fields m) = fst ` set m"
  by (force simp: canon_fields_def)

locale ctap2_ext_struct = ctap2_struct fields to_cbor
  for fields :: "'a \<Rightarrow> (u64, Value) btree" and to_cbor :: "'a \<Rightarrow> Value" +
  fixes base :: "'a \<Rightarrow> (u64, Value) btree"
    and ext :: "'a \<Rightarrow> extensions"
    and reserved :: u64
  assumes fields_extend: "fields x = btree_extend (base x) (ext x)"
    and base_ok: "btree_ok (base x)"
    and base_reserved: "e \<in> set (base x) \<Longrightarrow> fst e < reserved"
begin

lemma fields_append: "ext_ok reserved (ext x) \<Longrightarrow> fields x = base x @ ext x"
  unfolding fields_extend by (rule btree_extend_append [OF base_ok]) (simp_all add: base_reserved)

lemma same_bytes_same_parts:
  assumes "ext_ok reserved (ext x)" "ext_ok reserved (ext y)"
    and "ctap2_canonical_value_bytes (to_cbor x) = Inr b"
    and "ctap2_canonical_value_bytes (to_cbor y) = Inr b"
  shows "canon_fields (base x) = canon_fields (base y) \<and> canon_fields (ext x) = canon_fields (ext y)"
proof (rule split_at_reserved)
  show "canon_fields (base x) @ canon_fields (ext x) = canon_fields (base y) @ canon_fields (ext y)"
    using same_bytes_same_fields [OF assms(3,4)] by (simp add: fields_append assms(1,2))
  show "\<forall>e \<in> set (canon_fields (base x)). fst e < reserved"
      "\<forall>e \<in> set (canon_fields (base y)). fst e < reserved"
    using base_reserved by (auto simp: canon_fields_def)
  show "\<forall>e \<in> set (canon_fields (ext x)). reserved \<le> fst e"
      "\<forall>e \<in> set (canon_fields (ext y)). reserved \<le> fst e"
    using assms(1,2) by (auto simp: canon_fields_def ext_ok_def)
qed

end

lemma insert_opt_simps [simp]:
  "insert_opt k None m = m" "insert_opt k (Some v) m = btree_insert k v m"
  by (simp_all add: insert_opt_def)

lemmas base_defs = InviteToken_base_def ContactCard_base_def GrantToken_base_def
  ThreadConfig_base_def Envelope_base_def

lemma invite_base_ok [simp]:
  "btree_ok (InviteToken_base t)" "e \<in> set (InviteToken_base t) \<Longrightarrow> fst e < 3"
  by (auto simp: base_defs)

lemma card_base_ok [simp]:
  "btree_ok (ContactCard_base c)" "e \<in> set (ContactCard_base c) \<Longrightarrow> fst e < 7"
  by (cases "cc_signature c"; cases "cc_invite c"; auto simp: base_defs)+

lemma grant_base_ok [simp]:
  "btree_ok (GrantToken_base g)" "e \<in> set (GrantToken_base g) \<Longrightarrow> fst e < 4"
  by (cases "gt_expires_at g"; cases "gt_flags g"; auto simp: base_defs)+

lemma config_base_ok [simp]:
  "btree_ok (ThreadConfig_base c)" "e \<in> set (ThreadConfig_base c) \<Longrightarrow> fst e < 6"
  by (auto simp: base_defs)

lemma envelope_base_ok [simp]:
  "btree_ok (Envelope_base v)" "e \<in> set (Envelope_base v) \<Longrightarrow> fst e < 6"
  by (cases "env_signature v"; auto simp: base_defs)+

interpretation invite_token: ctap2_ext_struct InviteToken_fields InviteToken_to_cbor
    InviteToken_base it_extensions 3
  by unfold_locales (simp_all add: InviteToken_to_cbor_def InviteToken_fields_def btree_extend_ok)

interpretation contact_card: ctap2_ext_struct ContactCard_fields ContactCard_to_cbor
    ContactCard_base cc_extensions 7
  by unfold_locales (simp_all add: ContactCard_to_cbor_def ContactCard_fields_def btree_extend_ok)

interpretation grant_token: ctap2_ext_struct GrantToken_fields GrantToken_to_cbor
    GrantToken_base gt_extensions 4
  by unfold_locales (simp_all add: GrantToken_to_cbor_def GrantToken_fields_def btree_extend_ok)

interpretation thread_config: ctap2_ext_struct ThreadConfig_fields ThreadConfig_to_cbor
    ThreadConfig_base tc_extensions 6
  by unfold_locales (simp_all add: ThreadConfig_to_cbor_def ThreadConfig_fields_def btree_extend_ok)

interpretation envelope: ctap2_ext_struct Envelope_fields Envelope_to_cbor
    Envelope_base env_extensions 6
  by unfold_locales (simp_all add: Envelope_to_cbor_def Envelope_fields_def btree_extend_ok)

section \<open>Grant tokens\<close>

lemma canon_fields_simps [simp]:
  "canon_fields [] = []" "canon_fields ((k, v) # m) = (k, canon v) # canon_fields m"
  by (simp_all add: canon_fields_def)

lemma grant_base_inject:
  "canon_fields (GrantToken_base g) = canon_fields (GrantToken_base h) \<longleftrightarrow>
    gt_user_id g = gt_user_id h \<and> gt_role g = gt_role h \<and> gt_flags g = gt_flags h \<and>
    gt_expires_at g = gt_expires_at h"
  by (cases "gt_flags g"; cases "gt_flags h"; cases "gt_expires_at g"; cases "gt_expires_at h")
     (auto simp: base_defs word_uint_eq_iff)

text \<open>C27. What a signature on a grant token covers: two grant tokens whose extensions stay out of the
  reserved identifiers 0 to 3 and that have the same canonical bytes agree on user, role, flags and
  expiry, and their extensions have the same canonical values.\<close>

theorem grant_bytes_injective:
  assumes "ext_ok 4 (gt_extensions g)" "ext_ok 4 (gt_extensions h)"
    and "ctap2_canonical_value_bytes (GrantToken_to_cbor g) = Inr b"
    and "ctap2_canonical_value_bytes (GrantToken_to_cbor h) = Inr b"
  shows "gt_user_id g = gt_user_id h \<and> gt_role g = gt_role h \<and> gt_flags g = gt_flags h \<and>
    gt_expires_at g = gt_expires_at h \<and>
    canon_fields (gt_extensions g) = canon_fields (gt_extensions h)"
  using grant_token.same_bytes_same_parts [OF assms] by (simp add: grant_base_inject)

theorem grant_bytes_injective_witness:
  "let g = \<lparr>gt_user_id = [1], gt_role = 2, gt_flags = None, gt_expires_at = Some 9,
         gt_extensions = [(5, VMap [(VInteger 1, VNull), (VInteger 0, VNull)])]\<rparr>;
       h = g\<lparr>gt_extensions := [(5, VMap [(VInteger 0, VNull), (VInteger 1, VNull)])]\<rparr>
   in gt_extensions g \<noteq> gt_extensions h \<and> canon_fields (gt_extensions g) = canon_fields (gt_extensions h)"
proof -
  let ?g = "\<lparr>gt_user_id = [1], gt_role = 2, gt_flags = None, gt_expires_at = Some 9,
    gt_extensions = [(5, VMap [(VInteger 1, VNull), (VInteger 0, VNull)])]\<rparr>"
  let ?h = "?g\<lparr>gt_extensions := [(5, VMap [(VInteger 0, VNull), (VInteger 1, VNull)])]\<rparr>"
  let ?b = "[0xa4, 0x00, 0x41, 0x01, 0x01, 0x02, 0x03, 0x09, 0x05, 0xa2, 0x00, 0xf6, 0x01, 0xf6]"
  have "ctap2_canonical_value_bytes (GrantToken_to_cbor ?g) = Inr ?b"
    "ctap2_canonical_value_bytes (GrantToken_to_cbor ?h) = Inr ?b" by code_simp+
  moreover have "ext_ok 4 (gt_extensions ?g)" "ext_ok 4 (gt_extensions ?h)" by code_simp+
  ultimately show ?thesis using grant_bytes_injective [of ?g ?h ?b] unfolding Let_def by simp
qed

text \<open>C40. The encoder does not keep extensions out of the reserved identifiers.  A token of any role \<open>r\<close> with
  an extension of identifier 1 that holds the integer \<open>r'\<close> has the same CBOR value, hence the same canonical
  bytes and the same signature, as the token of role \<open>r'\<close> without that extension.\<close>

theorem grant_extension_overrides_role:
  assumes "btree_ok ext" "map_of ext 1 = Some (VInteger (uint r'))"
  shows "GrantToken_to_cbor (g\<lparr>gt_role := r, gt_extensions := ext\<rparr>) =
    GrantToken_to_cbor (g\<lparr>gt_role := r', gt_extensions := btree_remove 1 ext\<rparr>)"
proof -
  let ?g = "g\<lparr>gt_role := r, gt_extensions := ext\<rparr>" and ?h = "g\<lparr>gt_role := r', gt_extensions := btree_remove 1 ext\<rparr>"
  have base: "map_of (GrantToken_base h) k = (if k = 1 then Some (VInteger (uint (gt_role h)))
      else map_of (GrantToken_base (h\<lparr>gt_role := 0\<rparr>)) k)" for h k
    by (cases "gt_expires_at h"; cases "gt_flags h") (simp_all add: base_defs)
  have others: "GrantToken_base (?g\<lparr>gt_role := 0\<rparr>) = GrantToken_base (?h\<lparr>gt_role := 0\<rparr>)" by (simp add: GrantToken_base_def)
  have "map_of (GrantToken_fields ?g) k = map_of (GrantToken_fields ?h) k" for k
  proof (cases "k = 1")
    case True
    then show ?thesis
      using assms btree_ok_remove [OF assms(1), of 1] base [of ?h k]
      by (simp add: GrantToken_fields_def map_of_btree_extend map_of_rev_btree map_add_def map_of_btree_remove)
  next
    case False
    then have "map_of (GrantToken_base ?g) k = map_of (GrantToken_base ?h) k"
      unfolding base [of ?g k] base [of ?h k] others by simp
    then show ?thesis
      using assms btree_ok_remove [OF assms(1), of 1] False
      by (simp add: GrantToken_fields_def map_of_btree_extend map_of_rev_btree map_add_def map_of_btree_remove
          split: option.split)
  qed
  then have "map_of (GrantToken_fields ?g) = map_of (GrantToken_fields ?h)" ..
  then have "GrantToken_fields ?g = GrantToken_fields ?h"
    by (intro btree.entries_unique) (simp_all add: GrantToken_fields_def btree_extend_ok)
  then show ?thesis by (simp add: GrantToken_to_cbor_def)
qed

theorem grant_extension_overrides_role_witness:
  "ctap2_canonical_value_bytes (GrantToken_to_cbor \<lparr>gt_user_id = [1], gt_role = 7, gt_flags = None, gt_expires_at = None,
      gt_extensions = [(1, VInteger 2), (9, VNull)]\<rparr>) = Inr [0xa3, 0x00, 0x41, 0x01, 0x01, 0x02, 0x09, 0xf6]"
proof -
  let ?g = "\<lparr>gt_user_id = [1], gt_role = 0, gt_flags = None, gt_expires_at = None, gt_extensions = []\<rparr>"
  let ?ext = "[(1, VInteger 2), (9, VNull)] :: (u64, Value) btree"
  have "btree_ok ?ext" "map_of ?ext 1 = Some (VInteger (uint (2 :: u64)))" by simp_all
  from grant_extension_overrides_role [OF this, where g = ?g and r = 7]
  have "GrantToken_to_cbor \<lparr>gt_user_id = [1], gt_role = 7, gt_flags = None, gt_expires_at = None, gt_extensions = ?ext\<rparr> =
      GrantToken_to_cbor \<lparr>gt_user_id = [1], gt_role = 2, gt_flags = None, gt_expires_at = None, gt_extensions = [(9, VNull)]\<rparr>"
    by (simp add: btree_remove_def)
  moreover have "ctap2_canonical_value_bytes (GrantToken_to_cbor \<lparr>gt_user_id = [1], gt_role = 2, gt_flags = None,
      gt_expires_at = None, gt_extensions = [(9, VNull)]\<rparr>) = Inr [0xa3, 0x00, 0x41, 0x01, 0x01, 0x02, 0x09, 0xf6]"
    by code_simp
  ultimately show ?thesis by simp
qed

section \<open>Envelopes\<close>

text \<open>
  \<open>from_ctap2_canonical_slice::<Envelope>\<close>.  Re-serializing the validated value (\<open>ser_value\<close>) and
  opening the result as a map (\<open>access\<close>) is \<open>ciborium\<close>'s; \<open>render\<close> is the text of its error.
\<close>

type_synonym map_reader = "bytes \<Rightarrow> string + (string + (int \<times> Value)) list"

definition Envelope_decode ::
    "cbor_reader \<Rightarrow> (Value \<Rightarrow> string + bytes) \<Rightarrow> map_reader \<Rightarrow> (de_error \<Rightarrow> string) \<Rightarrow> bytes \<Rightarrow> SpexError + Envelope"
where
  "Envelope_decode de ser_value access render bs =
    from_ctap2_canonical_slice de ser_value
      (\<lambda>buf. bind_res (access buf) (\<lambda>es. map_err render (visit_map es))) bs"

text \<open>
  The serializer of \<open>ciborium\<close> writes every value inside its limits, and its map access then
  yields the entries of a map with integer keys in order.
\<close>

definition map_access_conforms :: "(Value \<Rightarrow> string + bytes) \<Rightarrow> map_reader \<Rightarrow> bool" where
  "map_access_conforms ser_value access \<longleftrightarrow>
    (\<forall>m. btree_ok m \<and> canon_fields m = m \<and> is_ok (encode_value (map_to_cbor m)) \<and> plain 256 (map_to_cbor m) \<longrightarrow>
      (\<exists>buf. ser_value (map_to_cbor m) = Inr buf \<and> access buf = Inr (map (\<lambda>(k, v). Inr (uint k, v)) m)))"

lemma value_as_simps [simp]:
  "value_as_bytes f (VBytes b) = Inr b"
  "value_as_u64 f (VInteger (uint (w :: u64))) = Inr w"
  "value_as_u32 f (VInteger (uint (e :: u32))) = Inr e"
proof -
  show "value_as_bytes f (VBytes b) = Inr b" by (simp add: value_as_bytes_def)
  show "value_as_u64 f (VInteger (uint w)) = Inr w"
    using uint_bounded [of w] by (simp add: value_as_u64_def try_u64_def)
  have lt: "uint e < 2 ^ 32" using uint_bounded [of e] by simp
  then have "value_as_u64 f (VInteger (uint e)) = Inr (ucast e)"
    by (simp add: value_as_u64_def try_u64_def)
  moreover have "(ucast e :: u64) \<le> 0xffffffff"
    using lt by (simp add: word_le_def unsigned_ucast_eq take_bit_int_eq_self)
  ultimately show "value_as_u32 f (VInteger (uint e)) = Inr e"
    using lt by (simp add: value_as_u32_def word_uint_eq_iff unsigned_ucast_eq
        take_bit_int_eq_self take_bit_word_eq_self)
qed

lemma visit_entry_ext:
  assumes "6 \<le> k"
  shows "visit_entry p (uint k) v = Inr (p\<lparr>ep_extensions := btree_insert k v (ep_extensions p)\<rparr>)"
proof -
  have "6 \<le> uint k" using assms by (simp add: word_le_def)
  then show ?thesis by (simp add: visit_entry_def)
qed

lemma visit_entries_ext:
  assumes "\<forall>e \<in> set m. 6 \<le> fst e"
  shows "visit_entries p (map (\<lambda>(k, v). Inr (uint k, v)) m) =
    Inr (p\<lparr>ep_extensions := btree_extend (ep_extensions p) m\<rparr>)"
  using assms by (induction m arbitrary: p) (auto simp: visit_entry_ext btree_extend_def)

lemma visit_entries_append:
  "visit_entries p (a @ b) = bind_res (visit_entries p a) (\<lambda>q. visit_entries q b)"
  by (induction a arbitrary: p) (simp_all add: bind_res_assoc)

lemma btree_extend_Nil: "ext_ok n x \<Longrightarrow> btree_extend [] x = x"
  using btree_extend_append [of "[]" n x] by simp

lemma ext_ok_canon_fields [simp]: "ext_ok n (canon_fields m) = ext_ok n m"
  by (auto simp: ext_ok_def canon_fields_def btree_ok_def o_def case_prod_beta)

lemma canon_idem_fields: "canon_fields (canon_fields m) = canon_fields m"
  by (simp add: canon_fields_def case_prod_beta)

lemma canon_envelope_base [simp]: "canon_fields (Envelope_base v) = Envelope_base v"
  by (cases "env_signature v") (simp_all add: base_defs)

lemma visit_envelope_base:
  "visit_entries empty_parts (map (\<lambda>(k, v). Inr (uint k, v)) (Envelope_base e)) =
    Inr \<lparr>ep_thread_id = Some (env_thread_id e), ep_epoch = Some (env_epoch e), ep_seq = Some (env_seq e),
      ep_sender_user_id = Some (env_sender_user_id e), ep_ciphertext = Some (env_ciphertext e),
      ep_signature = env_signature e, ep_extensions = []\<rparr>"
  by (cases "env_signature e") (simp_all add: base_defs visit_entry_def empty_parts_def)

lemma visit_map_fields:
  assumes "ext_ok 6 x"
  shows "visit_map (map (\<lambda>(k, v). Inr (uint k, v)) (Envelope_base e @ x)) = Inr (e\<lparr>env_extensions := x\<rparr>)"
  using assms btree_extend_Nil [OF assms]
  by (cases e) (simp add: visit_map_def visit_entries_append visit_envelope_base visit_entries_ext ext_ok_def)

text \<open>The reference decoder, seen as a serializer and a map access, meets the hypothesis.\<close>

definition ref_de :: cbor_reader where
  "ref_de bs = (case cbor_decode bs of None \<Rightarrow> Inl ''malformed'' | Some (v, _) \<Rightarrow> Inr v)"

definition ref_ser :: "Value \<Rightarrow> string + bytes" where
  "ref_ser v = map_err (\<lambda>_. ''range'') (encode_value v)"

definition ref_access :: map_reader where
  "ref_access bs =
    (case cbor_decode bs of
       Some (VMap es, _) \<Rightarrow> Inr (map (\<lambda>(k, v). case k of VInteger i \<Rightarrow> Inr (i, v) | _ \<Rightarrow> Inl ''key'') es)
     | _ \<Rightarrow> Inl ''not a map'')"

lemma ref_de_conforms: "cbor_conforms ref_de"
  using reference_reader_conforms by (simp add: ref_de_def [abs_def])

lemma ref_access_conforms: "map_access_conforms ref_ser ref_access"
  unfolding map_access_conforms_def
proof (intro allI impI)
  fix m :: "(u64, Value) btree"
  assume a: "btree_ok m \<and> canon_fields m = m \<and> is_ok (encode_value (map_to_cbor m)) \<and> plain 256 (map_to_cbor m)"
  then obtain b where b: "encode_value (map_to_cbor m) = Inr b" by (auto simp: is_ok_iff)
  have "cbor_decode b = Some (map_to_cbor m, [])"
    using cbor_decode_encode [OF b, of "[]"] a by (simp add: canon_map_to_cbor)
  then have "ref_access b = Inr (map (\<lambda>(k, v). Inr (uint k, v)) m)"
    by (simp add: ref_access_def map_to_cbor_def key_to_cbor_def case_prod_beta)
  with b show "\<exists>buf. ref_ser (map_to_cbor m) = Inr buf \<and> ref_access buf = Inr (map (\<lambda>(k, v). Inr (uint k, v)) m)"
    by (simp add: ref_ser_def)
qed

lemma decode_encoded_envelope:
  assumes "cbor_conforms de" "map_access_conforms ser_value access"
    and "ext_ok 6 (env_extensions e)" "plain 256 (Envelope_to_cbor e)"
    and "ctap2_canonical_value_bytes (Envelope_to_cbor e) = Inr b"
  shows "Envelope_decode de ser_value access render b =
    Inr (e\<lparr>env_extensions := canon_fields (env_extensions e)\<rparr>)"
proof -
  let ?m = "Envelope_base e @ canon_fields (env_extensions e)"
  have m: "canon_fields (Envelope_fields e) = ?m"
    by (simp add: envelope.fields_append [OF assms(3)])
  have c: "canon (Envelope_to_cbor e) = map_to_cbor ?m"
    by (simp add: envelope.canon_to_cbor m)
  have "ctap2_canonical_value_from_slice de b = Inr (map_to_cbor ?m)"
    using from_slice_encode [OF assms(1) _ assms(4)] assms(5)
    by (simp add: ctap2_canonical_value_bytes_def c)
  moreover have "btree_ok ?m"
    using envelope.fields_ok [of e] by (simp add: m [symmetric])
  moreover have "canon_fields ?m = ?m" by (simp add: canon_idem_fields)
  moreover have "encode_value (map_to_cbor ?m) = Inr b" "plain 256 (map_to_cbor ?m)"
    using encode_value_canon [of "Envelope_to_cbor e" b] assms(4,5)
    by (simp_all add: ctap2_canonical_value_bytes_def flip: c)
  ultimately obtain buf where "ser_value (map_to_cbor ?m) = Inr buf"
      "access buf = Inr (map (\<lambda>(k, v). Inr (uint k, v)) ?m)"
    using assms(2) unfolding map_access_conforms_def by (metis is_ok_simps(1))
  then show ?thesis
    using \<open>ctap2_canonical_value_from_slice de b = _\<close> assms(3)
    by (simp add: Envelope_decode_def from_ctap2_canonical_slice_def visit_map_fields del: map_append)
qed

text \<open>C26. An envelope survives the wire when its extensions stay out of the reserved identifiers 0 to 5 and it
  is plain (UTF-8 texts, nesting within 256 levels, no bignum tags): its canonical bytes, read back by the
  canonical reader and the map visitor, give the envelope again, with its extension values in canonical form.\<close>

theorem envelope_round_trip:
  assumes "cbor_conforms de" "map_access_conforms ser_value access"
    and "ext_ok 6 (env_extensions e)" "plain 256 (Envelope_to_cbor e)"
    and "ctap2_canonical_value_bytes (Envelope_to_cbor e) = Inr b"
  shows "Envelope_decode de ser_value access render b =
    Inr (e\<lparr>env_extensions := canon_fields (env_extensions e)\<rparr>)"
  by (rule decode_encoded_envelope [OF assms])

theorem envelope_round_trip_witness:
  "Envelope_decode ref_de ref_ser ref_access (\<lambda>_. '''')
      [0xa6, 0x00, 0x41, 0x01, 0x01, 0x02, 0x02, 0x03, 0x03, 0x41, 0x04, 0x04, 0x41, 0x05, 0x18, 0x20, 0xf6] =
    Inr \<lparr>env_thread_id = [1], env_epoch = 2, env_seq = 3, env_sender_user_id = [4], env_ciphertext = [5],
      env_signature = None, env_extensions = [(32, VNull)]\<rparr>"
proof -
  let ?e = "\<lparr>env_thread_id = [1], env_epoch = 2, env_seq = 3, env_sender_user_id = [4], env_ciphertext = [5],
      env_signature = None, env_extensions = [(32, VNull)]\<rparr>"
  have "ctap2_canonical_value_bytes (Envelope_to_cbor ?e) =
      Inr [0xa6, 0x00, 0x41, 0x01, 0x01, 0x02, 0x02, 0x03, 0x03, 0x41, 0x04, 0x04, 0x41, 0x05, 0x18, 0x20, 0xf6]"
    by code_simp
  moreover have "ext_ok 6 (env_extensions ?e)" by code_simp
  moreover have "plain 256 (Envelope_to_cbor ?e)" by code_simp
  ultimately show ?thesis
    using envelope_round_trip [OF ref_de_conforms ref_access_conforms, of ?e] by simp
qed

end
