(* ===== verification/Core_Crypto.thy ===== *)
theory Core_Crypto
  imports Spex_Types
begin

text \<open>
  The rest of \<open>spex-core\<close>: hashing and signing of canonical CBOR (\<open>hash.rs\<close>, \<open>sign.rs\<close>), the
  proof-of-work puzzle (\<open>pow.rs\<close>), the shared grant and puzzle checks (\<open>validation.rs\<close>), the AEAD
  associated data (\<open>aead_ad.rs\<close>) and the group context extensions (\<open>mls_ext.rs\<close>).

  The primitives come from third-party crates and are the fields of a record \<open>crypto\<close> that the
  definitions take: SHA-256, Ed25519 (a signing key is its 32 byte seed), Argon2id, and the ChaCha20-Poly1305 AEAD, whose
  arguments are key, nonce, associated data and text.  \<open>HashId::Blake3\<close> exists only with the feature \<open>blake3_hash\<close>, which is
  off by default and which no crate of the repository enables; it is left out.
\<close>

record PowParams =
  pow_memory_kib :: u32
  pow_iterations :: u32
  pow_parallelism :: u32
  pow_output_len :: nat

record crypto =
  x_sha256 :: "bytes \<Rightarrow> bytes"
  x_verifying_key :: "bytes \<Rightarrow> bytes"
  x_sign :: "bytes \<Rightarrow> bytes \<Rightarrow> bytes"
  x_verify_strict :: "bytes \<Rightarrow> bytes \<Rightarrow> bytes \<Rightarrow> bool"
  x_argon2_params :: "PowParams \<Rightarrow> string + unit"
  x_argon2 :: "PowParams \<Rightarrow> bytes \<Rightarrow> bytes \<Rightarrow> string + bytes"
  x_seal :: "bytes \<Rightarrow> bytes \<Rightarrow> bytes \<Rightarrow> bytes \<Rightarrow> bytes option"
  x_open :: "bytes \<Rightarrow> bytes \<Rightarrow> bytes \<Rightarrow> bytes \<Rightarrow> bytes option"

section \<open>Hashing and signing\<close>

datatype HashId = Sha256

definition hash_bytes :: "crypto \<Rightarrow> HashId \<Rightarrow> bytes \<Rightarrow> bytes" where
  "hash_bytes x h d = (case h of Sha256 \<Rightarrow> x_sha256 x d)"

definition hash_ctap2_cbor ::
    "crypto \<Rightarrow> ('t \<Rightarrow> string + bytes) \<Rightarrow> cbor_reader \<Rightarrow> HashId \<Rightarrow> 't \<Rightarrow> SpexError + bytes" where
  "hash_ctap2_cbor x ser de h t = map_res (hash_bytes x h) (to_ctap2_canonical_bytes ser de t)"

text \<open>The argument is \<open>value.to_cbor_value()\<close> of an implementor of \<open>Ctap2Cbor\<close>.\<close>

definition hash_ctap2_cbor_value :: "crypto \<Rightarrow> HashId \<Rightarrow> Value \<Rightarrow> SpexError + bytes" where
  "hash_ctap2_cbor_value x h v = map_res (hash_bytes x h) (ctap2_canonical_value_bytes v)"

definition ed25519_signing_key_from_seed :: "bytes \<Rightarrow> SpexError + bytes" where
  "ed25519_signing_key_from_seed seed =
    (if length seed \<noteq> 32 then Inl (InvalidLength ''ed25519 seed must be 32 bytes'') else Inr seed)"

definition ed25519_verify_key :: "crypto \<Rightarrow> bytes \<Rightarrow> bytes" where
  "ed25519_verify_key x signing = x_verifying_key x signing"

definition ed25519_sign_hash :: "crypto \<Rightarrow> bytes \<Rightarrow> bytes \<Rightarrow> bytes" where
  "ed25519_sign_hash x signing msg_hash = x_sign x signing msg_hash"

definition ed25519_verify_hash :: "crypto \<Rightarrow> bytes \<Rightarrow> bytes \<Rightarrow> bytes \<Rightarrow> SpexError + unit" where
  "ed25519_verify_hash x vk msg_hash sig =
    (if x_verify_strict x vk msg_hash sig then Inr () else Inl SigVerifyFailed)"

definition ed25519_sign_ctap2_cbor_value :: "crypto \<Rightarrow> bytes \<Rightarrow> HashId \<Rightarrow> Value \<Rightarrow> SpexError + bytes" where
  "ed25519_sign_ctap2_cbor_value x signing h v =
    bind_res (ctap2_canonical_value_bytes v) (\<lambda>cbor.
    Inr (ed25519_sign_hash x signing (hash_bytes x h cbor)))"

definition ed25519_verify_ctap2_cbor_value ::
    "crypto \<Rightarrow> bytes \<Rightarrow> HashId \<Rightarrow> Value \<Rightarrow> bytes \<Rightarrow> SpexError + unit" where
  "ed25519_verify_ctap2_cbor_value x vk h v sig =
    bind_res (ctap2_canonical_value_bytes v) (\<lambda>cbor.
    ed25519_verify_hash x vk (hash_bytes x h cbor) sig)"

definition ed25519_sign_ctap2_cbor ::
    "crypto \<Rightarrow> ('t \<Rightarrow> string + bytes) \<Rightarrow> cbor_reader \<Rightarrow> bytes \<Rightarrow> HashId \<Rightarrow> 't \<Rightarrow> SpexError + bytes" where
  "ed25519_sign_ctap2_cbor x ser de signing h t =
    bind_res (to_ctap2_canonical_bytes ser de t) (\<lambda>cbor.
    Inr (ed25519_sign_hash x signing (hash_bytes x h cbor)))"

definition ed25519_verify_ctap2_cbor ::
    "crypto \<Rightarrow> ('t \<Rightarrow> string + bytes) \<Rightarrow> cbor_reader \<Rightarrow> bytes \<Rightarrow> HashId \<Rightarrow> 't \<Rightarrow> bytes \<Rightarrow> SpexError + unit" where
  "ed25519_verify_ctap2_cbor x ser de vk h t sig =
    bind_res (to_ctap2_canonical_bytes ser de t) (\<lambda>cbor.
    ed25519_verify_hash x vk (hash_bytes x h cbor) sig)"

section \<open>Proof of work\<close>

definition SALT_CONTEXT :: bytes where
  "SALT_CONTEXT = str_bytes ''spex.pow.recipient.salt.v1''"

definition pow_minimum :: PowParams where
  "pow_minimum = \<lparr>pow_memory_kib = 64 * 1024, pow_iterations = 3, pow_parallelism = 1, pow_output_len = 32\<rparr>"

definition meets_minimum :: "PowParams \<Rightarrow> bool" where
  "meets_minimum p \<longleftrightarrow>
    pow_memory_kib p \<ge> pow_memory_kib pow_minimum \<and> pow_iterations p \<ge> pow_iterations pow_minimum"

definition to_argon2 :: "crypto \<Rightarrow> PowParams \<Rightarrow> SpexError + (bytes \<Rightarrow> bytes \<Rightarrow> string + bytes)" where
  "to_argon2 x p = bind_res (map_err Argon2 (x_argon2_params x p)) (\<lambda>_. Inr (x_argon2 x p))"

definition derive_recipient_salt_with_context :: "crypto \<Rightarrow> bytes \<Rightarrow> bytes \<Rightarrow> bytes" where
  "derive_recipient_salt_with_context x recipient_key ctxt = x_sha256 x (ctxt @ recipient_key)"

definition derive_recipient_salt :: "crypto \<Rightarrow> bytes \<Rightarrow> bytes" where
  "derive_recipient_salt x recipient_key = derive_recipient_salt_with_context x recipient_key SALT_CONTEXT"

definition pow_nonce_len :: nat where
  "pow_nonce_len = 32"

text \<open>The random source hands out the bytes that fill the nonce.\<close>

definition generate_pow_nonce :: "(nat \<Rightarrow> bytes) \<Rightarrow> nat \<Rightarrow> bytes" where
  "generate_pow_nonce rng nonce_len = rng nonce_len"

definition validate_pow_nonce :: "bytes \<Rightarrow> nat \<Rightarrow> SpexError + unit" where
  "validate_pow_nonce nonce nonce_len =
    (if length nonce \<noteq> nonce_len then Inl (InvalidLength ''pow nonce'') else Inr ())"

definition build_puzzle_input :: "bytes \<Rightarrow> bytes \<Rightarrow> bytes" where
  "build_puzzle_input nonce payload = nonce @ payload"

definition generate_puzzle_output :: "crypto \<Rightarrow> bytes \<Rightarrow> bytes \<Rightarrow> PowParams \<Rightarrow> SpexError + bytes" where
  "generate_puzzle_output x recipient_key puzzle_input p =
    (let salt = derive_recipient_salt x recipient_key
     in bind_res (to_argon2 x p) (\<lambda>argon2. map_err Argon2 (argon2 puzzle_input salt)))"

definition verify_puzzle_output ::
    "crypto \<Rightarrow> bytes \<Rightarrow> bytes \<Rightarrow> bytes \<Rightarrow> PowParams \<Rightarrow> SpexError + bool" where
  "verify_puzzle_output x recipient_key puzzle_input expected p =
    (if \<not> meets_minimum p then Inl (InvalidInput ''pow params below minimum requirements'')
     else if length expected \<noteq> pow_output_len p then Inl (InvalidLength ''argon2 output'')
     else map_res (\<lambda>derived. derived = expected) (generate_puzzle_output x recipient_key puzzle_input p))"

section \<open>Grant and puzzle validation\<close>

datatype GrantPowValidationError =
    GrantExpired
  | GrantInvalid
  | PowTooWeak
  | PowInvalid
  | Core SpexError

fun GrantPowValidationError_to_string :: "GrantPowValidationError \<Rightarrow> string" where
  "GrantPowValidationError_to_string GrantExpired = ''grant expired''"
| "GrantPowValidationError_to_string GrantInvalid = ''grant signature invalid''"
| "GrantPowValidationError_to_string PowTooWeak = ''pow parameters below minimum''"
| "GrantPowValidationError_to_string PowInvalid = ''pow puzzle invalid''"
| "GrantPowValidationError_to_string (Core e) = ''core validation error: '' @ SpexError_to_string e"

definition validate_grant_token ::
    "crypto \<Rightarrow> u64 \<Rightarrow> GrantToken \<Rightarrow> bytes \<Rightarrow> bytes \<Rightarrow> GrantPowValidationError + unit" where
  "validate_grant_token x now grant vk sig =
    bind_res (case gt_expires_at grant of
        Some expires_at \<Rightarrow> if expires_at \<le> now then Inl GrantExpired else Inr ()
      | None \<Rightarrow> Inr ()) (\<lambda>_.
    bind_res (map_err Core (hash_ctap2_cbor_value x Sha256 (GrantToken_to_cbor grant))) (\<lambda>hash.
    map_err (\<lambda>_. GrantInvalid) (ed25519_verify_hash x vk hash sig)))"

definition validate_pow_puzzle ::
    "crypto \<Rightarrow> bytes \<Rightarrow> bytes \<Rightarrow> bytes \<Rightarrow> PowParams \<Rightarrow> PowParams \<Rightarrow> GrantPowValidationError + unit" where
  "validate_pow_puzzle x recipient_key puzzle_input puzzle_output p minimum =
    (if pow_memory_kib p < pow_memory_kib minimum \<or> pow_iterations p < pow_iterations minimum \<or>
        pow_parallelism p < pow_parallelism minimum \<or> pow_output_len p < pow_output_len minimum
     then Inl PowTooWeak
     else bind_res (map_err Core (verify_puzzle_output x recipient_key puzzle_input puzzle_output p)) (\<lambda>valid.
       if \<not> valid then Inl PowInvalid else Inr ()))"

section \<open>Associated data and group context extensions\<close>

definition build_ad :: "bytes \<Rightarrow> u32 \<Rightarrow> bytes \<Rightarrow> ProtoSuite \<Rightarrow> u64 \<Rightarrow> bytes \<Rightarrow> bytes" where
  "build_ad thread_id epoch cfg_hash suite sq sender_userid =
    thread_id @ u32be epoch @ cfg_hash @ u16be (ps_major suite) @ u16be (ps_minor suite) @
    u16be (ps_ciphersuite_id suite) @ u64be sq @ sender_userid"

definition EXT_SPEX_PROTO_SUITE :: u16 where "EXT_SPEX_PROTO_SUITE = 0xF0A0"
definition EXT_SPEX_CFG_HASH :: u16 where "EXT_SPEX_CFG_HASH = 0xF0A1"

definition ext_proto_suite_bytes :: "u16 \<Rightarrow> u16 \<Rightarrow> u16 \<Rightarrow> u8 \<Rightarrow> bytes" where
  "ext_proto_suite_bytes major minor ciphersuite_id flags =
    (let data = u16be major @ u16be minor @ u16be ciphersuite_id @ [flags]
     in u16be EXT_SPEX_PROTO_SUITE @ u16be (word_of_nat (length data)) @ data)"

text \<open>\<open>None\<close> is the panic of \<open>assert!(cfg_hash.len() <= 255)\<close>.\<close>

definition ext_cfg_hash_bytes :: "u16 \<Rightarrow> bytes \<Rightarrow> bytes option" where
  "ext_cfg_hash_bytes hash_id cfg_hash =
    (if length cfg_hash \<le> 255
     then let data = u16be hash_id @ [word_of_nat (length cfg_hash)] @ cfg_hash
          in Some (u16be EXT_SPEX_CFG_HASH @ u16be (word_of_nat (length data)) @ data)
     else None)"

section \<open>Hypotheses on the primitives\<close>

definition sha256_len :: "crypto \<Rightarrow> bool" where
  "sha256_len x \<longleftrightarrow> (\<forall>d. length (x_sha256 x d) = 32)"

definition ed25519_correct :: "crypto \<Rightarrow> bool" where
  "ed25519_correct x \<longleftrightarrow> (\<forall>seed m. length seed = 32 \<longrightarrow> x_verify_strict x (x_verifying_key x seed) m (x_sign x seed m))"

definition argon2_len :: "crypto \<Rightarrow> bool" where
  "argon2_len x \<longleftrightarrow> (\<forall>p i s out. x_argon2 x p i s = Inr out \<longrightarrow> length out = pow_output_len p)"

definition aead_correct :: "crypto \<Rightarrow> bool" where
  "aead_correct x \<longleftrightarrow> (\<forall>k n ad p c. x_seal x k n ad p = Some c \<longrightarrow> x_open x k n ad c = Some p)"

section \<open>Text codecs\<close>

text \<open>Hex, base64 and the parsing of Ed25519 verifying keys, from third-party crates.\<close>

record codec =
  cx_hex :: "bytes \<Rightarrow> string"
  cx_unhex :: "string \<Rightarrow> string + bytes"
  cx_b64 :: "bytes \<Rightarrow> string"
  cx_unb64 :: "string \<Rightarrow> string + bytes"
  cx_verifying_key :: "bytes \<Rightarrow> string + unit"

definition codec_correct :: "codec \<Rightarrow> bool" where
  "codec_correct k \<longleftrightarrow> (\<forall>b. cx_unhex k (cx_hex k b) = Inr b) \<and> (\<forall>b. cx_unb64 k (cx_b64 k b) = Inr b)"

text \<open>Verifying keys are 32 bytes and signatures of a digest 64; a verifying key is accepted by the parser.\<close>

definition ed25519_sizes :: "crypto \<Rightarrow> codec \<Rightarrow> bool" where
  "ed25519_sizes x k \<longleftrightarrow> (\<forall>seed m. length seed = 32 \<longrightarrow> length (x_verifying_key x seed) = 32 \<and>
    length (x_sign x seed (x_sha256 x m)) = 64 \<and> cx_verifying_key k (x_verifying_key x seed) = Inr ())"

section \<open>Properties\<close>

lemma validate_grant_token_eq_Inr:
  "validate_grant_token x now g vk sig = Inr () \<longleftrightarrow>
    (\<forall>e. gt_expires_at g = Some e \<longrightarrow> now < e) \<and>
    (\<exists>b. ctap2_canonical_value_bytes (GrantToken_to_cbor g) = Inr b \<and> x_verify_strict x vk (x_sha256 x b) sig)"
  by (auto simp: validate_grant_token_def hash_ctap2_cbor_value_def hash_bytes_def ed25519_verify_hash_def
      split: option.splits if_splits)

text \<open>C28. A grant signed by the issuer is accepted up to its expiry time and refused as expired from
  then on; a grant without expiry is always accepted.\<close>

theorem issued_grant_accepted_until_expiry:
  assumes "ed25519_correct x" "length seed = 32"
    and "ctap2_canonical_value_bytes (GrantToken_to_cbor g) = Inr b"
    and "ed25519_sign_ctap2_cbor_value x seed Sha256 (GrantToken_to_cbor g) = Inr sig"
  shows "validate_grant_token x now g (ed25519_verify_key x seed) sig =
    (case gt_expires_at g of
       Some e \<Rightarrow> if e \<le> now then Inl GrantExpired else Inr ()
     | None \<Rightarrow> Inr ())"
proof -
  have "sig = x_sign x seed (x_sha256 x b)"
    using assms(3,4) by (simp add: ed25519_sign_ctap2_cbor_value_def ed25519_sign_hash_def hash_bytes_def)
  moreover have "x_verify_strict x (x_verifying_key x seed) (x_sha256 x b) (x_sign x seed (x_sha256 x b))"
    using assms(1,2) by (simp add: ed25519_correct_def)
  ultimately show ?thesis
    using assms(3)
    by (simp add: validate_grant_token_def hash_ctap2_cbor_value_def ed25519_verify_hash_def
        ed25519_verify_key_def hash_bytes_def split: option.split)
qed

text \<open>A transparent instance of the primitives, for evaluation: no secrecy, but the laws hold.\<close>

definition toy_crypto :: crypto where
  "toy_crypto = \<lparr>x_sha256 = (\<lambda>d. take 32 (d @ replicate 32 0)), x_verifying_key = (\<lambda>seed. seed),
    x_sign = (\<lambda>seed m. seed @ m), x_verify_strict = (\<lambda>vk m sig. sig = vk @ m),
    x_argon2_params = (\<lambda>p. if 0 < pow_output_len p then Inr () else Inl ''output is too short''),
    x_argon2 = (\<lambda>p i s. Inr (take (pow_output_len p) (i @ s @ replicate (pow_output_len p) 0))),
    x_seal = (\<lambda>k n ad p. Some (k @ n @ ad @ p)),
    x_open = (\<lambda>k n ad c. if take (length (k @ n @ ad)) c = k @ n @ ad then Some (drop (length (k @ n @ ad)) c) else None)\<rparr>"

lemma toy_crypto_laws [simp]:
  "sha256_len toy_crypto" "ed25519_correct toy_crypto" "argon2_len toy_crypto" "aead_correct toy_crypto"
  by (auto simp: toy_crypto_def sha256_len_def ed25519_correct_def argon2_len_def aead_correct_def)

definition toy_codec :: codec where
  "toy_codec = \<lparr>cx_hex = bytes_str, cx_unhex = (\<lambda>s. Inr (str_bytes s)), cx_b64 = bytes_str,
    cx_unb64 = (\<lambda>s. Inr (str_bytes s)), cx_verifying_key = (\<lambda>_. Inr ())\<rparr>"

lemma toy_codec_correct [simp]: "codec_correct toy_codec"
  by (simp add: codec_correct_def toy_codec_def)

lemma toy_sizes [simp]: "ed25519_sizes toy_crypto toy_codec"
  by (auto simp: ed25519_sizes_def toy_crypto_def toy_codec_def min_def)

theorem issued_grant_accepted_until_expiry_witness:
  "validate_grant_token toy_crypto 4
     \<lparr>gt_user_id = [1], gt_role = 2, gt_flags = None, gt_expires_at = Some 9, gt_extensions = []\<rparr>
     (ed25519_verify_key toy_crypto (replicate 32 7))
     (replicate 32 7 @ take 32 ([0xa3, 0x00, 0x41, 0x01, 0x01, 0x02, 0x03, 0x09] @ replicate 32 0)) = Inr ()"
proof -
  let ?g = "\<lparr>gt_user_id = [1], gt_role = 2, gt_flags = None, gt_expires_at = Some 9, gt_extensions = []\<rparr>"
  have b: "ctap2_canonical_value_bytes (GrantToken_to_cbor ?g) =
      Inr [0xa3, 0x00, 0x41, 0x01, 0x01, 0x02, 0x03, 0x09]"
    by code_simp
  then have "ed25519_sign_ctap2_cbor_value toy_crypto (replicate 32 7) Sha256 (GrantToken_to_cbor ?g) =
      Inr (replicate 32 7 @ take 32 ([0xa3, 0x00, 0x41, 0x01, 0x01, 0x02, 0x03, 0x09] @ replicate 32 0))"
    by (simp add: ed25519_sign_ctap2_cbor_value_def ed25519_sign_hash_def hash_bytes_def toy_crypto_def)
  from issued_grant_accepted_until_expiry [OF toy_crypto_laws(2) _ b this, of 4] show ?thesis by simp
qed

definition pow_at_least :: "PowParams \<Rightarrow> PowParams \<Rightarrow> bool" where
  "pow_at_least p m \<longleftrightarrow> pow_memory_kib m \<le> pow_memory_kib p \<and> pow_iterations m \<le> pow_iterations p \<and>
    pow_parallelism m \<le> pow_parallelism p \<and> pow_output_len m \<le> pow_output_len p"

lemma pow_accepted:
  assumes "argon2_len x"
  shows "validate_pow_puzzle x recipient_key puzzle_input puzzle_output p minimum = Inr () \<longleftrightarrow>
    pow_at_least p minimum \<and> meets_minimum p \<and>
    generate_puzzle_output x recipient_key puzzle_input p = Inr puzzle_output"
proof -
  have "length puzzle_output = pow_output_len p"
    if "generate_puzzle_output x recipient_key puzzle_input p = Inr puzzle_output"
    using that assms by (auto simp: generate_puzzle_output_def to_argon2_def argon2_len_def Let_def)
  then show ?thesis
    by (auto simp: validate_pow_puzzle_def verify_puzzle_output_def pow_at_least_def not_less split: if_splits)
qed

text \<open>C29. A puzzle solution is accepted exactly when the declared memory and iterations reach the caller's minimum
  and the built-in floor of 64 MiB and 3 iterations, the declared parallelism and output length reach the
  caller's minimum, Argon2 admits the parameters, and the solution is the Argon2id output for this input with the
  salt that hashes the recipient's key behind the salt label.\<close>

theorem pow_acceptance:
  assumes "argon2_len x"
  shows "validate_pow_puzzle x recipient_key puzzle_input puzzle_output p minimum = Inr () \<longleftrightarrow>
    max (pow_memory_kib minimum) (64 * 1024) \<le> pow_memory_kib p \<and> max (pow_iterations minimum) 3 \<le> pow_iterations p \<and>
    pow_parallelism minimum \<le> pow_parallelism p \<and> pow_output_len minimum \<le> pow_output_len p \<and>
    x_argon2_params x p = Inr () \<and>
    x_argon2 x p puzzle_input (x_sha256 x (str_bytes ''spex.pow.recipient.salt.v1'' @ recipient_key)) = Inr puzzle_output"
proof -
  have "generate_puzzle_output x recipient_key puzzle_input p = Inr puzzle_output \<longleftrightarrow> x_argon2_params x p = Inr () \<and>
      x_argon2 x p puzzle_input (x_sha256 x (str_bytes ''spex.pow.recipient.salt.v1'' @ recipient_key)) = Inr puzzle_output"
    by (cases "x_argon2_params x p"; cases "x_argon2 x p puzzle_input (derive_recipient_salt x recipient_key)")
      (simp_all add: generate_puzzle_output_def to_argon2_def derive_recipient_salt_def
        derive_recipient_salt_with_context_def SALT_CONTEXT_def)
  then show ?thesis
    unfolding pow_accepted [OF assms] by (auto simp: pow_at_least_def meets_minimum_def pow_minimum_def)
qed

theorem pow_acceptance_witness:
  "validate_pow_puzzle toy_crypto [] (replicate 32 5) (replicate 32 5) pow_minimum pow_minimum = Inr ()"
  using pow_acceptance [OF toy_crypto_laws(3), of "[]" "replicate 32 5" "replicate 32 5" pow_minimum pow_minimum]
  by (simp add: pow_minimum_def toy_crypto_def)

text \<open>C30. The associated data of a message is 102 bytes and determines every field that is
  authenticated: thread, epoch, configuration hash, protocol suite, sequence number and sender.\<close>

theorem build_ad_injective:
  assumes "length t = 32" "length t' = 32" "length c = 32" "length c' = 32"
    and "length s = 20" "length s' = 20"
  shows "length (build_ad t e c ps n s) = 102 \<and>
    (build_ad t e c ps n s = build_ad t' e' c' (ps' :: ProtoSuite) n' s' \<longleftrightarrow>
      t = t' \<and> e = e' \<and> c = c' \<and> ps = ps' \<and> n = n' \<and> s = s')"
  using assms by (cases ps; cases ps') (auto simp: build_ad_def)

theorem build_ad_injective_witness:
  "length (build_ad (replicate 32 1) 2 (replicate 32 3) \<lparr>ps_major = 1, ps_minor = 0, ps_ciphersuite_id = 1\<rparr>
      7 (replicate 20 4)) = 102"
  using build_ad_injective [of "replicate 32 1" "replicate 32 1" "replicate 32 3" "replicate 32 3"
      "replicate 20 4" "replicate 20 4" 2 "\<lparr>ps_major = 1, ps_minor = 0, ps_ciphersuite_id = 1\<rparr>" 7] by simp

end
