(* ===== verification/Checkpoint_Log.thy ===== *)
theory Checkpoint_Log
  imports Core_Crypto "HOL-Library.Sublist"
begin

text \<open>
  The append-only checkpoint log, \<open>spex-core/src/log.rs\<close>: its entries and their CBOR form, the
  incremental Merkle state (a frontier of perfect subtrees, one slot per bit of the leaf count), and
  the log operations.

  The specification is a tree: \<open>ref_peaks\<close> cuts the list of leaves into the largest perfect trees,
  \<open>bag\<close> joins them, and \<open>hash_tree\<close> hashes the result.  The refinement theorem says the
  incremental state computes exactly that, and the binding theorem that the root determines the log
  as long as no two of the buffers hashed on the way collide.
\<close>

section \<open>Entries\<close>

record KeyCheckpoint =
  kc_user_id :: bytes
  kc_verifying_key :: bytes
  kc_device_id :: bytes
  kc_issued_at :: u64

record RecoveryKey =
  rk_user_id :: bytes
  rk_recovery_key :: bytes
  rk_issued_at :: u64

record RevocationDeclaration =
  rd_user_id :: bytes
  rd_revoked_key_hash :: bytes
  rd_revoked_at :: u64
  rd_recovery_key_hash :: "bytes option"
  rd_reason :: "string option"

datatype CheckpointEntry =
    Key KeyCheckpoint
  | Recovery RecoveryKey
  | Revocation RevocationDeclaration

definition KeyCheckpoint_fields :: "KeyCheckpoint \<Rightarrow> (u64, Value) btree" where
  "KeyCheckpoint_fields k =
    btree_insert 3 (VInteger (uint (kc_issued_at k)))
    (btree_insert 2 (VBytes (kc_device_id k))
    (btree_insert 1 (VBytes (kc_verifying_key k))
    (btree_insert 0 (VBytes (kc_user_id k)) [])))"

definition KeyCheckpoint_to_cbor :: "KeyCheckpoint \<Rightarrow> Value" where
  "KeyCheckpoint_to_cbor k = map_to_cbor (KeyCheckpoint_fields k)"

definition RecoveryKey_fields :: "RecoveryKey \<Rightarrow> (u64, Value) btree" where
  "RecoveryKey_fields k =
    btree_insert 2 (VInteger (uint (rk_issued_at k)))
    (btree_insert 1 (VBytes (rk_recovery_key k))
    (btree_insert 0 (VBytes (rk_user_id k)) []))"

definition RecoveryKey_to_cbor :: "RecoveryKey \<Rightarrow> Value" where
  "RecoveryKey_to_cbor k = map_to_cbor (RecoveryKey_fields k)"

definition RevocationDeclaration_fields :: "RevocationDeclaration \<Rightarrow> (u64, Value) btree" where
  "RevocationDeclaration_fields d =
    insert_opt 4 (map_option VText (rd_reason d))
    (insert_opt 3 (map_option VBytes (rd_recovery_key_hash d))
    (btree_insert 2 (VInteger (uint (rd_revoked_at d)))
    (btree_insert 1 (VBytes (rd_revoked_key_hash d))
    (btree_insert 0 (VBytes (rd_user_id d)) []))))"

definition RevocationDeclaration_to_cbor :: "RevocationDeclaration \<Rightarrow> Value" where
  "RevocationDeclaration_to_cbor d = map_to_cbor (RevocationDeclaration_fields d)"

definition CheckpointEntry_fields :: "CheckpointEntry \<Rightarrow> (u64, Value) btree" where
  "CheckpointEntry_fields e =
    (case e of
       Key k \<Rightarrow> btree_insert 1 (KeyCheckpoint_to_cbor k) (btree_insert 0 (VInteger 0) [])
     | Recovery k \<Rightarrow> btree_insert 1 (RecoveryKey_to_cbor k) (btree_insert 0 (VInteger 1) [])
     | Revocation d \<Rightarrow> btree_insert 1 (RevocationDeclaration_to_cbor d) (btree_insert 0 (VInteger 2) []))"

definition CheckpointEntry_to_cbor :: "CheckpointEntry \<Rightarrow> Value" where
  "CheckpointEntry_to_cbor e = map_to_cbor (CheckpointEntry_fields e)"

section \<open>The Merkle state\<close>

record MerkleState =
  ms_frontier :: "bytes option list"
  ms_leaf_count :: nat

definition MerkleState_new :: MerkleState where
  "MerkleState_new = \<lparr>ms_frontier = [], ms_leaf_count = 0\<rparr>"

definition hash_node :: "crypto \<Rightarrow> bytes \<Rightarrow> bytes \<Rightarrow> bytes" where
  "hash_node x left right = hash_bytes x Sha256 (0x01 # left @ right)"

text \<open>The loop of \<open>append_leaf\<close>: \<open>while index & 1 == 1\<close>, taking the slot at \<open>level\<close> when it is filled.\<close>

function append_loop :: "crypto \<Rightarrow> nat \<Rightarrow> nat \<Rightarrow> bytes \<Rightarrow> bytes option list \<Rightarrow> nat \<times> bytes \<times> bytes option list" where
  "append_loop x index level carry fr =
    (if odd index then
       (if level < length fr then
          (case fr ! level of
             Some left \<Rightarrow> append_loop x (index div 2) (level + 1) (hash_node x left carry) (fr[level := None])
           | None \<Rightarrow> append_loop x (index div 2) (level + 1) carry fr)
        else append_loop x (index div 2) (level + 1) carry fr)
     else (level, carry, fr))"
  by pat_completeness auto

termination
  by (relation "measure (\<lambda>(_, index, _). index)") (auto elim: oddE)

declare append_loop.simps [simp del]

definition resize_none :: "nat \<Rightarrow> bytes option list \<Rightarrow> bytes option list" where
  "resize_none n fr = (if length fr < n then fr @ replicate (n - length fr) None else fr)"

definition merkle_state_root :: "crypto \<Rightarrow> MerkleState \<Rightarrow> bytes" where
  "merkle_state_root x st =
    (case foldl (\<lambda>root hash. Some (case root of None \<Rightarrow> hash | Some accum \<Rightarrow> hash_node x hash accum))
       None (map the (filter (\<lambda>h. h \<noteq> None) (rev (ms_frontier st)))) of
       None \<Rightarrow> []
     | Some root \<Rightarrow> root)"

definition append_leaf :: "crypto \<Rightarrow> bytes \<Rightarrow> MerkleState \<Rightarrow> MerkleState \<times> bytes" where
  "append_leaf x leaf_hash st =
    (let (level, carry, fr) = append_loop x (ms_leaf_count st) 0 leaf_hash (ms_frontier st);
         st' = \<lparr>ms_frontier = (resize_none (level + 1) fr)[level := Some carry],
                ms_leaf_count = ms_leaf_count st + 1\<rparr>
     in (st', merkle_state_root x st'))"

section \<open>The log\<close>

record CheckpointLog =
  log_entries :: "CheckpointEntry list"
  log_merkle_state :: MerkleState

datatype LogConsistency = Identical | LocalBehind | LocalAhead | Diverged

definition CheckpointLog_new :: CheckpointLog where
  "CheckpointLog_new = \<lparr>log_entries = [], log_merkle_state = MerkleState_new\<rparr>"

definition leaf_hash :: "crypto \<Rightarrow> CheckpointEntry \<Rightarrow> SpexError + bytes" where
  "leaf_hash x entry =
    map_res (\<lambda>encoded. hash_bytes x Sha256 (0x00 # encoded))
      (ctap2_canonical_value_bytes (CheckpointEntry_to_cbor entry))"

primrec append_leaves :: "crypto \<Rightarrow> CheckpointEntry list \<Rightarrow> MerkleState \<Rightarrow> SpexError + MerkleState" where
  "append_leaves x [] st = Inr st"
| "append_leaves x (e # es) st =
    bind_res (leaf_hash x e) (\<lambda>h. append_leaves x es (fst (append_leaf x h st)))"

definition merkle_from_entries :: "crypto \<Rightarrow> CheckpointEntry list \<Rightarrow> SpexError + MerkleState" where
  "merkle_from_entries x es = append_leaves x es MerkleState_new"

definition rebuild_merkle_state :: "crypto \<Rightarrow> CheckpointLog \<Rightarrow> CheckpointLog \<times> (SpexError + unit)" where
  "rebuild_merkle_state x log =
    (case merkle_from_entries x (log_entries log) of
       Inl e \<Rightarrow> (log, Inl e)
     | Inr st \<Rightarrow> (log\<lparr>log_merkle_state := st\<rparr>, Inr ()))"

definition ensure_merkle_state :: "crypto \<Rightarrow> CheckpointLog \<Rightarrow> CheckpointLog \<times> (SpexError + unit)" where
  "ensure_merkle_state x log =
    (if ms_leaf_count (log_merkle_state log) = length (log_entries log) then (log, Inr ())
     else rebuild_merkle_state x log)"

definition append_with_root :: "crypto \<Rightarrow> CheckpointEntry \<Rightarrow> CheckpointLog \<Rightarrow> CheckpointLog \<times> (SpexError + bytes)" where
  "append_with_root x entry log =
    (case ensure_merkle_state x log of
       (log1, Inl e) \<Rightarrow> (log1, Inl e)
     | (log1, Inr _) \<Rightarrow>
         (case leaf_hash x entry of
            Inl e \<Rightarrow> (log1, Inl e)
          | Inr h \<Rightarrow>
              (let (st, root) = append_leaf x h (log_merkle_state log1)
               in (log1\<lparr>log_merkle_state := st, log_entries := log_entries log1 @ [entry]\<rparr>, Inr root))))"

definition append_entry :: "crypto \<Rightarrow> CheckpointEntry \<Rightarrow> CheckpointLog \<Rightarrow> CheckpointLog \<times> (SpexError + unit)" where
  "append_entry x entry log = apsnd (map_res (\<lambda>_. ())) (append_with_root x entry log)"

definition merkle_root :: "crypto \<Rightarrow> CheckpointLog \<Rightarrow> SpexError + bytes" where
  "merkle_root x log =
    (if log_entries log = [] then Inr []
     else if ms_leaf_count (log_merkle_state log) = length (log_entries log)
     then Inr (merkle_state_root x (log_merkle_state log))
     else map_res (merkle_state_root x) (merkle_from_entries x (log_entries log)))"

definition is_prefix_of :: "CheckpointLog \<Rightarrow> CheckpointLog \<Rightarrow> bool" where
  "is_prefix_of log other \<longleftrightarrow>
    length (log_entries log) \<le> length (log_entries other) \<and>
    list_all (\<lambda>(left, right). left = right) (zip (log_entries log) (log_entries other))"

definition compare_with :: "CheckpointLog \<Rightarrow> CheckpointLog \<Rightarrow> LogConsistency" where
  "compare_with log other =
    (if log_entries log = log_entries other then Identical
     else if is_prefix_of log other then LocalBehind
     else if is_prefix_of other log then LocalAhead
     else Diverged)"

text \<open>
  Serialization skips the Merkle state: \<open>ser\<close> and \<open>de_log\<close> stand for serde's encoding of the entries
  and \<open>ciborium\<close>'s reader at type \<open>CheckpointLog\<close>; base64 is a parameter too.
\<close>

definition log_to_cbor_bytes ::
    "(CheckpointEntry list \<Rightarrow> string + bytes) \<Rightarrow> cbor_reader \<Rightarrow> CheckpointLog \<Rightarrow> SpexError + bytes" where
  "log_to_cbor_bytes ser de log = to_ctap2_canonical_bytes ser de (log_entries log)"

definition log_from_cbor_bytes ::
    "crypto \<Rightarrow> (bytes \<Rightarrow> string + CheckpointEntry list) \<Rightarrow> bytes \<Rightarrow> SpexError + CheckpointLog" where
  "log_from_cbor_bytes x de_log bs =
    bind_res (map_err Cbor (de_log bs)) (\<lambda>es.
    case rebuild_merkle_state x \<lparr>log_entries = es, log_merkle_state = MerkleState_new\<rparr> of
      (_, Inl e) \<Rightarrow> Inl e
    | (log, Inr _) \<Rightarrow> Inr log)"

definition export_base64 ::
    "(CheckpointEntry list \<Rightarrow> string + bytes) \<Rightarrow> cbor_reader \<Rightarrow> (bytes \<Rightarrow> string) \<Rightarrow> CheckpointLog \<Rightarrow> SpexError + string" where
  "export_base64 ser de b64 log = map_res b64 (log_to_cbor_bytes ser de log)"

definition import_base64 ::
    "crypto \<Rightarrow> (bytes \<Rightarrow> string + CheckpointEntry list) \<Rightarrow> (string \<Rightarrow> string + bytes) \<Rightarrow> string \<Rightarrow> SpexError + CheckpointLog" where
  "import_base64 x de_log unb64 encoded =
    bind_res (map_err InvalidInput (unb64 encoded)) (log_from_cbor_bytes x de_log)"

section \<open>Specification: the tree of a list of leaves\<close>

datatype 'a mtree = Leaf 'a | Node "'a mtree" "'a mtree"

primrec leaves :: "'a mtree \<Rightarrow> 'a list" where
  "leaves (Leaf a) = [a]"
| "leaves (Node l r) = leaves l @ leaves r"

primrec hash_tree :: "crypto \<Rightarrow> bytes mtree \<Rightarrow> bytes" where
  "hash_tree x (Leaf b) = x_sha256 x (0x00 # b)"
| "hash_tree x (Node l r) = x_sha256 x (0x01 # hash_tree x l @ hash_tree x r)"

primrec perfect_tree :: "nat \<Rightarrow> 'a list \<Rightarrow> 'a mtree" where
  "perfect_tree 0 ls = Leaf (hd ls)"
| "perfect_tree (Suc k) ls = Node (perfect_tree k (take (2 ^ k) ls)) (perfect_tree k (drop (2 ^ k) ls))"

text \<open>The largest perfect tree that fits, then the rest.\<close>

function ref_peaks :: "'a list \<Rightarrow> 'a mtree list" where
  "ref_peaks ls =
    (if ls = [] then []
     else let k = bit_len (length ls) - 1
          in perfect_tree k (take (2 ^ k) ls) # ref_peaks (drop (2 ^ k) ls))"
  by pat_completeness auto

termination
  by (relation "measure length") auto

declare ref_peaks.simps [simp del]

definition bag :: "'a mtree list \<Rightarrow> 'a mtree" where
  "bag ts = foldl (\<lambda>acc p. Node p acc) (hd ts) (tl ts)"

definition ref_root :: "crypto \<Rightarrow> bytes list \<Rightarrow> bytes" where
  "ref_root x ls = (if ls = [] then [] else hash_tree x (bag (ref_peaks ls)))"

section \<open>The frontier as a forest\<close>

fun ins_tree :: "('t \<Rightarrow> 't \<Rightarrow> 't) \<Rightarrow> 't \<Rightarrow> 't option list \<Rightarrow> 't option list" where
  "ins_tree node t [] = [Some t]"
| "ins_tree node t (None # f) = Some t # f"
| "ins_tree node t (Some s # f) = None # ins_tree node (node s t) f"

fun counts :: "nat \<Rightarrow> 't option list \<Rightarrow> bool" where
  "counts n [] \<longleftrightarrow> n = 0"
| "counts n (s # f) \<longleftrightarrow> 0 < n \<and> (s \<noteq> None) = odd n \<and> counts (n div 2) f"

fun perfect :: "nat \<Rightarrow> 'a mtree \<Rightarrow> bool" where
  "perfect 0 (Leaf a) = True"
| "perfect (Suc k) (Node l r) = (perfect k l \<and> perfect k r)"
| "perfect k t = False"

fun forest_ok :: "nat \<Rightarrow> 'a mtree option list \<Rightarrow> bool" where
  "forest_ok k [] = True"
| "forest_ok k (None # f) = forest_ok (Suc k) f"
| "forest_ok k (Some t # f) = (perfect k t \<and> forest_ok (Suc k) f)"

fun forest_leaves :: "'a mtree option list \<Rightarrow> 'a list" where
  "forest_leaves [] = []"
| "forest_leaves (None # f) = forest_leaves f"
| "forest_leaves (Some t # f) = forest_leaves f @ leaves t"

definition forest :: "'a list \<Rightarrow> 'a mtree option list" where
  "forest ls = foldl (\<lambda>f a. ins_tree Node (Leaf a) f) [] ls"

definition peaks :: "'t option list \<Rightarrow> 't list" where
  "peaks f = map the (filter (\<lambda>h. h \<noteq> None) (rev f))"

lemma append_loop_ins:
  assumes "counts n f"
  shows "(case append_loop x n (length pre) c (pre @ f) of
      (level, carry, fr) \<Rightarrow> (resize_none (level + 1) fr)[level := Some carry]) =
    pre @ ins_tree (hash_node x) c f"
  using assms
proof (induction "hash_node x" c f arbitrary: n pre rule: ins_tree.induct)
  case (1 t)
  then show ?case by (simp add: append_loop.simps resize_none_def)
next
  case (2 t f)
  then show ?case by (simp add: append_loop.simps resize_none_def)
next
  case (3 t s f)
  then have "odd n" "counts (n div 2) f" by auto
  with 3(1) [of "n div 2" "pre @ [None]"] show ?case
    by (simp add: append_loop.simps [of x n])
qed

lemma counts_ins: "counts n f \<Longrightarrow> counts (Suc n) (ins_tree node t f)"
  by (induction node t f arbitrary: n rule: ins_tree.induct) auto

lemma map_ins_tree:
  assumes "\<And>a b. h (node a b) = node' (h a) (h b)"
  shows "map (map_option h) (ins_tree node t f) = ins_tree node' (h t) (map (map_option h) f)"
  using assms by (induction node t f rule: ins_tree.induct) simp_all

lemma ins_forest_ok: "perfect k (t :: 'a mtree) \<Longrightarrow> forest_ok k f \<Longrightarrow> forest_ok k (ins_tree Node t f)"
  by (induction "Node :: 'a mtree \<Rightarrow> _" t f arbitrary: k rule: ins_tree.induct) auto

lemma ins_forest_leaves: "forest_leaves (ins_tree Node (t :: 'a mtree) f) = forest_leaves f @ leaves t"
  by (induction "Node :: 'a mtree \<Rightarrow> _" t f rule: ins_tree.induct) auto

lemma forest_snoc [simp]: "forest (ls @ [a]) = ins_tree Node (Leaf a) (forest ls)"
  by (simp add: forest_def)

lemma forest_Nil [simp]: "forest [] = []"
  by (simp add: forest_def)

lemma forest_props:
  "forest_ok 0 (forest ls) \<and> forest_leaves (forest ls) = ls \<and> counts (length ls) (forest ls)"
  by (induction ls rule: rev_induct) (simp_all add: ins_forest_ok ins_forest_leaves counts_ins)

section \<open>The forest is the reference decomposition\<close>

lemma length_leaves_perfect: "perfect k t \<Longrightarrow> length (leaves t) = 2 ^ k"
  by (induction k t rule: perfect.induct) auto

lemma perfect_tree_leaves: "perfect k t \<Longrightarrow> perfect_tree k (leaves t) = t"
  by (induction k t rule: perfect.induct) (auto simp: length_leaves_perfect)

lemma forest_ok_snoc:
  "forest_ok k (f @ [s]) \<longleftrightarrow> forest_ok k f \<and> (case s of None \<Rightarrow> True | Some t \<Rightarrow> perfect (k + length f) t)"
  by (induction k f rule: forest_ok.induct) (auto split: option.splits)

lemma forest_leaves_snoc:
  "forest_leaves (f @ [s]) = (case s of None \<Rightarrow> forest_leaves f | Some t \<Rightarrow> leaves t @ forest_leaves f)"
  by (induction f rule: forest_leaves.induct) (auto split: option.splits)

lemma length_forest_leaves: "forest_ok 0 f \<Longrightarrow> length (forest_leaves f) < 2 ^ length f"
  by (induction f rule: rev_induct)
     (auto simp: forest_ok_snoc forest_leaves_snoc length_leaves_perfect split: option.splits)

lemma peaks_ref_peaks: "forest_ok 0 f \<Longrightarrow> peaks f = ref_peaks (forest_leaves f)"
proof (induction f rule: rev_induct)
  case Nil
  then show ?case by (simp add: peaks_def ref_peaks.simps)
next
  case (snoc s f)
  show ?case
  proof (cases s)
    case None
    with snoc show ?thesis by (simp add: peaks_def forest_ok_snoc forest_leaves_snoc)
  next
    case (Some t)
    with snoc.prems have ok: "forest_ok 0 f" "perfect (length f) t"
      by (simp_all add: forest_ok_snoc)
    have len: "length (leaves t) = 2 ^ length f" by (rule length_leaves_perfect [OF ok(2)])
    then have ne: "leaves t \<noteq> []" by auto
    have "bit_len (length (leaves t @ forest_leaves f)) = Suc (length f)"
      using length_forest_leaves [OF ok(1)] by (intro bit_len_eq) (simp_all add: len)
    then have "ref_peaks (leaves t @ forest_leaves f) = t # ref_peaks (forest_leaves f)"
      using ne len by (subst ref_peaks.simps) (simp add: perfect_tree_leaves [OF ok(2)])
    with snoc.IH [OF ok(1)] show ?thesis
      by (simp add: Some peaks_def forest_leaves_snoc)
  qed
qed

lemma peaks_forest: "peaks (forest ls) = ref_peaks ls"
  using forest_props [of ls] peaks_ref_peaks by metis

lemma ref_peaks_eq_Nil [simp]: "ref_peaks ls = [] \<longleftrightarrow> ls = []"
  by (subst ref_peaks.simps) (simp add: Let_def)

lemma ref_peaks_Nil [simp]: "ref_peaks [] = []"
  by simp

lemma peaks_map: "peaks (map (map_option h) f) = map h (peaks f)"
  by (induction f) (auto simp: peaks_def)

lemma foldl_bag:
  "foldl (\<lambda>root hash. Some (case root of None \<Rightarrow> hash | Some accum \<Rightarrow> hash_node x hash accum))
      (Some (hash_tree x t)) (map (hash_tree x) ts) =
    Some (hash_tree x (foldl (\<lambda>acc p. Node p acc) t ts))"
proof (induction ts arbitrary: t)
  case (Cons p ts)
  from Cons [of "Node p t"] show ?case by (simp add: hash_node_def hash_bytes_def)
qed simp

text \<open>The abstraction: a state represents a list of leaf preimages.\<close>

definition represents :: "crypto \<Rightarrow> MerkleState \<Rightarrow> bytes list \<Rightarrow> bool" where
  "represents x st ls \<longleftrightarrow>
    ms_leaf_count st = length ls \<and> ms_frontier st = map (map_option (hash_tree x)) (forest ls)"

lemma represents_new: "represents x MerkleState_new []"
  by (simp add: represents_def MerkleState_new_def)

lemma represents_root:
  assumes "represents x st ls"
  shows "merkle_state_root x st = ref_root x ls"
proof -
  have "map the (filter (\<lambda>h. h \<noteq> None) (rev (ms_frontier st))) = map (hash_tree x) (ref_peaks ls)"
    using assms peaks_map [of "hash_tree x" "forest ls"]
    by (simp add: represents_def peaks_forest) (simp add: peaks_def)
  then show ?thesis
    by (cases "ref_peaks ls") (auto simp: merkle_state_root_def ref_root_def bag_def foldl_bag)
qed

lemma represents_append_leaf:
  assumes "represents x st ls"
  shows "represents x (fst (append_leaf x (x_sha256 x (0x00 # b)) st)) (ls @ [b]) \<and>
    snd (append_leaf x (x_sha256 x (0x00 # b)) st) = ref_root x (ls @ [b])"
proof -
  let ?h = "x_sha256 x (0x00 # b)"
  let ?f = "map (map_option (hash_tree x)) (forest ls)"
  have fr: "ms_frontier st = ?f" "ms_leaf_count st = length ls"
    using assms by (simp_all add: represents_def)
  have "counts n (map (map_option h) f) = counts n f" for n and h :: "bytes mtree \<Rightarrow> bytes" and f
    by (induction n f rule: counts.induct) auto
  then have "counts (length ls) ?f" using forest_props [of ls] by simp
  from append_loop_ins [OF this, of x "[]" ?h]
  have "ms_frontier (fst (append_leaf x ?h st)) = ins_tree (hash_node x) ?h ?f"
    by (simp add: append_leaf_def fr Let_def case_prod_beta)
  also have "\<dots> = map (map_option (hash_tree x)) (forest (ls @ [b]))"
    using map_ins_tree [of "hash_tree x" Node "hash_node x" "Leaf b"]
    by (simp add: hash_node_def hash_bytes_def)
  finally have "represents x (fst (append_leaf x ?h st)) (ls @ [b])"
    by (simp add: represents_def append_leaf_def fr Let_def case_prod_beta)
  then show ?thesis
    using represents_root [of x "fst (append_leaf x ?h st)"]
    by (simp add: append_leaf_def Let_def case_prod_beta)
qed

section \<open>The log implements the specification\<close>

definition encode_entry :: "CheckpointEntry \<Rightarrow> SpexError + bytes" where
  "encode_entry e = ctap2_canonical_value_bytes (CheckpointEntry_to_cbor e)"

lemma leaf_hash_eq: "leaf_hash x e = map_res (\<lambda>b. x_sha256 x (0x00 # b)) (encode_entry e)"
  by (simp add: leaf_hash_def encode_entry_def hash_bytes_def)

lemma append_leaves_eq_Inr:
  assumes "represents x st ls"
  shows "append_leaves x es st = Inr st' \<Longrightarrow>
      \<exists>bs. traverse encode_entry es = Inr bs \<and> represents x st' (ls @ bs)"
    and "traverse encode_entry es = Inr bs \<Longrightarrow> \<exists>st'. append_leaves x es st = Inr st'"
  using assms
proof (induction es arbitrary: st ls bs)
  case (Cons e es)
  { case 1
    then obtain b where b: "encode_entry e = Inr b"
        "append_leaves x es (fst (append_leaf x (x_sha256 x (0x00 # b)) st)) = Inr st'"
      by (auto simp: leaf_hash_eq)
    with Cons(1) [OF b(2)] represents_append_leaf [OF 1(2), of b] show ?case by fastforce
  next
    case 2
    then obtain b cs where "encode_entry e = Inr b" "traverse encode_entry es = Inr cs" by auto
    with Cons(2) represents_append_leaf [OF 2(2), of b] show ?case by (simp add: leaf_hash_eq) blast }
qed auto

definition log_inv :: "crypto \<Rightarrow> CheckpointLog \<Rightarrow> bool" where
  "log_inv x log \<longleftrightarrow>
    (\<exists>bs. traverse encode_entry (log_entries log) = Inr bs \<and> represents x (log_merkle_state log) bs)"

lemma log_inv_new: "log_inv x CheckpointLog_new"
  by (simp add: log_inv_def CheckpointLog_new_def represents_new)

lemma log_inv_count: "log_inv x log \<Longrightarrow> ms_leaf_count (log_merkle_state log) = length (log_entries log)"
  by (auto simp: log_inv_def represents_def traverse_eq_Inr list_all2_lengthD)

lemma append_with_root_ok:
  assumes "log_inv x log" "encode_entry e = Inr b" "traverse encode_entry (log_entries log) = Inr bs"
  shows "\<exists>log'. append_with_root x e log = (log', Inr (ref_root x (bs @ [b]))) \<and>
    log_inv x log' \<and> log_entries log' = log_entries log @ [e]"
proof -
  have rep: "represents x (log_merkle_state log) bs"
    using assms(1,3) by (auto simp: log_inv_def)
  note step = represents_append_leaf [OF rep, of b]
  obtain st r where sr: "append_leaf x (x_sha256 x (0x00 # b)) (log_merkle_state log) = (st, r)"
    by fastforce
  have "log_inv x (log\<lparr>log_merkle_state := st, log_entries := log_entries log @ [e]\<rparr>)"
    using step assms(2,3) by (simp add: log_inv_def sr traverse_append)
  then show ?thesis
    using step log_inv_count [OF assms(1)] assms(2)
    by (simp add: append_with_root_def ensure_merkle_state_def leaf_hash_eq sr)
qed

lemma append_with_root_error:
  assumes "log_inv x log" "encode_entry e = Inl err"
  shows "append_with_root x e log = (log, Inl err)"
  using log_inv_count [OF assms(1)] assms(2)
  by (simp add: append_with_root_def ensure_merkle_state_def leaf_hash_eq)

lemma log_inv_append: "log_inv x log \<Longrightarrow> log_inv x (fst (append_entry x e log))"
proof (cases "encode_entry e")
  case (Inl err)
  assume "log_inv x log"
  with append_with_root_error [OF this Inl] show ?thesis by (simp add: append_entry_def)
next
  case (Inr b)
  assume inv: "log_inv x log"
  then obtain bs where "traverse encode_entry (log_entries log) = Inr bs" by (auto simp: log_inv_def)
  with append_with_root_ok [OF inv Inr] show ?thesis by (fastforce simp: append_entry_def)
qed

lemma merkle_root_inv:
  assumes "log_inv x log"
  shows "\<exists>bs. traverse encode_entry (log_entries log) = Inr bs \<and> merkle_root x log = Inr (ref_root x bs)"
proof -
  obtain bs where bs: "traverse encode_entry (log_entries log) = Inr bs" "represents x (log_merkle_state log) bs"
    using assms by (auto simp: log_inv_def)
  then have "bs = [] \<longleftrightarrow> log_entries log = []"
    by (auto simp: traverse_eq_Inr)
  with bs log_inv_count [OF assms] show ?thesis
    by (auto simp: merkle_root_def represents_root) (simp add: ref_root_def)
qed

section \<open>The root binds the log\<close>

primrec buffers :: "crypto \<Rightarrow> bytes mtree \<Rightarrow> bytes set" where
  "buffers x (Leaf b) = {0x00 # b}"
| "buffers x (Node l r) = insert (0x01 # hash_tree x l @ hash_tree x r) (buffers x l \<union> buffers x r)"

lemma hash_tree_len: "sha256_len x \<Longrightarrow> length (hash_tree x t) = 32"
  by (cases t) (simp_all add: sha256_len_def)

primrec top_buffer :: "crypto \<Rightarrow> bytes mtree \<Rightarrow> bytes" where
  "top_buffer x (Leaf b) = 0x00 # b"
| "top_buffer x (Node l r) = 0x01 # hash_tree x l @ hash_tree x r"

lemma hash_tree_top: "hash_tree x t = x_sha256 x (top_buffer x t)" "top_buffer x t \<in> buffers x t"
  by (cases t; simp)+

lemma hash_tree_binds:
  assumes "sha256_len x"
  shows "inj_on (x_sha256 x) (buffers x t \<union> buffers x u) \<Longrightarrow> hash_tree x t = hash_tree x u \<Longrightarrow> t = u"
proof (induction t arbitrary: u)
  case (Leaf b)
  have "top_buffer x (Leaf b) = top_buffer x u"
    by (rule inj_onD [OF Leaf.prems(1)]) (use Leaf.prems(2) hash_tree_top in auto)
  then show ?case by (cases u) simp_all
next
  case (Node l r)
  have top: "top_buffer x (Node l r) = top_buffer x u"
    by (rule inj_onD [OF Node.prems(1)]) (use Node.prems(2) hash_tree_top in \<open>auto simp del: hash_tree.simps\<close>)
  then obtain l' r' where u: "u = Node l' r'" by (cases u) simp_all
  with top have "hash_tree x l = hash_tree x l'" "hash_tree x r = hash_tree x r'"
    by (simp_all add: hash_tree_len [OF assms])
  moreover have "inj_on (x_sha256 x) (buffers x l \<union> buffers x l')"
    by (rule inj_on_subset [OF Node.prems(1)]) (auto simp: u)
  moreover have "inj_on (x_sha256 x) (buffers x r \<union> buffers x r')"
    by (rule inj_on_subset [OF Node.prems(1)]) (auto simp: u)
  ultimately show ?case using Node.IH u by simp
qed

lemma leaves_perfect_tree: "length ls = 2 ^ k \<Longrightarrow> leaves (perfect_tree k ls) = ls"
  by (induction k arbitrary: ls) (auto simp: length_Suc_conv)

lemma bit_len_bounds: "0 < n \<Longrightarrow> 2 ^ (bit_len n - 1) \<le> n"
proof (induction n rule: bit_len.induct)
  case (1 n)
  show ?case
  proof (cases "n = 1")
    case True
    then show ?thesis by (simp add: bit_len.simps)
  next
    case False
    with 1 have "0 < n div 2" by simp
    with 1 have "2 ^ (bit_len (n div 2) - 1) \<le> n div 2" by simp
    moreover have "0 < bit_len (n div 2)"
      using \<open>0 < n div 2\<close> by (simp add: bit_len.simps [of "n div 2"])
    ultimately show ?thesis
      using 1(2) by (cases "bit_len (n div 2)") (simp_all add: bit_len.simps [of n])
  qed
qed

lemma concat_leaves_ref_peaks: "concat (map leaves (ref_peaks ls)) = ls"
proof (induction ls rule: ref_peaks.induct)
  case (1 ls)
  show ?case
  proof (cases "ls = []")
    case False
    let ?k = "bit_len (length ls) - 1"
    have "leaves (perfect_tree ?k (take (2 ^ ?k) ls)) = take (2 ^ ?k) ls"
      using bit_len_bounds [of "length ls"] False by (intro leaves_perfect_tree) simp
    with 1 [OF False refl] False show ?thesis by (simp add: ref_peaks.simps [of ls] Let_def)
  qed simp
qed

lemma length_ref_peaks: "length ls = length ms \<Longrightarrow> length (ref_peaks ls) = length (ref_peaks ms)"
proof (induction ls arbitrary: ms rule: ref_peaks.induct)
  case (1 ls)
  show ?case
  proof (cases "ls = []")
    case False
    then have "ms \<noteq> []" using 1 by auto
    with 1 False show ?thesis by (simp add: ref_peaks.simps [of ls] ref_peaks.simps [of ms] Let_def)
  qed (use 1 in simp)
qed

lemma bag_snoc: "ts \<noteq> [] \<Longrightarrow> bag (ts @ [p]) = Node p (bag ts)"
  by (cases ts) (simp_all add: bag_def)

lemma bag_inject: "length ts = length us \<Longrightarrow> bag ts = bag us \<Longrightarrow> ts \<noteq> [] \<Longrightarrow> ts = us"
proof (induction ts arbitrary: us rule: rev_induct)
  case (snoc t ts)
  from snoc.prems obtain vs v where us: "us = vs @ [v]" by (cases us rule: rev_cases) auto
  show ?case
  proof (cases "ts = []")
    case True
    with snoc.prems us show ?thesis by (simp add: bag_def)
  next
    case False
    with snoc.prems us have "vs \<noteq> []" by auto
    with False snoc us show ?thesis by (simp add: bag_snoc)
  qed
qed simp

lemma length_leaves_bag: "ts \<noteq> [] \<Longrightarrow> length (leaves (bag ts)) = length (concat (map leaves ts))"
proof (induction ts rule: rev_induct)
  case (snoc t ts)
  then show ?case by (cases "ts = []") (simp_all add: bag_snoc, simp add: bag_def)
qed simp

lemma bag_ref_peaks_inject:
  assumes "bag (ref_peaks ls) = bag (ref_peaks ms)" "ls \<noteq> []" "ms \<noteq> []"
  shows "ls = ms"
proof -
  have "length ls = length ms"
    using length_leaves_bag [of "ref_peaks ls"] length_leaves_bag [of "ref_peaks ms"] assms
    by (simp add: concat_leaves_ref_peaks)
  then have "ref_peaks ls = ref_peaks ms"
    using assms by (intro bag_inject length_ref_peaks) simp_all
  then show ?thesis by (metis concat_leaves_ref_peaks)
qed

definition list_buffers :: "crypto \<Rightarrow> bytes list \<Rightarrow> bytes set" where
  "list_buffers x ls = (if ls = [] then {} else buffers x (bag (ref_peaks ls)))"

lemma ref_root_binds:
  assumes "sha256_len x" "inj_on (x_sha256 x) (list_buffers x ls \<union> list_buffers x ms)"
    and "ref_root x ls = ref_root x ms"
  shows "ls = ms"
proof -
  have "ref_root x [] = []" "\<And>ls. ls \<noteq> [] \<Longrightarrow> length (ref_root x ls) = 32"
    by (simp_all add: ref_root_def hash_tree_len [OF assms(1)])
  then have "ls = [] \<longleftrightarrow> ms = []" using assms(3) by (metis list.size(3) zero_neq_numeral)
  with assms show ?thesis
    by (cases "ls = []") (auto simp: ref_root_def list_buffers_def intro: bag_ref_peaks_inject hash_tree_binds)
qed

section \<open>Entries are determined by their encoding\<close>

lemmas entry_field_defs = KeyCheckpoint_fields_def RecoveryKey_fields_def RevocationDeclaration_fields_def
  CheckpointEntry_fields_def

interpretation key_checkpoint: ctap2_struct KeyCheckpoint_fields KeyCheckpoint_to_cbor
  by unfold_locales (simp_all add: KeyCheckpoint_to_cbor_def entry_field_defs)

interpretation recovery_key: ctap2_struct RecoveryKey_fields RecoveryKey_to_cbor
  by unfold_locales (simp_all add: RecoveryKey_to_cbor_def entry_field_defs)

lemma revocation_fields_ok: "btree_ok (RevocationDeclaration_fields d)"
  by (cases "rd_reason d"; cases "rd_recovery_key_hash d") (simp_all add: entry_field_defs)

interpretation revocation: ctap2_struct RevocationDeclaration_fields RevocationDeclaration_to_cbor
  by unfold_locales (simp_all add: RevocationDeclaration_to_cbor_def revocation_fields_ok)

interpretation checkpoint_entry: ctap2_struct CheckpointEntry_fields CheckpointEntry_to_cbor
  by unfold_locales (simp_all add: CheckpointEntry_to_cbor_def entry_field_defs split: CheckpointEntry.split)

lemma canon_entry_parts [simp]:
  "canon (KeyCheckpoint_to_cbor k) = KeyCheckpoint_to_cbor k"
  "canon (RecoveryKey_to_cbor r) = RecoveryKey_to_cbor r"
  "canon (RevocationDeclaration_to_cbor d) = RevocationDeclaration_to_cbor d"
proof -
  have "canon_fields (RevocationDeclaration_fields d) = RevocationDeclaration_fields d"
    by (cases "rd_reason d"; cases "rd_recovery_key_hash d") (simp_all add: entry_field_defs)
  then show "canon (RevocationDeclaration_to_cbor d) = RevocationDeclaration_to_cbor d"
    by (simp add: revocation.to_cbor_fields canon_map_to_cbor revocation_fields_ok)
  show "canon (KeyCheckpoint_to_cbor k) = KeyCheckpoint_to_cbor k"
    unfolding key_checkpoint.to_cbor_fields by (simp add: canon_map_to_cbor entry_field_defs)
  show "canon (RecoveryKey_to_cbor r) = RecoveryKey_to_cbor r"
    unfolding recovery_key.to_cbor_fields by (simp add: canon_map_to_cbor entry_field_defs)
qed

lemma key_checkpoint_inject: "KeyCheckpoint_to_cbor k = KeyCheckpoint_to_cbor l \<longleftrightarrow> k = l"
  by (cases k; cases l)
     (simp add: KeyCheckpoint_to_cbor_def map_to_cbor_inject entry_field_defs word_uint_eq_iff)

lemma recovery_key_inject: "RecoveryKey_to_cbor k = RecoveryKey_to_cbor l \<longleftrightarrow> k = l"
  by (cases k; cases l)
     (simp add: RecoveryKey_to_cbor_def map_to_cbor_inject entry_field_defs word_uint_eq_iff)

lemma revocation_fields_inject:
  "RevocationDeclaration_fields k = RevocationDeclaration_fields l \<longleftrightarrow>
    rd_user_id k = rd_user_id l \<and> rd_revoked_key_hash k = rd_revoked_key_hash l \<and>
    rd_revoked_at k = rd_revoked_at l \<and> rd_recovery_key_hash k = rd_recovery_key_hash l \<and>
    rd_reason k = rd_reason l"
  by (cases "rd_reason k"; cases "rd_reason l"; cases "rd_recovery_key_hash k"; cases "rd_recovery_key_hash l")
     (auto simp: entry_field_defs word_uint_eq_iff)

lemma revocation_inject: "RevocationDeclaration_to_cbor k = RevocationDeclaration_to_cbor l \<longleftrightarrow> k = l"
  by (auto simp: RevocationDeclaration_to_cbor_def map_to_cbor_inject revocation_fields_inject
      intro: RevocationDeclaration.equality)

lemma encode_entry_inject:
  assumes "encode_entry e = Inr b" "encode_entry f = Inr b"
  shows "e = f"
proof -
  have "canon_fields (CheckpointEntry_fields e) = canon_fields (CheckpointEntry_fields f)"
    by (rule checkpoint_entry.same_bytes_same_fields) (use assms in \<open>simp_all add: encode_entry_def\<close>)
  then show ?thesis
    by (cases e; cases f)
       (simp_all add: CheckpointEntry_fields_def key_checkpoint_inject recovery_key_inject revocation_inject)
qed

lemma traverse_encode_inject:
  assumes "traverse encode_entry es = Inr bs" "traverse encode_entry fs = Inr bs"
  shows "es = fs"
proof -
  have "length es = length fs" and nth: "\<And>i. i < length es \<Longrightarrow> es ! i = fs ! i"
    using assms encode_entry_inject by (auto simp: traverse_eq_Inr list_all2_conv_all_nth)
  then show ?thesis by (intro nth_equalityI) auto
qed

section \<open>Properties\<close>

definition build_log :: "crypto \<Rightarrow> CheckpointEntry list \<Rightarrow> CheckpointLog" where
  "build_log x es = foldl (\<lambda>log e. fst (append_entry x e log)) CheckpointLog_new es"

lemma build_log_props:
  "log_inv x (build_log x es) \<and> log_entries (build_log x es) = filter (\<lambda>e. is_ok (encode_entry e)) es"
proof (induction es rule: rev_induct)
  case Nil
  then show ?case using log_inv_new by (simp add: build_log_def CheckpointLog_new_def)
next
  case (snoc e es)
  let ?log = "build_log x es"
  have b: "build_log x (es @ [e]) = fst (append_entry x e ?log)" by (simp add: build_log_def)
  show ?case
  proof (cases "encode_entry e")
    case (Inl err)
    with snoc append_with_root_error [of x ?log e err] show ?thesis
      by (simp add: b append_entry_def)
  next
    case (Inr c)
    obtain bs where "traverse encode_entry (log_entries ?log) = Inr bs"
      using snoc by (auto simp: log_inv_def)
    with append_with_root_ok [of x ?log e c] snoc Inr show ?thesis
      by (fastforce simp: b append_entry_def)
  qed
qed

text \<open>C5. The incremental Merkle state is correct: after any sequence of appends, the log holds the
  entries that could be encoded, in order, and its root is the hash of the reference tree over their
  encodings, which is also the root recomputed from the entries alone (as after deserialization,
  which drops the Merkle state).\<close>

theorem log_root_correct:
  "log_entries (build_log x es) = filter (\<lambda>e. is_ok (encode_entry e)) es \<and>
   (\<exists>bs. traverse encode_entry (log_entries (build_log x es)) = Inr bs \<and>
     merkle_root x (build_log x es) = Inr (ref_root x bs) \<and>
     merkle_root x \<lparr>log_entries = log_entries (build_log x es), log_merkle_state = MerkleState_new\<rparr> =
       Inr (ref_root x bs))"
proof -
  note inv = build_log_props [of x es]
  obtain bs where bs: "traverse encode_entry (log_entries (build_log x es)) = Inr bs"
      "merkle_root x (build_log x es) = Inr (ref_root x bs)"
    using merkle_root_inv inv by blast
  obtain st where "append_leaves x (log_entries (build_log x es)) MerkleState_new = Inr st"
    using append_leaves_eq_Inr(2) [OF represents_new bs(1)] by blast
  moreover from append_leaves_eq_Inr(1) [OF represents_new this] bs(1)
  have "merkle_state_root x st = ref_root x bs" by (simp add: represents_root)
  moreover have "log_entries (build_log x es) = [] \<Longrightarrow> ref_root x bs = []"
    using bs(1) by (simp add: ref_root_def)
  ultimately show ?thesis
    using inv bs by (simp add: merkle_root_def merkle_from_entries_def MerkleState_new_def)
qed

text \<open>C17. The Merkle root binds the log: two logs built by appending that have the same root have
  the same entries in the same order, provided SHA-256 does not collide on the buffers hashed to
  compute the two roots.\<close>

theorem log_root_binds_entries:
  assumes "sha256_len x"
    and "traverse encode_entry (log_entries (build_log x es)) = Inr bs"
    and "traverse encode_entry (log_entries (build_log x fs)) = Inr cs"
    and "inj_on (x_sha256 x) (list_buffers x bs \<union> list_buffers x cs)"
    and "merkle_root x (build_log x es) = merkle_root x (build_log x fs)"
  shows "log_entries (build_log x es) = log_entries (build_log x fs)"
proof -
  have "merkle_root x (build_log x es) = Inr (ref_root x bs)"
    using merkle_root_inv [of x "build_log x es"] build_log_props [of x es] assms(2) by simp
  moreover have "merkle_root x (build_log x fs) = Inr (ref_root x cs)"
    using merkle_root_inv [of x "build_log x fs"] build_log_props [of x fs] assms(3) by simp
  ultimately have "ref_root x bs = ref_root x cs"
    using assms(5) by simp
  with assms(1,4) have "bs = cs" by (intro ref_root_binds)
  with assms(2,3) show ?thesis by (simp add: traverse_encode_inject)
qed

theorem log_root_binds_entries_witness:
  "log_entries (build_log toy_crypto [Recovery \<lparr>rk_user_id = [1], rk_recovery_key = [2], rk_issued_at = 3\<rparr>]) =
   log_entries (build_log toy_crypto [Recovery \<lparr>rk_user_id = [1], rk_recovery_key = [2], rk_issued_at = 3\<rparr>])"
proof (rule log_root_binds_entries)
  let ?e = "Recovery \<lparr>rk_user_id = [1], rk_recovery_key = [2], rk_issued_at = 3\<rparr>"
  let ?b = "[0xa2, 0x00, 0x01, 0x01, 0xa3, 0x00, 0x41, 0x01, 0x01, 0x41, 0x02, 0x02, 0x03] :: bytes"
  have "encode_entry ?e = Inr ?b" by code_simp
  then show t: "traverse encode_entry (log_entries (build_log toy_crypto [?e])) = Inr [?b]"
    using build_log_props [of toy_crypto "[?e]"] by simp
  show "traverse encode_entry (log_entries (build_log toy_crypto [?e])) = Inr [?b]" by (rule t)
  have "ref_peaks [?b] = [Leaf ?b]" by (simp add: ref_peaks.simps bit_len.simps)
  then show "inj_on (x_sha256 toy_crypto) (list_buffers toy_crypto [?b] \<union> list_buffers toy_crypto [?b])"
    by (simp add: list_buffers_def bag_def)
qed simp_all

lemma is_prefix_of_prefix: "is_prefix_of log other \<longleftrightarrow> prefix (log_entries log) (log_entries other)"
proof -
  have "length xs \<le> length ys \<and> list_all (\<lambda>(l, r). l = r) (zip xs ys) \<longleftrightarrow> prefix xs ys" for xs ys :: "CheckpointEntry list"
    by (induction xs ys rule: list_induct2') auto
  then show ?thesis by (simp add: is_prefix_of_def)
qed

text \<open>Log comparison decides append-only consistency: it reports that the local log is behind
  (ahead) exactly when it is a proper prefix (extension) of the other, identical exactly on equal
  logs, and divergence exactly when neither extends the other.\<close>

theorem compare_with_decides:
  "compare_with log other =
    (if log_entries log = log_entries other then Identical
     else if strict_prefix (log_entries log) (log_entries other) then LocalBehind
     else if strict_prefix (log_entries other) (log_entries log) then LocalAhead
     else Diverged) \<and>
   (compare_with log other = Diverged \<longleftrightarrow> log_entries log \<parallel> log_entries other)"
  by (auto simp: compare_with_def is_prefix_of_prefix strict_prefix_def parallel_def)

end
