(* ===== verification/Mls_Group.thy ===== *)
theory Mls_Group
  imports Core_Crypto
begin

text \<open>
  The group state machine of \<open>spex-mls/src/lib.rs\<close>, lines 27 to 653: group contexts, commits,
  epochs, the secret schedule and message encryption.

  A method on \<open>&mut self\<close> returns the state it leaves together with its result, so that what a
  failing commit changes is visible.  The outer option is the panic of
  \<open>assert!(cfg_hash.len() <= 255)\<close> in \<open>ext_cfg_hash_bytes\<close>.
\<close>

section \<open>Data\<close>

record GroupContext =
  ctx_proto_suite :: ProtoSuite
  ctx_flags :: u8
  ctx_cfg_hash_id :: u16
  ctx_cfg_hash :: bytes
  ctx_extensions :: "bytes list"

record GroupConfig =
  cfg_proto_suite :: ProtoSuite
  cfg_flags :: u8
  cfg_cfg_hash_id :: u16
  cfg_cfg_hash :: bytes
  cfg_initial_secret :: "bytes option"

record GroupSecrets =
  sec_epoch :: u64
  sec_group_secret :: bytes

record MemberSecret =
  mem_member_id :: string
  mem_secret :: bytes

record Group =
  g_epoch :: u64
  g_context :: GroupContext
  g_members :: "string list"
  g_secrets :: GroupSecrets
  g_hash_id :: HashId

record Commit =
  cm_epoch :: u64
  cm_proto_suite :: "ProtoSuite option"
  cm_flags :: "u8 option"
  cm_cfg_hash_id :: "u16 option"
  cm_cfg_hash :: "bytes option"
  cm_group_secret :: "bytes option"
  cm_added_members :: "string list"
  cm_removed_members :: "string list"

record GroupMessage =
  gm_epoch :: u64
  gm_cfg_hash :: bytes
  gm_proto_suite :: ProtoSuite
  gm_body :: bytes

datatype ValidationError =
    EpochMismatch u64 u64
  | CfgHashMismatch
  | ProtoSuiteMismatch

record CommitOrderError =
  coe_expected_epoch :: u64
  coe_received_epoch :: u64

datatype EpochGap =
    Current
  | Next
  | Stale u64 u64
  | Gap u64 u64 "u64 list"

datatype MlsError =
    UnsupportedHashId u16
  | Validation ValidationError
  | UnknownMember string
  | Encryption
  | Decryption
  | Spex SpexError
  | OutOfOrderCommit CommitOrderError

fun ValidationError_debug :: "ValidationError \<Rightarrow> string" where
  "ValidationError_debug (EpochMismatch expected found) =
    ''EpochMismatch { expected: '' @ show_nat (unat expected) @ '', found: '' @ show_nat (unat found) @ '' }''"
| "ValidationError_debug CfgHashMismatch = ''CfgHashMismatch''"
| "ValidationError_debug ProtoSuiteMismatch = ''ProtoSuiteMismatch''"

fun MlsError_to_string :: "MlsError \<Rightarrow> string" where
  "MlsError_to_string (UnsupportedHashId v) = ''unsupported hash id: '' @ show_nat (unat v)"
| "MlsError_to_string (Validation e) = ''validation error: '' @ ValidationError_debug e"
| "MlsError_to_string (UnknownMember m) = ''unknown member: '' @ m"
| "MlsError_to_string Encryption = ''encryption error''"
| "MlsError_to_string Decryption = ''decryption error''"
| "MlsError_to_string (Spex e) = ''spex error: '' @ SpexError_to_string e"
| "MlsError_to_string (OutOfOrderCommit e) =
    ''out-of-order commit: expected epoch '' @ show_nat (unat (coe_expected_epoch e)) @
    '', received '' @ show_nat (unat (coe_received_epoch e))"

section \<open>Derivations\<close>

definition hash_id_from_u16 :: "u16 \<Rightarrow> MlsError + HashId" where
  "hash_id_from_u16 hash_id = (if hash_id = 1 then Inr Sha256 else Inl (UnsupportedHashId hash_id))"

definition cfg_hash_for_thread_config :: "crypto \<Rightarrow> HashId \<Rightarrow> ThreadConfig \<Rightarrow> MlsError + bytes" where
  "cfg_hash_for_thread_config x hash_id thread_config =
    map_err Spex (hash_ctap2_cbor_value x hash_id (ThreadConfig_to_cbor thread_config))"

definition mls_extensions :: "ProtoSuite \<Rightarrow> u8 \<Rightarrow> u16 \<Rightarrow> bytes \<Rightarrow> bytes list option" where
  "mls_extensions suite flags cfg_hash_id cfg_hash =
    map_option
      (\<lambda>cfg_ext. [ext_proto_suite_bytes (ps_major suite) (ps_minor suite) (ps_ciphersuite_id suite) flags, cfg_ext])
      (ext_cfg_hash_bytes cfg_hash_id cfg_hash)"

definition rebuild_extensions :: "GroupContext \<Rightarrow> GroupContext option" where
  "rebuild_extensions ctx =
    map_option (\<lambda>es. ctx\<lparr>ctx_extensions := es\<rparr>)
      (mls_extensions (ctx_proto_suite ctx) (ctx_flags ctx) (ctx_cfg_hash_id ctx) (ctx_cfg_hash ctx))"

definition derive_initial_secret_seed :: "crypto \<Rightarrow> HashId \<Rightarrow> GroupContext \<Rightarrow> bytes" where
  "derive_initial_secret_seed x hash_id ctx =
    hash_bytes x hash_id
      (ctx_cfg_hash ctx @ u16be (ps_major (ctx_proto_suite ctx)) @ u16be (ps_minor (ctx_proto_suite ctx)) @
       u16be (ps_ciphersuite_id (ctx_proto_suite ctx)) @ [ctx_flags ctx])"

definition derive_group_secret :: "crypto \<Rightarrow> HashId \<Rightarrow> bytes \<Rightarrow> u64 \<Rightarrow> bytes" where
  "derive_group_secret x hash_id seed epoch = hash_bytes x hash_id (seed @ u64be epoch)"

definition derive_member_secret :: "crypto \<Rightarrow> HashId \<Rightarrow> bytes \<Rightarrow> string \<Rightarrow> bytes" where
  "derive_member_secret x hash_id group_secret member_id =
    hash_bytes x hash_id (group_secret @ str_bytes member_id)"

definition message_metadata :: "bytes \<Rightarrow> string \<Rightarrow> u64 \<Rightarrow> string \<Rightarrow> bytes" where
  "message_metadata group_secret sender_id message_id label =
    group_secret @ str_bytes sender_id @ u64be message_id @ str_bytes label"

definition derive_message_metadata_hash ::
    "crypto \<Rightarrow> HashId \<Rightarrow> bytes \<Rightarrow> string \<Rightarrow> u64 \<Rightarrow> string \<Rightarrow> bytes" where
  "derive_message_metadata_hash x hash_id group_secret sender_id message_id label =
    hash_bytes x hash_id (message_metadata group_secret sender_id message_id label)"

text \<open>\<open>hash.get(..n)\<close>\<close>

definition get_prefix :: "nat \<Rightarrow> bytes \<Rightarrow> bytes option" where
  "get_prefix n bs = (if n \<le> length bs then Some (take n bs) else None)"

definition derive_aead_key :: "crypto \<Rightarrow> HashId \<Rightarrow> bytes \<Rightarrow> string \<Rightarrow> u64 \<Rightarrow> MlsError + bytes" where
  "derive_aead_key x hash_id group_secret sender_id message_id =
    ok_or Encryption (get_prefix 32
      (derive_message_metadata_hash x hash_id group_secret sender_id message_id ''key''))"

definition derive_aead_nonce :: "crypto \<Rightarrow> HashId \<Rightarrow> bytes \<Rightarrow> string \<Rightarrow> u64 \<Rightarrow> MlsError + bytes" where
  "derive_aead_nonce x hash_id group_secret sender_id message_id =
    ok_or Encryption (get_prefix 12
      (derive_message_metadata_hash x hash_id group_secret sender_id message_id ''nonce''))"

section \<open>The group\<close>

definition GroupConfig_new :: "ProtoSuite \<Rightarrow> u8 \<Rightarrow> u16 \<Rightarrow> bytes \<Rightarrow> GroupConfig" where
  "GroupConfig_new suite flags cfg_hash_id cfg_hash =
    \<lparr>cfg_proto_suite = suite, cfg_flags = flags, cfg_cfg_hash_id = cfg_hash_id, cfg_cfg_hash = cfg_hash,
     cfg_initial_secret = None\<rparr>"

definition with_initial_secret :: "bytes \<Rightarrow> GroupConfig \<Rightarrow> GroupConfig" where
  "with_initial_secret secret config = config\<lparr>cfg_initial_secret := Some secret\<rparr>"

definition GroupSecrets_new :: "u64 \<Rightarrow> bytes \<Rightarrow> GroupSecrets" where
  "GroupSecrets_new epoch group_secret = \<lparr>sec_epoch = epoch, sec_group_secret = group_secret\<rparr>"

definition Commit_new :: "u64 \<Rightarrow> Commit" where
  "Commit_new epoch =
    \<lparr>cm_epoch = epoch, cm_proto_suite = None, cm_flags = None, cm_cfg_hash_id = None, cm_cfg_hash = None,
     cm_group_secret = None, cm_added_members = [], cm_removed_members = []\<rparr>"

definition Group_create :: "crypto \<Rightarrow> GroupConfig \<Rightarrow> (MlsError + Group) option" where
  "Group_create x config =
    (case hash_id_from_u16 (cfg_cfg_hash_id config) of
       Inl e \<Rightarrow> Some (Inl e)
     | Inr hash_id \<Rightarrow>
         Option.bind (rebuild_extensions
           \<lparr>ctx_proto_suite = cfg_proto_suite config, ctx_flags = cfg_flags config,
            ctx_cfg_hash_id = cfg_cfg_hash_id config, ctx_cfg_hash = cfg_cfg_hash config, ctx_extensions = []\<rparr>)
         (\<lambda>ctx.
           let seed = (case cfg_initial_secret config of
                         Some s \<Rightarrow> s | None \<Rightarrow> derive_initial_secret_seed x hash_id ctx);
               group_secret = derive_group_secret x hash_id seed 0
           in Some (Inr \<lparr>g_epoch = 0, g_context = ctx, g_members = [],
                         g_secrets = GroupSecrets_new 0 group_secret, g_hash_id = hash_id\<rparr>)))"

definition push_member :: "string list \<Rightarrow> string \<Rightarrow> string list" where
  "push_member members member_id = (if member_id \<in> set members then members else members @ [member_id])"

definition retain_member :: "string list \<Rightarrow> string \<Rightarrow> string list" where
  "retain_member members member_id = filter (\<lambda>m. m \<noteq> member_id) members"

definition set_opt :: "('a \<Rightarrow> 's \<Rightarrow> 's) \<Rightarrow> 'a option \<Rightarrow> 's \<Rightarrow> 's" where
  "set_opt upd v s = (case v of None \<Rightarrow> s | Some a \<Rightarrow> upd a s)"

definition next_secrets :: "crypto \<Rightarrow> Group \<Rightarrow> Commit \<Rightarrow> GroupSecrets" where
  "next_secrets x g c =
    (case cm_group_secret c of
       Some s \<Rightarrow> GroupSecrets_new (cm_epoch c) s
     | None \<Rightarrow>
         if cm_epoch c \<noteq> sec_epoch (g_secrets g)
         then GroupSecrets_new (cm_epoch c)
                (derive_group_secret x (g_hash_id g) (sec_group_secret (g_secrets g)) (cm_epoch c))
         else g_secrets g)"

text \<open>What follows the hash identifier check of \<open>apply_commit\<close>.\<close>

definition finish_commit :: "crypto \<Rightarrow> Group \<Rightarrow> Commit \<Rightarrow> (Group \<times> (MlsError + GroupContext)) option" where
  "finish_commit x g c =
    (let ctx = set_opt (\<lambda>h ctx. ctx\<lparr>ctx_cfg_hash := h\<rparr>) (cm_cfg_hash c) (g_context g);
         members = foldl retain_member (foldl push_member (g_members g) (cm_added_members c)) (cm_removed_members c);
         secrets = next_secrets x g c
     in Option.bind (rebuild_extensions ctx) (\<lambda>ctx'.
        Some (g\<lparr>g_context := ctx', g_members := members, g_secrets := secrets, g_epoch := cm_epoch c\<rparr>, Inr ctx')))"

definition apply_commit :: "crypto \<Rightarrow> Group \<Rightarrow> Commit \<Rightarrow> (Group \<times> (MlsError + GroupContext)) option" where
  "apply_commit x g c =
    (if cm_epoch c \<noteq> g_epoch g + 1 then
       Some (g, Inl (OutOfOrderCommit \<lparr>coe_expected_epoch = g_epoch g + 1, coe_received_epoch = cm_epoch c\<rparr>))
     else
       let g1 = g\<lparr>g_context := set_opt (\<lambda>f ctx. ctx\<lparr>ctx_flags := f\<rparr>) (cm_flags c)
                    (set_opt (\<lambda>s ctx. ctx\<lparr>ctx_proto_suite := s\<rparr>) (cm_proto_suite c) (g_context g))\<rparr>
       in case cm_cfg_hash_id c of
            None \<Rightarrow> finish_commit x g1 c
          | Some i \<Rightarrow>
              (case hash_id_from_u16 i of
                 Inl e \<Rightarrow> Some (g1, Inl e)
               | Inr h \<Rightarrow>
                   finish_commit x (g1\<lparr>g_hash_id := h, g_context := (g_context g1)\<lparr>ctx_cfg_hash_id := i\<rparr>\<rparr>) c))"

definition detect_epoch_gap :: "u64 \<Rightarrow> u64 \<Rightarrow> EpochGap" where
  "detect_epoch_gap local_epoch received_epoch =
    (if received_epoch = local_epoch then Current
     else if received_epoch = local_epoch + 1 then Next
     else if received_epoch < local_epoch then Stale (local_epoch + 1) received_epoch
     else Gap (local_epoch + 1) received_epoch
            (map word_of_nat [unat (local_epoch + 1) ..< unat received_epoch]))"

text \<open>The loop \<open>for commit in missing_commits { self.apply_commit(commit)?; }\<close>, which stops at an error.\<close>

fun apply_commits :: "crypto \<Rightarrow> Group \<Rightarrow> Commit list \<Rightarrow> (Group \<times> (MlsError + unit)) option" where
  "apply_commits x g [] = Some (g, Inr ())"
| "apply_commits x g (c # cs) =
    Option.bind (apply_commit x g c) (\<lambda>(g', r).
      case r of Inl e \<Rightarrow> Some (g', Inl e) | Inr _ \<Rightarrow> apply_commits x g' cs)"

definition apply_commit_with_recovery ::
    "crypto \<Rightarrow> Group \<Rightarrow> Commit \<Rightarrow> Commit list \<Rightarrow> (Group \<times> (MlsError + GroupContext)) option" where
  "apply_commit_with_recovery x g target missing_commits =
    (case detect_epoch_gap (g_epoch g) (cm_epoch target) of
       Current \<Rightarrow> apply_commit x g target
     | Stale _ _ \<Rightarrow> apply_commit x g target
     | Next \<Rightarrow> apply_commit x g target
     | Gap _ _ missing \<Rightarrow>
         let commits = sort_key cm_epoch missing_commits in
         if map cm_epoch commits \<noteq> missing then
           Some (g, Inl (OutOfOrderCommit
             \<lparr>coe_expected_epoch = g_epoch g + 1, coe_received_epoch = cm_epoch target\<rparr>))
         else
           Option.bind (apply_commits x g commits) (\<lambda>(g', r).
             case r of Inl e \<Rightarrow> Some (g', Inl e) | Inr _ \<Rightarrow> apply_commit x g' target))"

definition add_member :: "crypto \<Rightarrow> Group \<Rightarrow> string \<Rightarrow> (Group \<times> (MlsError + Commit)) option" where
  "add_member x g member_id =
    (let c = (Commit_new (g_epoch g + 1))\<lparr>cm_added_members := [member_id]\<rparr>
     in map_option (apsnd (map_res (\<lambda>_. c))) (apply_commit x g c))"

definition remove_member :: "crypto \<Rightarrow> Group \<Rightarrow> string \<Rightarrow> (Group \<times> (MlsError + Commit)) option" where
  "remove_member x g member_id =
    (let c = (Commit_new (g_epoch g + 1))\<lparr>cm_removed_members := [member_id]\<rparr>
     in map_option (apsnd (map_res (\<lambda>_. c))) (apply_commit x g c))"

definition distribute_secrets :: "crypto \<Rightarrow> Group \<Rightarrow> MemberSecret list" where
  "distribute_secrets x g =
    map (\<lambda>m. \<lparr>mem_member_id = m,
              mem_secret = derive_member_secret x (g_hash_id g) (sec_group_secret (g_secrets g)) m\<rparr>) (g_members g)"

section \<open>Messages\<close>

definition ensure_member :: "Group \<Rightarrow> string \<Rightarrow> MlsError + unit" where
  "ensure_member g member_id =
    (if list_ex (\<lambda>m. m = member_id) (g_members g) then Inr () else Inl (UnknownMember member_id))"

definition validate_message :: "Group \<Rightarrow> GroupMessage \<Rightarrow> ValidationError + unit" where
  "validate_message g m =
    (if gm_epoch m \<noteq> g_epoch g then Inl (EpochMismatch (g_epoch g) (gm_epoch m))
     else if gm_cfg_hash m \<noteq> ctx_cfg_hash (g_context g) then Inl CfgHashMismatch
     else if gm_proto_suite m \<noteq> ctx_proto_suite (g_context g) then Inl ProtoSuiteMismatch
     else Inr ())"

definition group_encrypt :: "crypto \<Rightarrow> Group \<Rightarrow> string \<Rightarrow> u64 \<Rightarrow> bytes \<Rightarrow> MlsError + GroupMessage" where
  "group_encrypt x g sender_id message_id plaintext =
    bind_res (ensure_member g sender_id) (\<lambda>_.
    bind_res (derive_aead_key x (g_hash_id g) (sec_group_secret (g_secrets g)) sender_id message_id) (\<lambda>key.
    bind_res (derive_aead_nonce x (g_hash_id g) (sec_group_secret (g_secrets g)) sender_id message_id) (\<lambda>nonce.
    bind_res (ok_or Encryption (x_seal x key nonce [] plaintext)) (\<lambda>ciphertext.
    Inr \<lparr>gm_epoch = g_epoch g, gm_cfg_hash = ctx_cfg_hash (g_context g),
         gm_proto_suite = ctx_proto_suite (g_context g), gm_body = ciphertext\<rparr>))))"

definition group_decrypt :: "crypto \<Rightarrow> Group \<Rightarrow> string \<Rightarrow> u64 \<Rightarrow> GroupMessage \<Rightarrow> MlsError + bytes" where
  "group_decrypt x g sender_id message_id m =
    bind_res (ensure_member g sender_id) (\<lambda>_.
    bind_res (map_err Validation (validate_message g m)) (\<lambda>_.
    bind_res (derive_aead_key x (g_hash_id g) (sec_group_secret (g_secrets g)) sender_id message_id) (\<lambda>key.
    bind_res (derive_aead_nonce x (g_hash_id g) (sec_group_secret (g_secrets g)) sender_id message_id) (\<lambda>nonce.
    ok_or Decryption (x_open x key nonce [] (gm_body m))))))"

section \<open>Invariant of a group\<close>

definition group_inv :: "Group \<Rightarrow> bool" where
  "group_inv g \<longleftrightarrow>
    sec_epoch (g_secrets g) = g_epoch g \<and> distinct (g_members g) \<and>
    ctx_cfg_hash_id (g_context g) = 1 \<and> length (ctx_cfg_hash (g_context g)) \<le> 255 \<and>
    rebuild_extensions (g_context g) = Some (g_context g)"

text \<open>What also a commit that is refused keeps: the extensions are those of some suite and flags, no longer
  necessarily the current ones.\<close>

definition extensions_match :: "GroupContext \<Rightarrow> bool" where
  "extensions_match ctx \<longleftrightarrow>
    mls_extensions (ctx_proto_suite ctx) (ctx_flags ctx) (ctx_cfg_hash_id ctx) (ctx_cfg_hash ctx) = Some (ctx_extensions ctx)"

definition group_core :: "Group \<Rightarrow> bool" where
  "group_core g \<longleftrightarrow>
    sec_epoch (g_secrets g) = g_epoch g \<and> distinct (g_members g) \<and>
    ctx_cfg_hash_id (g_context g) = 1 \<and> length (ctx_cfg_hash (g_context g)) \<le> 255 \<and>
    (\<exists>suite flags. mls_extensions suite flags (ctx_cfg_hash_id (g_context g)) (ctx_cfg_hash (g_context g)) =
      Some (ctx_extensions (g_context g)))"

text \<open>The groups a created group becomes by commits, alone or with recovery, accepted or refused.\<close>

inductive reachable :: "crypto \<Rightarrow> Group \<Rightarrow> bool" for x where
  create: "Group_create x config = Some (Inr g) \<Longrightarrow> reachable x g"
| commit: "reachable x g \<Longrightarrow> apply_commit x g c = Some (g', r) \<Longrightarrow> reachable x g'"
| recover: "reachable x g \<Longrightarrow> apply_commit_with_recovery x g target missing_commits = Some (g', r) \<Longrightarrow> reachable x g'"

lemma set_opt_simps [simp]: "set_opt f None s = s" "set_opt f (Some a) s = f a s"
  by (simp_all add: set_opt_def)

lemma rebuild_eq_Some:
  "rebuild_extensions ctx = Some ctx' \<longleftrightarrow>
    (\<exists>e. ext_cfg_hash_bytes (ctx_cfg_hash_id ctx) (ctx_cfg_hash ctx) = Some e \<and>
      ctx' = ctx\<lparr>ctx_extensions := [ext_proto_suite_bytes (ps_major (ctx_proto_suite ctx))
        (ps_minor (ctx_proto_suite ctx)) (ps_ciphersuite_id (ctx_proto_suite ctx)) (ctx_flags ctx), e]\<rparr>)"
  by (auto simp: rebuild_extensions_def mls_extensions_def)

lemma rebuild_None_iff: "rebuild_extensions ctx = None \<longleftrightarrow> 255 < length (ctx_cfg_hash ctx)"
  by (auto simp: rebuild_extensions_def mls_extensions_def ext_cfg_hash_bytes_def Let_def)

lemma context_extensions_self: "ctx\<lparr>ctx_extensions := es\<rparr> = (ctx :: GroupContext) \<longleftrightarrow> ctx_extensions ctx = es"
  by (cases ctx) auto

lemma rebuild_idem: "rebuild_extensions ctx = Some ctx' \<Longrightarrow> rebuild_extensions ctx' = Some ctx'"
  by (auto simp: rebuild_eq_Some)

lemma rebuild_fields:
  "rebuild_extensions ctx = Some ctx' \<Longrightarrow>
    ctx_proto_suite ctx' = ctx_proto_suite ctx \<and> ctx_flags ctx' = ctx_flags ctx \<and>
    ctx_cfg_hash_id ctx' = ctx_cfg_hash_id ctx \<and> ctx_cfg_hash ctx' = ctx_cfg_hash ctx"
  by (auto simp: rebuild_eq_Some)

lemma distinct_push: "distinct ms \<Longrightarrow> distinct (push_member ms m)"
  by (simp add: push_member_def)

lemma distinct_members:
  "distinct ms \<Longrightarrow> distinct (foldl retain_member (foldl push_member ms added) removed)"
proof -
  assume "distinct ms"
  then have "distinct (foldl push_member ms added)"
    by (induction added arbitrary: ms) (simp_all add: distinct_push)
  then show ?thesis
    by (induction removed arbitrary: ms added rule: rev_induct) (auto simp: retain_member_def)
qed

lemma set_foldl_push: "set (foldl push_member ms added) = set ms \<union> set added"
  by (induction added arbitrary: ms) (auto simp: push_member_def)

lemma set_foldl_retain: "set (foldl retain_member ms removed) = set ms - set removed"
  by (induction removed arbitrary: ms) (auto simp: retain_member_def)

lemma next_secrets_epoch: "sec_epoch (next_secrets x g c) = cm_epoch c"
  by (auto simp: next_secrets_def GroupSecrets_new_def split: option.splits)

lemma finish_commit_Some:
  assumes "finish_commit x g c = Some (g', r)"
  shows "\<exists>ctx'. r = Inr ctx' \<and> g_context g' = ctx' \<and> rebuild_extensions ctx' = Some ctx' \<and>
    g_epoch g' = cm_epoch c \<and> g_secrets g' = next_secrets x g c \<and> g_hash_id g' = g_hash_id g \<and>
    g_members g' = foldl retain_member (foldl push_member (g_members g) (cm_added_members c)) (cm_removed_members c) \<and>
    ctx_cfg_hash_id ctx' = ctx_cfg_hash_id (g_context g) \<and> length (ctx_cfg_hash ctx') \<le> 255 \<and>
    ctx_proto_suite ctx' = ctx_proto_suite (g_context g) \<and> ctx_flags ctx' = ctx_flags (g_context g)"
proof -
  let ?ctx = "set_opt (\<lambda>h ctx. ctx\<lparr>ctx_cfg_hash := h\<rparr>) (cm_cfg_hash c) (g_context g)"
  obtain ctx' where ctx': "rebuild_extensions ?ctx = Some ctx'" "r = Inr ctx'" "g_context g' = ctx'"
    and g': "g_epoch g' = cm_epoch c" "g_secrets g' = next_secrets x g c" "g_hash_id g' = g_hash_id g"
      "g_members g' = foldl retain_member (foldl push_member (g_members g) (cm_added_members c)) (cm_removed_members c)"
    using assms by (auto simp: finish_commit_def Let_def bind_eq_Some_conv)
  have "\<not> 255 < length (ctx_cfg_hash ?ctx)"
    using ctx'(1) rebuild_None_iff [of ?ctx] by simp
  then show ?thesis
    using ctx' g' rebuild_idem [OF ctx'(1)] rebuild_fields [OF ctx'(1)]
    by (cases "cm_cfg_hash c") auto
qed

lemma apply_commit_Inr:
  assumes "apply_commit x g c = Some (g', Inr ctx)"
  shows "cm_epoch c = g_epoch g + 1 \<and> g_epoch g' = cm_epoch c \<and> ctx = g_context g' \<and>
    sec_epoch (g_secrets g') = cm_epoch c \<and>
    g_members g' = foldl retain_member (foldl push_member (g_members g) (cm_added_members c)) (cm_removed_members c) \<and>
    rebuild_extensions (g_context g') = Some (g_context g') \<and> length (ctx_cfg_hash (g_context g')) \<le> 255 \<and>
    ctx_cfg_hash_id (g_context g') = (case cm_cfg_hash_id c of None \<Rightarrow> ctx_cfg_hash_id (g_context g) | Some i \<Rightarrow> i) \<and>
    (\<forall>i. cm_cfg_hash_id c = Some i \<longrightarrow> i = 1)"
proof -
  have ep: "cm_epoch c = g_epoch g + 1"
    using assms by (auto simp: apply_commit_def split: if_splits)
  then obtain h where h: "finish_commit x h c = Some (g', Inr ctx)" "g_members h = g_members g"
      "ctx_cfg_hash_id (g_context h) = (case cm_cfg_hash_id c of None \<Rightarrow> ctx_cfg_hash_id (g_context g) | Some i \<Rightarrow> i)"
      "\<forall>i. cm_cfg_hash_id c = Some i \<longrightarrow> i = 1"
    using assms
    by (cases "cm_cfg_hash_id c"; cases "cm_flags c"; cases "cm_proto_suite c")
       (auto simp: apply_commit_def Let_def hash_id_from_u16_def split: if_splits)
  from finish_commit_Some [OF h(1)] h(2-4) ep show ?thesis
    by (auto simp: next_secrets_epoch)
qed

lemma group_inv_commit:
  "group_inv g \<Longrightarrow> apply_commit x g c = Some (g', Inr ctx) \<Longrightarrow> group_inv g'"
  using apply_commit_Inr [of x g c g' ctx]
  by (auto simp: group_inv_def distinct_members split: option.splits)

lemma group_inv_create: "Group_create x config = Some (Inr g) \<Longrightarrow> group_inv g"
proof -
  assume a: "Group_create x config = Some (Inr g)"
  let ?ctx = "\<lparr>ctx_proto_suite = cfg_proto_suite config, ctx_flags = cfg_flags config,
      ctx_cfg_hash_id = cfg_cfg_hash_id config, ctx_cfg_hash = cfg_cfg_hash config, ctx_extensions = []\<rparr>"
  obtain ctx where ctx: "rebuild_extensions ?ctx = Some ctx" "g_context g = ctx" "g_members g = []"
      "g_epoch g = 0" "sec_epoch (g_secrets g) = 0" "cfg_cfg_hash_id config = 1"
    using a by (auto simp: Group_create_def hash_id_from_u16_def bind_eq_Some_conv Let_def GroupSecrets_new_def
        split: if_splits)
  moreover have "\<not> 255 < length (ctx_cfg_hash ?ctx)"
    using ctx(1) rebuild_None_iff [of ?ctx] by simp
  ultimately show ?thesis
    using rebuild_fields [OF ctx(1)] rebuild_idem [OF ctx(1)] by (simp add: group_inv_def)
qed

lemma group_inv_iff: "group_inv g \<longleftrightarrow> group_core g \<and> extensions_match (g_context g)"
proof -
  have m: "rebuild_extensions ctx = Some ctx \<longleftrightarrow> extensions_match ctx" for ctx
    by (auto simp: rebuild_extensions_def extensions_match_def context_extensions_self)
  then show ?thesis unfolding group_inv_def group_core_def extensions_match_def by blast
qed

lemma apply_commit_Inl:
  assumes "apply_commit x g c = Some (g', Inl e)"
  shows "\<exists>suite flags. g' = g\<lparr>g_context := (g_context g)\<lparr>ctx_proto_suite := suite, ctx_flags := flags\<rparr>\<rparr>"
proof (cases "cm_epoch c = g_epoch g + 1")
  case False
  then have "g' = g\<lparr>g_context := (g_context g)\<lparr>ctx_proto_suite := ctx_proto_suite (g_context g), ctx_flags := ctx_flags (g_context g)\<rparr>\<rparr>"
    using assms by (simp add: apply_commit_def)
  then show ?thesis by blast
next
  case True
  let ?suite = "case cm_proto_suite c of None \<Rightarrow> ctx_proto_suite (g_context g) | Some s \<Rightarrow> s"
  let ?flags = "case cm_flags c of None \<Rightarrow> ctx_flags (g_context g) | Some f \<Rightarrow> f"
  have "g' = g\<lparr>g_context := set_opt (\<lambda>f ctx. ctx\<lparr>ctx_flags := f\<rparr>) (cm_flags c)
      (set_opt (\<lambda>s ctx. ctx\<lparr>ctx_proto_suite := s\<rparr>) (cm_proto_suite c) (g_context g))\<rparr>"
    using assms True finish_commit_Some
    by (auto simp: apply_commit_def Let_def split: option.splits sum.splits dest!: finish_commit_Some)
  then have "g' = g\<lparr>g_context := (g_context g)\<lparr>ctx_proto_suite := ?suite, ctx_flags := ?flags\<rparr>\<rparr>"
    by (cases "cm_proto_suite c"; cases "cm_flags c") simp_all
  then show ?thesis by blast
qed

lemma group_core_commit:
  assumes "group_core g" "apply_commit x g c = Some (g', r)"
  shows "group_core g' \<and> (\<forall>ctx. r = Inr ctx \<longrightarrow> group_inv g')"
proof (cases r)
  case (Inl e)
  with apply_commit_Inl [of x g c g' e] assms show ?thesis by (auto simp: group_core_def) blast
next
  case (Inr ctx)
  have "group_inv g'"
    using apply_commit_Inr [of x g c g' ctx] assms Inr
    by (auto simp: group_inv_def group_core_def distinct_members split: option.splits)
  then show ?thesis by (simp add: group_inv_iff)
qed

lemma group_core_commits:
  "group_core g \<Longrightarrow> apply_commits x g cs = Some (g', r) \<Longrightarrow> group_core g'"
proof (induction cs arbitrary: g)
  case (Cons c cs)
  obtain h q where h: "apply_commit x g c = Some (h, q)"
    using Cons.prems(2) by (auto simp: Option.bind_eq_Some_conv)
  have "group_core h" using group_core_commit [OF Cons.prems(1) h] by simp
  with h Cons show ?case by (cases q) auto
qed simp

lemma group_core_recovery:
  assumes "group_core g" "apply_commit_with_recovery x g target missing_commits = Some (g', r)"
  shows "group_core g' \<and> (\<forall>ctx. r = Inr ctx \<longrightarrow> group_inv g')"
proof (cases "detect_epoch_gap (g_epoch g) (cm_epoch target)")
  case (Gap expected received missing)
  let ?cs = "sort_key cm_epoch missing_commits"
  show ?thesis
  proof (cases "map cm_epoch ?cs = missing")
    case True
    then obtain h q where h: "apply_commits x g ?cs = Some (h, q)"
      using assms(2) Gap by (auto simp: apply_commit_with_recovery_def Let_def Option.bind_eq_Some_conv)
    then have core: "group_core h" by (rule group_core_commits [OF assms(1)])
    show ?thesis
    proof (cases q)
      case (Inl e)
      then show ?thesis using assms(2) Gap True h core by (auto simp: apply_commit_with_recovery_def Let_def)
    next
      case (Inr u)
      then have "apply_commit x h target = Some (g', r)"
        using assms(2) Gap True h by (auto simp: apply_commit_with_recovery_def Let_def)
      then show ?thesis by (rule group_core_commit [OF core])
    qed
  qed (use assms Gap in \<open>auto simp: apply_commit_with_recovery_def Let_def\<close>)
qed (use assms group_core_commit in \<open>auto simp: apply_commit_with_recovery_def\<close>)

lemma reachable_core: "reachable x g \<Longrightarrow> group_core g"
  by (induction rule: reachable.induct)
    (auto simp: group_inv_iff dest: group_inv_create group_core_commit group_core_recovery)

section \<open>Commits that succeed\<close>

text \<open>A commit the group can apply: a supported hash identifier and a hash that fits its extension.\<close>

definition benign :: "Commit \<Rightarrow> bool" where
  "benign c \<longleftrightarrow> (\<forall>i. cm_cfg_hash_id c = Some i \<longrightarrow> i = 1) \<and> (\<forall>h. cm_cfg_hash c = Some h \<longrightarrow> length h \<le> 255)"

lemma finish_commit_succeeds:
  assumes "length (ctx_cfg_hash (g_context g)) \<le> 255" "\<forall>h. cm_cfg_hash c = Some h \<longrightarrow> length h \<le> 255"
  shows "\<exists>g' ctx. finish_commit x g c = Some (g', Inr ctx)"
proof -
  let ?ctx = "set_opt (\<lambda>h ctx. ctx\<lparr>ctx_cfg_hash := h\<rparr>) (cm_cfg_hash c) (g_context g)"
  have "length (ctx_cfg_hash ?ctx) \<le> 255" using assms by (cases "cm_cfg_hash c") auto
  then obtain ctx' where "rebuild_extensions ?ctx = Some ctx'"
    using rebuild_None_iff [of ?ctx] by fastforce
  then show ?thesis by (simp add: finish_commit_def Let_def)
qed

lemma apply_commit_succeeds:
  assumes "group_inv g" "benign c" "cm_epoch c = g_epoch g + 1"
  shows "\<exists>g' ctx. apply_commit x g c = Some (g', Inr ctx) \<and> group_inv g' \<and> g_epoch g' = cm_epoch c"
proof -
  have "\<exists>g' ctx. apply_commit x g c = Some (g', Inr ctx)"
    using assms finish_commit_succeeds [of _ c x]
    by (cases "cm_cfg_hash_id c"; cases "cm_flags c"; cases "cm_proto_suite c")
       (simp_all add: apply_commit_def Let_def hash_id_from_u16_def benign_def group_inv_def)
  with assms show ?thesis by (blast dest: group_inv_commit apply_commit_Inr)
qed

lemma apply_commits_append:
  "apply_commits x g (cs @ ds) =
    Option.bind (apply_commits x g cs) (\<lambda>(g', r). case r of Inl e \<Rightarrow> Some (g', Inl e) | Inr _ \<Rightarrow> apply_commits x g' ds)"
proof (induction cs arbitrary: g)
  case (Cons c cs)
  show ?case
    by (cases "apply_commit x g c") (auto simp: Cons split: sum.splits)
qed simp

lemma apply_commits_succeed:
  assumes "group_inv g" "\<forall>c \<in> set cs. benign c"
    and "map cm_epoch cs = map (\<lambda>i. g_epoch g + 1 + word_of_nat i) [0 ..< length cs]"
  shows "\<exists>g'. apply_commits x g cs = Some (g', Inr ()) \<and> group_inv g' \<and> g_epoch g' = g_epoch g + word_of_nat (length cs)"
  using assms
proof (induction cs arbitrary: g)
  case (Cons c cs)
  have eps: "cm_epoch c = g_epoch g + 1"
      "map cm_epoch cs = map (\<lambda>i. g_epoch g + 1 + 1 + word_of_nat i) [0 ..< length cs]"
    using Cons.prems(3) by (simp_all add: upt_conv_Cons map_Suc_upt [symmetric] o_def algebra_simps
        del: upt_Suc)
  then obtain g1 ctx where g1: "apply_commit x g c = Some (g1, Inr ctx)" "group_inv g1" "g_epoch g1 = g_epoch g + 1"
    using apply_commit_succeeds [OF Cons.prems(1)] Cons.prems(2) by fastforce
  from Cons.IH [of g1] g1 eps Cons.prems(2) show ?case by (auto simp: algebra_simps)
qed simp

lemma gap_range:
  fixes e t :: u64
  assumes "e < t" "t \<noteq> e + 1"
  shows "map word_of_nat [unat (e + 1) ..< unat t] =
      map (\<lambda>i. e + 1 + word_of_nat i) [0 ..< unat t - unat e - 1] \<and>
    e + 1 + word_of_nat (unat t - unat e - 1) = t"
proof -
  have lt: "unat e < unat t" using assms(1) by (simp add: word_less_nat_alt)
  have "unat (e + 1) = unat e + 1"
    using lt unsigned_less [of t, where 'a = nat] by (simp add: unat_word_ariths)
  moreover have "[unat e + 1 ..< unat t] = map (\<lambda>i. unat e + 1 + i) [0 ..< unat t - unat e - 1]"
    using map_add_upt [of "unat e + 1" "unat t - unat e - 1"] lt by (simp add: add.commute)
  moreover have w: "word_of_nat (unat e + 1 + i) = e + 1 + word_of_nat i" for i
    by simp
  moreover have "e + 1 + word_of_nat (unat t - unat e - 1) = t"
    unfolding w [symmetric] using lt by simp
  ultimately show ?thesis by (simp only: map_map o_def)
qed

lemma sorted_missing: "sorted (map word_of_nat [a ..< unat (t :: u64)] :: u64 list)"
proof -
  have mono: "(word_of_nat i :: u64) \<le> word_of_nat j" if "i \<le> j" "j < unat t" for i j
    using that unsigned_less [of t, where 'a = nat] by (simp add: word_le_nat_alt unat_of_nat)
  have "sorted_wrt (\<lambda>i j. i \<le> j \<and> j < unat t) [a ..< unat t]"
    by (auto simp: sorted_wrt_iff_nth_less)
  then show ?thesis
    unfolding sorted_map by (rule sorted_wrt_mono_rel [rotated]) (use mono in blast)
qed

lemma sorted_epochs:
  assumes "mset (map cm_epoch cs) = mset (map word_of_nat [a ..< unat t])"
  shows "map cm_epoch (sort_key cm_epoch cs) = map word_of_nat [a ..< unat (t :: u64)]"
proof -
  have "sort (map cm_epoch (sort_key cm_epoch cs)) = map word_of_nat [a ..< unat t]"
    using assms sorted_missing [of a t] by (intro properties_for_sort) simp_all
  then show ?thesis by (simp add: sorted_sort_id)
qed

section \<open>Properties\<close>

text \<open>C6. Every group that a created group becomes by commits, alone or with recovery of missing ones, accepted or
  refused, has secrets of its current epoch, no member twice, the supported hash identifier, and MLS extensions
  that carry its configuration hash.  After each accepted commit, alone or with recovery, the extensions are
  exactly those of the current suite, flags and configuration hash.\<close>

theorem reachable_group_consistent:
  assumes "reachable x g"
  shows "sec_epoch (g_secrets g) = g_epoch g \<and> distinct (g_members g) \<and> ctx_cfg_hash_id (g_context g) = 1 \<and>
    (\<exists>suite flags. mls_extensions suite flags 1 (ctx_cfg_hash (g_context g)) = Some (ctx_extensions (g_context g))) \<and>
    (\<forall>c cs g' ctx. apply_commit x g c = Some (g', Inr ctx) \<or> apply_commit_with_recovery x g c cs = Some (g', Inr ctx) \<longrightarrow>
      mls_extensions (ctx_proto_suite (g_context g')) (ctx_flags (g_context g')) (ctx_cfg_hash_id (g_context g'))
        (ctx_cfg_hash (g_context g')) = Some (ctx_extensions (g_context g')))"
proof -
  have core: "group_core g" by (rule reachable_core [OF assms])
  then have "group_inv g'" if "apply_commit x g c = Some (g', Inr ctx) \<or> apply_commit_with_recovery x g c cs = Some (g', Inr ctx)"
    for c cs g' ctx
    using that group_core_commit group_core_recovery by blast
  then have "extensions_match (g_context g')" if "apply_commit x g c = Some (g', Inr ctx) \<or> apply_commit_with_recovery x g c cs = Some (g', Inr ctx)"
    for c cs g' ctx
    using that by (simp add: group_inv_iff)
  moreover have "\<exists>suite flags. mls_extensions suite flags 1 (ctx_cfg_hash (g_context g)) = Some (ctx_extensions (g_context g))"
    using core unfolding group_core_def by (elim conjE) (simp only:)
  ultimately show ?thesis using core unfolding extensions_match_def by (simp add: group_core_def)
qed

definition sample_suite :: ProtoSuite where
  "sample_suite = \<lparr>ps_major = 0, ps_minor = 1, ps_ciphersuite_id = 1\<rparr>"

definition sample_group :: Group where
  "sample_group =
    (case Group_create toy_crypto (GroupConfig_new sample_suite 0 1 [9]) of
       Some (Inr g) \<Rightarrow> (case add_member toy_crypto g ''al'' of Some (g', _) \<Rightarrow> g'))"

lemma sample_created:
  "\<exists>g. Group_create toy_crypto (GroupConfig_new sample_suite 0 1 [9]) = Some (Inr g) \<and> group_inv g \<and> g_epoch g = 0 \<and> g_members g = []"
proof -
  have "\<exists>g. Group_create toy_crypto (GroupConfig_new sample_suite 0 1 [9]) = Some (Inr g) \<and> g_epoch g = 0 \<and> g_members g = []"
    by (simp add: Group_create_def GroupConfig_new_def hash_id_from_u16_def rebuild_extensions_def
        mls_extensions_def ext_cfg_hash_bytes_def Let_def)
  then show ?thesis using group_inv_create by blast
qed

lemma sample_group_reachable: "reachable toy_crypto sample_group \<and> g_epoch sample_group = 1 \<and> g_members sample_group = [''al'']"
proof -
  obtain g where g: "Group_create toy_crypto (GroupConfig_new sample_suite 0 1 [9]) = Some (Inr g)" "group_inv g"
      "g_epoch g = 0" "g_members g = []"
    using sample_created by blast
  let ?c = "(Commit_new (g_epoch g + 1))\<lparr>cm_added_members := [''al'']\<rparr>"
  have "benign ?c" "cm_epoch ?c = g_epoch g + 1" by (simp_all add: benign_def Commit_new_def)
  then obtain g' ctx where g': "apply_commit toy_crypto g ?c = Some (g', Inr ctx)" "g_epoch g' = cm_epoch ?c"
    using apply_commit_succeeds [OF g(2)] by blast
  then have "sample_group = g'" by (simp add: sample_group_def g(1) add_member_def Let_def)
  moreover have "reachable toy_crypto g'" by (rule reachable.commit [OF reachable.create [OF g(1)] g'(1)])
  moreover have "g_members g' = [''al'']"
    using apply_commit_Inr [OF g'(1)] g(4) by (simp add: Commit_new_def push_member_def)
  ultimately show ?thesis using g'(2) g(3) by (simp add: Commit_new_def)
qed

lemma sample_group_inv: "group_inv sample_group"
proof -
  obtain g where g: "Group_create toy_crypto (GroupConfig_new sample_suite 0 1 [9]) = Some (Inr g)" "group_inv g"
    using sample_created by blast
  let ?c = "(Commit_new (g_epoch g + 1))\<lparr>cm_added_members := [''al'']\<rparr>"
  have "benign ?c" "cm_epoch ?c = g_epoch g + 1" by (simp_all add: benign_def Commit_new_def)
  then obtain g' ctx where "apply_commit toy_crypto g ?c = Some (g', Inr ctx)" "group_inv g'"
    using apply_commit_succeeds [OF g(2)] by blast
  then show ?thesis by (simp add: sample_group_def g(1) add_member_def Let_def)
qed

theorem reachable_group_consistent_witness:
  "\<exists>g'. apply_commit toy_crypto sample_group ((Commit_new 2)\<lparr>cm_flags := Some 7, cm_cfg_hash_id := Some 2\<rparr>) =
      Some (g', Inl (UnsupportedHashId 2)) \<and> ctx_flags (g_context g') = 7 \<and> sec_epoch (g_secrets g') = g_epoch g'"
proof -
  let ?c = "(Commit_new 2)\<lparr>cm_flags := Some 7, cm_cfg_hash_id := Some 2\<rparr>"
  have r: "reachable toy_crypto sample_group" "g_epoch sample_group = 1" using sample_group_reachable by auto
  have c: "apply_commit toy_crypto sample_group ?c =
      Some (sample_group\<lparr>g_context := (g_context sample_group)\<lparr>ctx_flags := 7\<rparr>\<rparr>, Inl (UnsupportedHashId 2))"
    by (simp add: apply_commit_def Commit_new_def r(2) hash_id_from_u16_def Let_def)
  from reachable_group_consistent [OF reachable.commit [OF r(1) c]] c show ?thesis by auto
qed

text \<open>C15. Recovery from an epoch gap: given commits, in any order, for exactly the missing epochs, the
  group ends at the epoch of the target commit, in the state obtained by applying the missing commits in
  epoch order and then the target.\<close>

theorem recovery_applies_in_epoch_order:
  assumes "group_inv g" "\<forall>c \<in> set cs. benign c" "benign target"
    and "g_epoch g < cm_epoch target" "cm_epoch target \<noteq> g_epoch g + 1"
    and "mset (map cm_epoch cs) = mset (map word_of_nat [unat (g_epoch g + 1) ..< unat (cm_epoch target)])"
  shows "\<exists>g' ctx. apply_commit_with_recovery x g target cs = Some (g', Inr ctx) \<and>
    g_epoch g' = cm_epoch target \<and>
    apply_commits x g (sort_key cm_epoch cs @ [target]) = Some (g', Inr ())"
proof -
  let ?cs = "sort_key cm_epoch cs"
  note range = gap_range [OF assms(4,5)]
  have eps: "map cm_epoch ?cs = map word_of_nat [unat (g_epoch g + 1) ..< unat (cm_epoch target)]"
    by (rule sorted_epochs [OF assms(6)])
  then have len: "length ?cs = unat (cm_epoch target) - unat (g_epoch g) - 1"
    using range by (metis (no_types, lifting) length_map length_upt diff_zero)
  obtain g1 where g1: "apply_commits x g ?cs = Some (g1, Inr ())" "group_inv g1"
      "g_epoch g1 = g_epoch g + word_of_nat (length ?cs)"
    using apply_commits_succeed [OF assms(1), of ?cs x] assms(2) eps range len by auto
  then have "cm_epoch target = g_epoch g1 + 1"
    using range len by (simp add: algebra_simps)
  then obtain g2 ctx where g2: "apply_commit x g1 target = Some (g2, Inr ctx)" "g_epoch g2 = cm_epoch target"
    using apply_commit_succeeds [OF g1(2) assms(3)] by blast
  have "detect_epoch_gap (g_epoch g) (cm_epoch target) =
      Gap (g_epoch g + 1) (cm_epoch target) (map word_of_nat [unat (g_epoch g + 1) ..< unat (cm_epoch target)])"
    using assms(4,5) by (auto simp: detect_epoch_gap_def)
  then have "apply_commit_with_recovery x g target cs = Some (g2, Inr ctx)"
    using g1(1) g2(1) eps by (simp add: apply_commit_with_recovery_def Let_def del: map_map)
  moreover have "apply_commits x g (?cs @ [target]) = Some (g2, Inr ())"
    using g1(1) g2(1) by (simp add: apply_commits_append)
  ultimately show ?thesis using g2(2) by blast
qed

theorem recovery_applies_in_epoch_order_witness:
  "\<exists>g' ctx. apply_commit_with_recovery toy_crypto sample_group (Commit_new 4) [Commit_new 3, Commit_new 2] =
      Some (g', Inr ctx) \<and> g_epoch g' = 4"
proof -
  have "\<exists>g' ctx. apply_commit_with_recovery toy_crypto sample_group (Commit_new 4) [Commit_new 3, Commit_new 2] =
      Some (g', Inr ctx) \<and> g_epoch g' = cm_epoch (Commit_new 4) \<and>
      apply_commits toy_crypto sample_group (sort_key cm_epoch [Commit_new 3, Commit_new 2] @ [Commit_new 4]) =
        Some (g', Inr ())"
  proof (rule recovery_applies_in_epoch_order)
    have ep: "g_epoch sample_group = 1" using sample_group_reachable by simp
    show "group_inv sample_group" by (rule sample_group_inv)
    show "\<forall>c \<in> set [Commit_new 3, Commit_new 2]. benign c" "benign (Commit_new 4)"
      by (simp_all add: benign_def Commit_new_def)
    show "g_epoch sample_group < cm_epoch (Commit_new 4)" "cm_epoch (Commit_new 4) \<noteq> g_epoch sample_group + 1"
      by (simp_all add: ep Commit_new_def)
    have "[2 ..< 4] = [2, 3 :: nat]" by (simp add: upt_rec)
    then show "mset (map cm_epoch [Commit_new 3, Commit_new 2]) =
        mset (map word_of_nat [unat (g_epoch sample_group + 1) ..< unat (cm_epoch (Commit_new 4))])"
      by (simp add: ep Commit_new_def)
  qed
  then show ?thesis by (auto simp: Commit_new_def)
qed

lemma derive_aead_ok:
  assumes "sha256_len x"
  shows "\<exists>k. derive_aead_key x h gs s m = Inr k" "\<exists>n. derive_aead_nonce x h gs s m = Inr n"
  using assms by (cases h; simp add: derive_aead_key_def derive_aead_nonce_def derive_message_metadata_hash_def
      hash_bytes_def get_prefix_def sha256_len_def)+

text \<open>C31. Message confidentiality path: what a member encrypts, any holder of the same group state
  decrypts to the same plaintext, and after a further commit the message is refused for its epoch.\<close>

theorem encrypt_decrypt_round_trip:
  assumes "aead_correct x" "group_encrypt x g sender n p = Inr m"
  shows "group_decrypt x g sender n m = Inr p \<and>
    (\<forall>c g' ctx. apply_commit x g c = Some (g', Inr ctx) \<and> sender \<in> set (g_members g') \<longrightarrow>
      group_decrypt x g' sender n m = Inl (Validation (EpochMismatch (g_epoch g + 1) (g_epoch g))))"
proof -
  have d: "group_decrypt x g sender n m = Inr p"
    using assms by (auto simp: group_encrypt_def group_decrypt_def validate_message_def aead_correct_def)
  have e: "gm_epoch m = g_epoch g" using assms(2) by (auto simp: group_encrypt_def)
  have "group_decrypt x g' sender n m = Inl (Validation (EpochMismatch (g_epoch g + 1) (g_epoch g)))"
    if "apply_commit x g c = Some (g', Inr ctx)" "sender \<in> set (g_members g')" for c g' ctx
    using apply_commit_Inr [OF that(1)] that(2) e
    by (simp add: group_decrypt_def ensure_member_def list_ex_iff validate_message_def map_err_def)
  with d show ?thesis by blast
qed


lemma sample_encrypted: "\<exists>m. group_encrypt toy_crypto sample_group ''al'' 1 [7] = Inr m"
proof -
  let ?gs = "sec_group_secret (g_secrets sample_group)" and ?h = "g_hash_id sample_group"
  obtain k n where "derive_aead_key toy_crypto ?h ?gs ''al'' 1 = Inr k"
      "derive_aead_nonce toy_crypto ?h ?gs ''al'' 1 = Inr n"
    using derive_aead_ok [OF toy_crypto_laws(1)] by blast
  then show ?thesis using sample_group_reachable by (simp add: group_encrypt_def ensure_member_def toy_crypto_def)
qed

theorem encrypt_decrypt_round_trip_witness:
  "\<exists>m. group_encrypt toy_crypto sample_group ''al'' 1 [7] = Inr m \<and>
    group_decrypt toy_crypto sample_group ''al'' 1 m = Inr [7]"
proof -
  obtain m where m: "group_encrypt toy_crypto sample_group ''al'' 1 [7] = Inr m" using sample_encrypted by blast
  with encrypt_decrypt_round_trip [OF toy_crypto_laws(4) m] show ?thesis by blast
qed



text \<open>Distinct messages never share key or nonce material: for one group secret, the byte string
  hashed to a key or a nonce determines the sender, the message number and which of the two it is.\<close>

theorem aead_material_injective:
  assumes "label \<in> {''key'', ''nonce''}" "label' \<in> {''key'', ''nonce''}"
    and "message_metadata gs sender n label = message_metadata gs sender' n' label'"
  shows "sender = sender' \<and> n = n' \<and> label = label'"
proof -
  have eq: "str_bytes sender @ u64be n @ str_bytes label = str_bytes sender' @ u64be n' @ str_bytes label'"
    using assms(3) by (simp add: message_metadata_def)
  have ne: "str_bytes label \<noteq> []" "str_bytes label' \<noteq> []"
    using assms(1,2) by (auto simp: str_bytes_def)
  have "last (str_bytes label) = last (str_bytes label')"
    using arg_cong [OF eq, of last] ne by simp
  moreover have "last (str_bytes ''key'') \<noteq> last (str_bytes ''nonce'')" by (simp add: str_bytes_def del: of_char_Char)
  ultimately have l: "label = label'" using assms(1,2) by auto
  then have cat: "str_bytes sender @ u64be n = str_bytes sender' @ u64be n'"
    using eq by (simp flip: append_assoc)
  moreover have "length (str_bytes sender) = length (str_bytes sender')"
    using arg_cong [OF cat, of length] by simp
  ultimately show ?thesis using l by simp
qed

theorem aead_material_injective_witness:
  "message_metadata [5] ''al'' 1 ''key'' = message_metadata [5] ([CHR ''a''] @ ''l'') 1 ''key'' \<and>
   message_metadata [5] ''al'' 1 ''key'' \<noteq> message_metadata [5] ''al'' 1 ''nonce'' \<and>
   message_metadata [5] ''al'' 1 ''key'' \<noteq> message_metadata [5] ''al'' 2 ''key''"
  using aead_material_injective [of "''key''" "''nonce''" "[5]" "''al''" 1 "''al''" 1]
    aead_material_injective [of "''key''" "''key''" "[5]" "''al''" 1 "''al''" 2] by auto

lemma next_group_secret:
  assumes "sec_epoch (g_secrets g) = g_epoch g" "apply_commit x g c = Some (g', Inr ctx)" "cm_group_secret c = None"
  shows "sec_group_secret (g_secrets g') =
    derive_group_secret x (g_hash_id g) (sec_group_secret (g_secrets g)) (g_epoch g + 1)"
proof -
  have h: "h = Sha256" for h by (cases h) simp
  have "next_secrets x h c = GroupSecrets_new (g_epoch g + 1)
      (derive_group_secret x (g_hash_id g) (sec_group_secret (g_secrets g)) (g_epoch g + 1))"
    if "g_secrets h = g_secrets g" "cm_epoch c = g_epoch g + 1" for h
    using that assms(1,3) h [of "g_hash_id h"] h [of "g_hash_id g"]
    by (simp add: next_secrets_def)
  then show ?thesis
    using assms(2) unfolding apply_commit_def finish_commit_def Let_def
    by (auto simp: GroupSecrets_new_def Option.bind_eq_Some_conv split: if_splits option.splits sum.splits)
qed

text \<open>C39. The two uses of the group secret are not separated.  Take a group whose secrets are of its epoch, as those
  of every reachable group are, and a member whose identifier spells the big-endian bytes of the next epoch.  Among
  the secrets distributed in the current epoch it gets, as its member secret, the group secret of the next epoch,
  for every accepted commit that carries no fresh secret, also one that removes it.\<close>

theorem member_secret_is_group_secret:
  assumes "sec_epoch (g_secrets g) = g_epoch g" "member_id \<in> set (g_members g)" "str_bytes member_id = u64be (g_epoch g + 1)"
    and "apply_commit x g c = Some (g', Inr ctx)" "cm_group_secret c = None"
  shows "\<lparr>mem_member_id = member_id, mem_secret = sec_group_secret (g_secrets g')\<rparr> \<in> set (distribute_secrets x g)"
  using assms(2,3) next_group_secret [OF assms(1,4,5)]
  by (auto simp: distribute_secrets_def derive_member_secret_def derive_group_secret_def intro!: image_eqI [of _ _ member_id])

theorem member_secret_is_group_secret_witness:
  "\<exists>g g' ctx. let eve = [CHR 0x00, CHR 0x00, CHR 0x00, CHR 0x00, CHR 0x00, CHR 0x00, CHR 0x00, CHR 0x02] in
     g_epoch g = 1 \<and> eve \<in> set (g_members g) \<and> eve \<notin> set (g_members g') \<and>
     apply_commit toy_crypto g ((Commit_new 2)\<lparr>cm_removed_members := [eve]\<rparr>) = Some (g', Inr ctx) \<and>
     \<lparr>mem_member_id = eve, mem_secret = sec_group_secret (g_secrets g')\<rparr> \<in> set (distribute_secrets toy_crypto g)"
proof -
  let ?eve = "[CHR 0x00, CHR 0x00, CHR 0x00, CHR 0x00, CHR 0x00, CHR 0x00, CHR 0x00, CHR 0x02]"
  let ?add = "(Commit_new 1)\<lparr>cm_added_members := [?eve]\<rparr>" and ?rem = "(Commit_new 2)\<lparr>cm_removed_members := [?eve]\<rparr>"
  have eve: "str_bytes ?eve = u64be 2"
    by (simp add: str_bytes_def u64be_def be_bytes_numeral numeral_2_eq_2 [symmetric])
  have b: "benign ?add" "benign ?rem" by (simp_all add: benign_def Commit_new_def)
  have e: "cm_epoch ?add = 1" "cm_epoch ?rem = 1 + 1" by (simp_all add: Commit_new_def)
  obtain g0 where g0: "group_inv g0" "g_epoch g0 = 0" "g_members g0 = []" using sample_created by blast
  then obtain g c1 where g: "apply_commit toy_crypto g0 ?add = Some (g, Inr c1)" "group_inv g" "g_epoch g = cm_epoch ?add"
    using apply_commit_succeeds [OF g0(1) b(1), of toy_crypto] e(1) by auto
  have m: "g_members g = [?eve]" "g_epoch g = 1"
    using apply_commit_Inr [OF g(1)] g0(3) g(3) by (simp_all add: Commit_new_def push_member_def)
  then obtain g' c2 where g': "apply_commit toy_crypto g ?rem = Some (g', Inr c2)"
    using apply_commit_succeeds [OF g(2) b(2), of toy_crypto] e(2) by auto
  have m': "g_members g' = []"
    using apply_commit_Inr [OF g'] m(1) by (simp add: Commit_new_def retain_member_def)
  have "\<lparr>mem_member_id = ?eve, mem_secret = sec_group_secret (g_secrets g')\<rparr> \<in> set (distribute_secrets toy_crypto g)"
    by (rule member_secret_is_group_secret [OF _ _ _ g']) (use g(2) in \<open>simp_all add: m eve Commit_new_def group_inv_def\<close>)
  then show ?thesis
    using m m' g' unfolding Let_def by (intro exI [of _ g] exI [of _ g'] exI [of _ c2]) simp
qed

end
