(* ===== verification/Mls_Rs.thy ===== *)
theory Mls_Rs
  imports Mls_Group
begin

text \<open>
  The integration with the \<open>mls-rs\<close> library, \<open>spex-mls/src/lib.rs\<close>, lines 553 to 1141: group context
  extensions, the client and group wrappers, and the processing of external commits with epoch checks
  and resynchronization.

  The library itself is third-party: its operations are the fields of a record \<open>mls_lib\<close> over its
  client, group, message, ratchet tree and commit types.  An operation on \<open>&mut Group\<close> gives the
  group it leaves with its result.
\<close>

record ('cl, 'g, 'm, 'tree, 'd) mls_lib =
  lib_supported :: "u16 \<Rightarrow> bool"
  lib_provider :: "u16 \<Rightarrow> bool"
  lib_build_client :: "u16 \<Rightarrow> bytes \<Rightarrow> string + 'cl"
  lib_parse_message :: "bytes \<Rightarrow> string + 'm"
  lib_key_package :: "'cl \<Rightarrow> string + 'm"
  lib_create_group :: "'cl \<Rightarrow> (u16 \<times> bytes) list \<Rightarrow> string + 'g"
  lib_join_group :: "'cl \<Rightarrow> 'tree option \<Rightarrow> 'm \<Rightarrow> string + 'g"
  lib_external_commit :: "'cl \<Rightarrow> 'tree option \<Rightarrow> 'm \<Rightarrow> string + ('g \<times> 'm)"
  lib_extension :: "'g \<Rightarrow> u16 \<Rightarrow> bytes option"
  lib_epoch :: "'g \<Rightarrow> u64"
  lib_roster :: "'g \<Rightarrow> (u32 \<times> bytes option) list"
  lib_process :: "'m \<Rightarrow> 'g \<Rightarrow> 'g \<times> (string + 'd option)"
  lib_commit_add :: "'m \<Rightarrow> 'g \<Rightarrow> 'g \<times> (string + 'd)"
  lib_commit_remove :: "u32 \<Rightarrow> 'g \<Rightarrow> 'g \<times> (string + 'd)"
  lib_commit_update :: "'g \<Rightarrow> 'g \<times> (string + 'd)"
  lib_apply_pending :: "'g \<Rightarrow> 'g \<times> (string + unit)"
  lib_group_info :: "bool \<Rightarrow> 'g \<Rightarrow> string + 'm"
  lib_export_tree :: "'g \<Rightarrow> 'tree"

datatype MlsRsError =
    UnsupportedProtocolVersion u16 u16
  | UnsupportedCipherSuite u16
  | UnsupportedCfgHashId u16
  | InvalidExtension string
  | RsUnknownMember
  | RsValidation ValidationError
  | LibraryError string
  | MalformedExternalCommit string
  | RsOutOfOrderCommit CommitOrderError

fun MlsRsError_to_string :: "MlsRsError \<Rightarrow> string" where
  "MlsRsError_to_string (UnsupportedProtocolVersion major minor) =
    ''unsupported protocol version '' @ show_nat (unat major) @ ''.'' @ show_nat (unat minor)"
| "MlsRsError_to_string (UnsupportedCipherSuite v) = ''unsupported cipher suite: '' @ show_nat (unat v)"
| "MlsRsError_to_string (UnsupportedCfgHashId v) = ''unsupported cfg_hash id: '' @ show_nat (unat v)"
| "MlsRsError_to_string (InvalidExtension reason) = ''invalid MLS extension: '' @ reason"
| "MlsRsError_to_string RsUnknownMember = ''unknown MLS member''"
| "MlsRsError_to_string (RsValidation e) = ''validation error: '' @ ValidationError_debug e"
| "MlsRsError_to_string (LibraryError e) = ''mls-rs error: '' @ e"
| "MlsRsError_to_string (MalformedExternalCommit e) = ''malformed external commit: '' @ e"
| "MlsRsError_to_string (RsOutOfOrderCommit e) =
    ''out-of-order external commit: expected epoch '' @ show_nat (unat (coe_expected_epoch e)) @ '', received '' @
    show_nat (unat (coe_received_epoch e))"

record 'm ExternalCommit =
  xc_epoch :: u64
  xc_message :: 'm

record 'cl MlsRsClient =
  mc_client :: 'cl
  mc_proto_suite :: ProtoSuite

record 'g MlsRsGroup =
  mg_group :: 'g
  mg_config :: GroupConfig

section \<open>Extensions\<close>

definition u16_from_be :: "u8 \<Rightarrow> u8 \<Rightarrow> u16" where
  "u16_from_be a b = word_of_nat (be_nat [a, b])"

definition strip_extension_data :: "bytes \<Rightarrow> u16 \<Rightarrow> MlsRsError + bytes" where
  "strip_extension_data raw expected_type =
    (if length raw < 4 then Inl (InvalidExtension ''extension payload is too short'')
     else if u16_from_be (raw ! 0) (raw ! 1) \<noteq> expected_type then Inl (InvalidExtension ''extension type mismatch'')
     else if length raw \<noteq> 4 + unat (u16_from_be (raw ! 2) (raw ! 3))
     then Inl (InvalidExtension ''extension length mismatch'')
     else Inr (drop 4 raw))"

definition parse_proto_suite_extension :: "bytes \<Rightarrow> MlsRsError + (ProtoSuite \<times> u8)" where
  "parse_proto_suite_extension data =
    (if length data \<noteq> 7 then Inl (InvalidExtension ''proto suite extension length mismatch'')
     else Inr (\<lparr>ps_major = u16_from_be (data ! 0) (data ! 1), ps_minor = u16_from_be (data ! 2) (data ! 3),
                ps_ciphersuite_id = u16_from_be (data ! 4) (data ! 5)\<rparr>, data ! 6))"

definition parse_cfg_hash_extension :: "bytes \<Rightarrow> MlsRsError + (u16 \<times> bytes)" where
  "parse_cfg_hash_extension data =
    (if length data < 3 then Inl (InvalidExtension ''cfg_hash extension is too short'')
     else if length data \<noteq> 3 + unat (data ! 2) then Inl (InvalidExtension ''cfg_hash extension length mismatch'')
     else Inr (u16_from_be (data ! 0) (data ! 1), drop 3 data))"

text \<open>The guard keeps \<open>ext_cfg_hash_bytes\<close> from panicking; the list is the one given to the library.\<close>

definition build_group_context_extensions :: "GroupConfig \<Rightarrow> MlsRsError + (u16 \<times> bytes) list" where
  "build_group_context_extensions config =
    (if length (cfg_cfg_hash config) > 255 then Inl (InvalidExtension ''cfg_hash length exceeds 255 bytes'')
     else
       let suite = cfg_proto_suite config;
           proto_extension = ext_proto_suite_bytes (ps_major suite) (ps_minor suite) (ps_ciphersuite_id suite)
             (cfg_flags config)
       in case ext_cfg_hash_bytes (cfg_cfg_hash_id config) (cfg_cfg_hash config) of
            None \<Rightarrow> Inl (InvalidExtension ''cfg_hash length exceeds 255 bytes'')
          | Some cfg_extension \<Rightarrow>
              bind_res (strip_extension_data proto_extension EXT_SPEX_PROTO_SUITE) (\<lambda>proto_data.
              bind_res (strip_extension_data cfg_extension EXT_SPEX_CFG_HASH) (\<lambda>cfg_data.
              Inr [(EXT_SPEX_PROTO_SUITE, proto_data), (EXT_SPEX_CFG_HASH, cfg_data)])))"

definition group_config_from_context :: "(u16 \<Rightarrow> bytes option) \<Rightarrow> MlsRsError + GroupConfig" where
  "group_config_from_context get =
    bind_res (ok_or (InvalidExtension ''missing proto suite extension'') (get EXT_SPEX_PROTO_SUITE)) (\<lambda>proto_ext.
    bind_res (ok_or (InvalidExtension ''missing cfg_hash extension'') (get EXT_SPEX_CFG_HASH)) (\<lambda>cfg_ext.
    bind_res (parse_proto_suite_extension proto_ext) (\<lambda>(suite, flags).
    bind_res (parse_cfg_hash_extension cfg_ext) (\<lambda>(cfg_hash_id, cfg_hash).
    Inr (GroupConfig_new suite flags cfg_hash_id cfg_hash)))))"

definition validate_group_context_extensions :: "(u16 \<Rightarrow> bytes option) \<Rightarrow> GroupConfig \<Rightarrow> MlsRsError + unit" where
  "validate_group_context_extensions get config =
    bind_res (ok_or (InvalidExtension ''missing proto suite extension'') (get EXT_SPEX_PROTO_SUITE)) (\<lambda>proto_ext.
    bind_res (ok_or (InvalidExtension ''missing cfg_hash extension'') (get EXT_SPEX_CFG_HASH)) (\<lambda>cfg_ext.
    bind_res (parse_proto_suite_extension proto_ext) (\<lambda>(suite, flags).
    if suite \<noteq> cfg_proto_suite config \<or> flags \<noteq> cfg_flags config then Inl (RsValidation ProtoSuiteMismatch)
    else bind_res (parse_cfg_hash_extension cfg_ext) (\<lambda>(hash_id, cfg_hash).
      if hash_id \<noteq> cfg_cfg_hash_id config \<or> cfg_hash \<noteq> cfg_cfg_hash config then Inl (RsValidation CfgHashMismatch)
      else Inr ()))))"

definition validate_cfg_hash_id :: "u16 \<Rightarrow> MlsRsError + unit" where
  "validate_cfg_hash_id cfg_hash_id =
    (case hash_id_from_u16 cfg_hash_id of Inr _ \<Rightarrow> Inr () | Inl _ \<Rightarrow> Inl (UnsupportedCfgHashId cfg_hash_id))"

datatype ProtocolVersion = MLS_10

definition protocol_version_from_proto_suite :: "ProtoSuite \<Rightarrow> MlsRsError + ProtocolVersion" where
  "protocol_version_from_proto_suite suite =
    (if ps_major suite = 0 \<and> ps_minor suite = 1 then Inr MLS_10
     else Inl (UnsupportedProtocolVersion (ps_major suite) (ps_minor suite)))"

definition cipher_suite_from_proto_suite :: "('cl, 'g, 'm, 'tree, 'd) mls_lib \<Rightarrow> ProtoSuite \<Rightarrow> MlsRsError + u16" where
  "cipher_suite_from_proto_suite lib suite =
    (if lib_supported lib (ps_ciphersuite_id suite) then Inr (ps_ciphersuite_id suite)
     else Inl (UnsupportedCipherSuite (ps_ciphersuite_id suite)))"

section \<open>The client\<close>

definition parse_external_commit ::
    "('cl, 'g, 'm, 'tree, 'd) mls_lib \<Rightarrow> bytes \<Rightarrow> u64 \<Rightarrow> MlsRsError + 'm ExternalCommit" where
  "parse_external_commit lib bs epoch =
    bind_res (map_err MalformedExternalCommit (lib_parse_message lib bs)) (\<lambda>message.
    Inr \<lparr>xc_epoch = epoch, xc_message = message\<rparr>)"

definition MlsRsClient_new ::
    "('cl, 'g, 'm, 'tree, 'd) mls_lib \<Rightarrow> ProtoSuite \<Rightarrow> bytes \<Rightarrow> MlsRsError + 'cl MlsRsClient" where
  "MlsRsClient_new lib suite ident =
    bind_res (cipher_suite_from_proto_suite lib suite) (\<lambda>cipher_suite.
    bind_res (protocol_version_from_proto_suite suite) (\<lambda>_.
    bind_res (guard_res (UnsupportedCipherSuite (ps_ciphersuite_id suite)) (lib_provider lib cipher_suite)) (\<lambda>_.
    bind_res (map_err LibraryError (lib_build_client lib cipher_suite ident)) (\<lambda>client.
    Inr \<lparr>mc_client = client, mc_proto_suite = suite\<rparr>))))"

definition key_package_message :: "('cl, 'g, 'm, 'tree, 'd) mls_lib \<Rightarrow> 'cl MlsRsClient \<Rightarrow> MlsRsError + 'm" where
  "key_package_message lib c = map_err LibraryError (lib_key_package lib (mc_client c))"

definition create_group ::
    "('cl, 'g, 'm, 'tree, 'd) mls_lib \<Rightarrow> 'cl MlsRsClient \<Rightarrow> GroupConfig \<Rightarrow> MlsRsError + 'g MlsRsGroup" where
  "create_group lib c config =
    bind_res (validate_cfg_hash_id (cfg_cfg_hash_id config)) (\<lambda>_.
    if cfg_proto_suite config \<noteq> mc_proto_suite c then Inl (RsValidation ProtoSuiteMismatch)
    else
      bind_res (build_group_context_extensions config) (\<lambda>exts.
      bind_res (map_err LibraryError (lib_create_group lib (mc_client c) exts)) (\<lambda>group.
      Inr \<lparr>mg_group = group, mg_config = config\<rparr>)))"

definition join_group ::
    "('cl, 'g, 'm, 'tree, 'd) mls_lib \<Rightarrow> 'cl MlsRsClient \<Rightarrow> 'm \<Rightarrow> 'tree option \<Rightarrow> MlsRsError + 'g MlsRsGroup" where
  "join_group lib c welcome tree =
    bind_res (map_err LibraryError (lib_join_group lib (mc_client c) tree welcome)) (\<lambda>group.
    bind_res (group_config_from_context (lib_extension lib group)) (\<lambda>config.
    Inr \<lparr>mg_group = group, mg_config = config\<rparr>))"

definition resync_from_group_info ::
    "('cl, 'g, 'm, 'tree, 'd) mls_lib \<Rightarrow> 'cl MlsRsClient \<Rightarrow> 'm \<Rightarrow> 'tree option \<Rightarrow>
      MlsRsError + ('g MlsRsGroup \<times> 'm)" where
  "resync_from_group_info lib c group_info tree =
    bind_res (map_err LibraryError (lib_external_commit lib (mc_client c) tree group_info)) (\<lambda>(group, commit_message).
    bind_res (group_config_from_context (lib_extension lib group)) (\<lambda>config.
    Inr (\<lparr>mg_group = group, mg_config = config\<rparr>, commit_message)))"

section \<open>The group\<close>

text \<open>Build a commit, then apply it as pending.\<close>

definition build_and_apply ::
    "('cl, 'g, 'm, 'tree, 'd) mls_lib \<Rightarrow> ('g \<Rightarrow> 'g \<times> (string + 'd)) \<Rightarrow> 'g MlsRsGroup \<Rightarrow>
      'g MlsRsGroup \<times> (MlsRsError + 'd)" where
  "build_and_apply lib build mg =
    (case build (mg_group mg) of
       (g1, Inl e) \<Rightarrow> (mg\<lparr>mg_group := g1\<rparr>, Inl (LibraryError e))
     | (g1, Inr commit) \<Rightarrow>
         (case lib_apply_pending lib g1 of
            (g2, Inl e) \<Rightarrow> (mg\<lparr>mg_group := g2\<rparr>, Inl (LibraryError e))
          | (g2, Inr _) \<Rightarrow> (mg\<lparr>mg_group := g2\<rparr>, Inr commit)))"

definition rs_add_member ::
    "('cl, 'g, 'm, 'tree, 'd) mls_lib \<Rightarrow> 'cl MlsRsClient \<Rightarrow> 'g MlsRsGroup \<Rightarrow> 'g MlsRsGroup \<times> (MlsRsError + 'd)" where
  "rs_add_member lib member mg =
    (case key_package_message lib member of
       Inl e \<Rightarrow> (mg, Inl e)
     | Inr key_package \<Rightarrow> build_and_apply lib (lib_commit_add lib key_package) mg)"

definition group_info_message_allowing_external_commit ::
    "('cl, 'g, 'm, 'tree, 'd) mls_lib \<Rightarrow> bool \<Rightarrow> 'g MlsRsGroup \<Rightarrow> MlsRsError + 'm" where
  "group_info_message_allowing_external_commit lib include_tree mg =
    map_err LibraryError (lib_group_info lib include_tree (mg_group mg))"

definition export_tree :: "('cl, 'g, 'm, 'tree, 'd) mls_lib \<Rightarrow> 'g MlsRsGroup \<Rightarrow> 'tree" where
  "export_tree lib mg = lib_export_tree lib (mg_group mg)"

definition member_identities :: "('cl, 'g, 'm, 'tree, 'd) mls_lib \<Rightarrow> 'g MlsRsGroup \<Rightarrow> bytes list" where
  "member_identities lib mg = List.map_filter snd (lib_roster lib (mg_group mg))"

definition member_index_by_identity :: "('cl, 'g, 'm, 'tree, 'd) mls_lib \<Rightarrow> 'g MlsRsGroup \<Rightarrow> bytes \<Rightarrow> u32 option" where
  "member_index_by_identity lib mg ident =
    map_option fst (find (\<lambda>(_, i). i = Some ident) (lib_roster lib (mg_group mg)))"

definition remove_member_by_identity ::
    "('cl, 'g, 'm, 'tree, 'd) mls_lib \<Rightarrow> bytes \<Rightarrow> 'g MlsRsGroup \<Rightarrow> 'g MlsRsGroup \<times> (MlsRsError + 'd)" where
  "remove_member_by_identity lib ident mg =
    (case member_index_by_identity lib mg ident of
       None \<Rightarrow> (mg, Inl RsUnknownMember)
     | Some index \<Rightarrow> build_and_apply lib (lib_commit_remove lib index) mg)"

definition self_update ::
    "('cl, 'g, 'm, 'tree, 'd) mls_lib \<Rightarrow> 'g MlsRsGroup \<Rightarrow> 'g MlsRsGroup \<times> (MlsRsError + 'd)" where
  "self_update lib mg = build_and_apply lib (lib_commit_update lib) mg"

definition process_commit_message ::
    "('cl, 'g, 'm, 'tree, 'd) mls_lib \<Rightarrow> 'm \<Rightarrow> 'g MlsRsGroup \<Rightarrow> 'g MlsRsGroup \<times> (MlsRsError + 'd)" where
  "process_commit_message lib message mg =
    (case lib_process lib message (mg_group mg) of
       (g, Inl e) \<Rightarrow> (mg\<lparr>mg_group := g\<rparr>, Inl (LibraryError e))
     | (g, Inr (Some description)) \<Rightarrow> (mg\<lparr>mg_group := g\<rparr>, Inr description)
     | (g, Inr None) \<Rightarrow> (mg\<lparr>mg_group := g\<rparr>, Inl (LibraryError ''unexpected MLS message type'')))"

definition rs_epoch :: "('cl, 'g, 'm, 'tree, 'd) mls_lib \<Rightarrow> 'g MlsRsGroup \<Rightarrow> u64" where
  "rs_epoch lib mg = lib_epoch lib (mg_group mg)"

definition detect_external_commit_gap :: "('cl, 'g, 'm, 'tree, 'd) mls_lib \<Rightarrow> 'g MlsRsGroup \<Rightarrow> u64 \<Rightarrow> EpochGap" where
  "detect_external_commit_gap lib mg incoming_epoch = detect_epoch_gap (rs_epoch lib mg) incoming_epoch"

definition process_external_commit_explicit ::
    "('cl, 'g, 'm, 'tree, 'd) mls_lib \<Rightarrow> 'm ExternalCommit \<Rightarrow> 'g MlsRsGroup \<Rightarrow> 'g MlsRsGroup \<times> (MlsRsError + 'd)" where
  "process_external_commit_explicit lib xc mg =
    (case detect_external_commit_gap lib mg (xc_epoch xc) of
       Next \<Rightarrow> process_commit_message lib (xc_message xc) mg
     | _ \<Rightarrow> (mg, Inl (RsOutOfOrderCommit
              \<lparr>coe_expected_epoch = rs_epoch lib mg + 1, coe_received_epoch = xc_epoch xc\<rparr>)))"

fun process_explicit_all ::
    "('cl, 'g, 'm, 'tree, 'd) mls_lib \<Rightarrow> 'm ExternalCommit list \<Rightarrow> 'g MlsRsGroup \<Rightarrow> 'g MlsRsGroup \<times> (MlsRsError + unit)" where
  "process_explicit_all lib [] mg = (mg, Inr ())"
| "process_explicit_all lib (c # cs) mg =
    (case process_external_commit_explicit lib c mg of
       (mg', Inl e) \<Rightarrow> (mg', Inl e)
     | (mg', Inr _) \<Rightarrow> process_explicit_all lib cs mg')"

definition process_external_commit_with_resync ::
    "('cl, 'g, 'm, 'tree, 'd) mls_lib \<Rightarrow> (u64 \<Rightarrow> u64 \<Rightarrow> MlsRsError + 'm ExternalCommit list) \<Rightarrow>
      'm ExternalCommit \<Rightarrow> 'g MlsRsGroup \<Rightarrow> 'g MlsRsGroup \<times> (MlsRsError + 'd)" where
  "process_external_commit_with_resync lib fetch_missing xc mg =
    (case detect_external_commit_gap lib mg (xc_epoch xc) of
       Next \<Rightarrow> process_external_commit_explicit lib xc mg
     | Gap expected found missing \<Rightarrow>
         (case fetch_missing expected found of
            Inl e \<Rightarrow> (mg, Inl e)
          | Inr fetched \<Rightarrow>
              let commits = sort_key xc_epoch fetched in
              if map xc_epoch commits \<noteq> missing
              then (mg, Inl (RsOutOfOrderCommit \<lparr>coe_expected_epoch = expected, coe_received_epoch = found\<rparr>))
              else
                (case process_explicit_all lib commits mg of
                   (mg', Inl e) \<Rightarrow> (mg', Inl e)
                 | (mg', Inr _) \<Rightarrow> process_external_commit_explicit lib xc mg'))
     | _ \<Rightarrow> (mg, Inl (RsOutOfOrderCommit
              \<lparr>coe_expected_epoch = rs_epoch lib mg + 1, coe_received_epoch = xc_epoch xc\<rparr>)))"

definition validate_cfg_hash_proto_suite ::
    "('cl, 'g, 'm, 'tree, 'd) mls_lib \<Rightarrow> 'g MlsRsGroup \<Rightarrow> MlsRsError + unit" where
  "validate_cfg_hash_proto_suite lib mg =
    validate_group_context_extensions (lib_extension lib (mg_group mg)) (mg_config mg)"

section \<open>Properties\<close>

lemma u16be_bytes: "\<exists>a b. u16be v = [a, b] \<and> u16_from_be a b = v"
proof -
  obtain a b where ab: "u16be v = [a, b]"
    by (simp add: u16be_def be_bytes_numeral)
  have "be_nat (u16be v) = unat v"
    using unsigned_less [of v, where 'a = nat] by (simp add: u16be_def be_nat_be_bytes del: be_bytes.simps)
  with ab show ?thesis by (simp add: u16_from_be_def del: be_nat_Cons)
qed

lemma strip_extension:
  assumes "length data < 65536"
  shows "strip_extension_data (u16be t @ u16be (word_of_nat (length data)) @ data) t = Inr data"
proof -
  obtain a b where t: "u16be t = [a, b]" "u16_from_be a b = t" using u16be_bytes by blast
  obtain c d where l: "u16be (word_of_nat (length data)) = [c, d]" "u16_from_be c d = word_of_nat (length data)"
    using u16be_bytes by blast
  have "unat (word_of_nat (length data) :: u16) = length data" using assms by (simp add: unat_of_nat)
  then show ?thesis by (simp add: strip_extension_data_def t l)
qed

lemma parse_proto_suite:
  "parse_proto_suite_extension (u16be (ps_major s) @ u16be (ps_minor s) @ u16be (ps_ciphersuite_id s) @ [f]) = Inr (s, f)"
proof -
  obtain a b where 1: "u16be (ps_major s) = [a, b]" "u16_from_be a b = ps_major s" using u16be_bytes by blast
  obtain c d where 2: "u16be (ps_minor s) = [c, d]" "u16_from_be c d = ps_minor s" using u16be_bytes by blast
  obtain e g where 3: "u16be (ps_ciphersuite_id s) = [e, g]" "u16_from_be e g = ps_ciphersuite_id s"
    using u16be_bytes by blast
  show ?thesis unfolding parse_proto_suite_extension_def 1 2 3 by (simp add: 1 2 3)
qed

lemma parse_cfg_hash:
  assumes "length h \<le> 255"
  shows "parse_cfg_hash_extension (u16be i @ [word_of_nat (length h)] @ h) = Inr (i, h)"
proof -
  obtain a b where 1: "u16be i = [a, b]" "u16_from_be a b = i" using u16be_bytes by blast
  have "unat (word_of_nat (length h) :: u8) = length h" using assms by (simp add: unat_of_nat)
  then show ?thesis by (simp add: parse_cfg_hash_extension_def 1)
qed

lemma build_extensions:
  assumes "length (cfg_cfg_hash config) \<le> 255"
  shows "build_group_context_extensions config =
    Inr [(EXT_SPEX_PROTO_SUITE, u16be (ps_major (cfg_proto_suite config)) @ u16be (ps_minor (cfg_proto_suite config)) @
          u16be (ps_ciphersuite_id (cfg_proto_suite config)) @ [cfg_flags config]),
         (EXT_SPEX_CFG_HASH, u16be (cfg_cfg_hash_id config) @ [word_of_nat (length (cfg_cfg_hash config))] @ cfg_cfg_hash config)]"
proof -
  let ?s = "cfg_proto_suite config"
  let ?p = "u16be (ps_major ?s) @ u16be (ps_minor ?s) @ u16be (ps_ciphersuite_id ?s) @ [cfg_flags config]"
  let ?c = "u16be (cfg_cfg_hash_id config) @ [word_of_nat (length (cfg_cfg_hash config))] @ cfg_cfg_hash config"
  have "strip_extension_data (u16be EXT_SPEX_PROTO_SUITE @ u16be (word_of_nat (length ?p)) @ ?p) EXT_SPEX_PROTO_SUITE = Inr ?p"
    by (rule strip_extension) simp
  moreover have "strip_extension_data (u16be EXT_SPEX_CFG_HASH @ u16be (word_of_nat (length ?c)) @ ?c) EXT_SPEX_CFG_HASH = Inr ?c"
    by (rule strip_extension) (use assms in simp)
  moreover have "ext_proto_suite_bytes (ps_major ?s) (ps_minor ?s) (ps_ciphersuite_id ?s) (cfg_flags config) =
      u16be EXT_SPEX_PROTO_SUITE @ u16be (word_of_nat (length ?p)) @ ?p"
    by (simp only: ext_proto_suite_bytes_def Let_def)
  moreover have "ext_cfg_hash_bytes (cfg_cfg_hash_id config) (cfg_cfg_hash config) =
      Some (u16be EXT_SPEX_CFG_HASH @ u16be (word_of_nat (length ?c)) @ ?c)"
    using assms by (simp only: ext_cfg_hash_bytes_def Let_def if_True)
  ultimately show ?thesis
    using assms by (simp only: build_group_context_extensions_def Let_def not_less [symmetric] if_False option.case bind_res_simps)
qed

text \<open>C32. Group context extensions round trip: from a configuration whose hash fits, the extensions
  built for the library parse back to the same suite, flags, hash identifier and hash, and pass the
  validation against that configuration.\<close>

theorem group_extensions_round_trip:
  assumes "length (cfg_cfg_hash config) \<le> 255"
  shows "\<exists>exts. build_group_context_extensions config = Inr exts \<and>
    group_config_from_context (map_of exts) = Inr (config\<lparr>cfg_initial_secret := None\<rparr>) \<and>
    validate_group_context_extensions (map_of exts) config = Inr ()"
  using parse_cfg_hash [OF assms] parse_proto_suite
  by (simp add: build_extensions [OF assms] group_config_from_context_def validate_group_context_extensions_def
      EXT_SPEX_PROTO_SUITE_def EXT_SPEX_CFG_HASH_def GroupConfig_new_def)

theorem group_extensions_round_trip_witness:
  "\<exists>exts. build_group_context_extensions (GroupConfig_new sample_suite 3 1 [9, 8]) = Inr exts \<and>
    group_config_from_context (map_of exts) = Inr (GroupConfig_new sample_suite 3 1 [9, 8])"
  using group_extensions_round_trip [of "GroupConfig_new sample_suite 3 1 [9, 8]"] by (auto simp: GroupConfig_new_def)

text \<open>The library advances the epoch by one when it processes a commit.\<close>

definition lib_advances :: "('cl, 'g, 'm, 'tree, 'd) mls_lib \<Rightarrow> bool" where
  "lib_advances lib \<longleftrightarrow> (\<forall>m g g' d. lib_process lib m g = (g', Inr (Some d)) \<longrightarrow> lib_epoch lib g' = lib_epoch lib g + 1)"

lemma explicit_epoch:
  assumes "lib_advances lib" "process_external_commit_explicit lib xc mg = (mg', Inr d)"
  shows "rs_epoch lib mg' = xc_epoch xc \<and> xc_epoch xc = rs_epoch lib mg + 1"
proof -
  have ep: "xc_epoch xc = rs_epoch lib mg + 1" "process_commit_message lib (xc_message xc) mg = (mg', Inr d)"
    using assms(2)
    by (auto simp: process_external_commit_explicit_def detect_external_commit_gap_def detect_epoch_gap_def split: if_splits)
  then obtain g where "lib_process lib (xc_message xc) (mg_group mg) = (g, Inr (Some d))" "mg' = mg\<lparr>mg_group := g\<rparr>"
    by (auto simp: process_commit_message_def split: prod.splits sum.splits option.splits)
  with assms(1) ep(1) show ?thesis
    unfolding lib_advances_def rs_epoch_def by (metis MlsRsGroup.select_convs(1) MlsRsGroup.surjective MlsRsGroup.update_convs(1))
qed

text \<open>Resynchronization is exact: when it succeeds the group is at the epoch of the external commit,
  reached by commits fetched for exactly the missing epochs; a stale, current or incompletely fetched
  external commit leaves the group untouched.\<close>

theorem resync_reaches_commit_epoch:
  assumes "lib_advances lib" "process_external_commit_with_resync lib fetch xc mg = (mg', r)"
  shows "case r of
      Inr d \<Rightarrow> rs_epoch lib mg' = xc_epoch xc \<and>
        (case detect_external_commit_gap lib mg (xc_epoch xc) of
           Next \<Rightarrow> True
         | Gap expected found missing \<Rightarrow>
             (\<exists>cs. fetch expected found = Inr cs \<and> map xc_epoch (sort_key xc_epoch cs) = missing)
         | _ \<Rightarrow> False)
    | Inl e \<Rightarrow>
        (case detect_external_commit_gap lib mg (xc_epoch xc) of
           Next \<Rightarrow> True
         | Gap expected found missing \<Rightarrow>
             (case fetch expected found of
                Inl _ \<Rightarrow> mg' = mg
              | Inr cs \<Rightarrow> map xc_epoch (sort_key xc_epoch cs) = missing \<or> mg' = mg)
         | _ \<Rightarrow> mg' = mg)"
proof (cases "detect_external_commit_gap lib mg (xc_epoch xc)")
  case (Gap e f ms)
  show ?thesis
  proof (cases "fetch e f")
    case (Inr cs)
    show ?thesis
      using assms Gap Inr explicit_epoch [OF assms(1)]
      by (auto simp: process_external_commit_with_resync_def Let_def split: if_splits prod.splits sum.splits)
  qed (use assms Gap in \<open>auto simp: process_external_commit_with_resync_def\<close>)
next
  case Next
  with assms show ?thesis
    using explicit_epoch [OF assms(1), of xc mg mg']
    by (auto simp: process_external_commit_with_resync_def split: sum.split)
qed (use assms in \<open>auto simp: process_external_commit_with_resync_def\<close>)

text \<open>A counter as a library: a group is its epoch, and every message is a commit.\<close>

definition counter_lib :: "(unit, u64, unit, unit, unit) mls_lib" where
  "counter_lib = \<lparr>lib_supported = (\<lambda>_. True), lib_provider = (\<lambda>_. True), lib_build_client = (\<lambda>_ _. Inr ()),
    lib_parse_message = (\<lambda>_. Inr ()), lib_key_package = (\<lambda>_. Inr ()), lib_create_group = (\<lambda>_ _. Inr 0),
    lib_join_group = (\<lambda>_ _ _. Inr 0), lib_external_commit = (\<lambda>_ _ _. Inr (0, ())), lib_extension = (\<lambda>_ _. None),
    lib_epoch = (\<lambda>g. g), lib_roster = (\<lambda>_. []), lib_process = (\<lambda>_ g. (g + 1, Inr (Some ()))),
    lib_commit_add = (\<lambda>_ g. (g, Inr ())), lib_commit_remove = (\<lambda>_ g. (g, Inr ())),
    lib_commit_update = (\<lambda>g. (g, Inr ())), lib_apply_pending = (\<lambda>g. (g + 1, Inr ())),
    lib_group_info = (\<lambda>_ _. Inr ()), lib_export_tree = (\<lambda>_. ())\<rparr>"

theorem resync_reaches_commit_epoch_witness:
  "rs_epoch counter_lib (fst (process_external_commit_with_resync counter_lib
      (\<lambda>_ _. Inr [\<lparr>xc_epoch = 2, xc_message = ()\<rparr>, \<lparr>xc_epoch = 1, xc_message = ()\<rparr>])
      \<lparr>xc_epoch = 3, xc_message = ()\<rparr> \<lparr>mg_group = 0, mg_config = GroupConfig_new sample_suite 0 1 []\<rparr>)) = 3"
proof -
  let ?f = "\<lambda>_ _. Inr [\<lparr>xc_epoch = 2, xc_message = ()\<rparr>, \<lparr>xc_epoch = 1, xc_message = ()\<rparr>]"
  let ?mg = "\<lparr>mg_group = 0, mg_config = GroupConfig_new sample_suite 0 1 []\<rparr>"
  have upt: "[Suc 0 ..< 3] = [1, 2]" by (simp add: upt_rec)
  obtain mg' r where r: "process_external_commit_with_resync counter_lib ?f \<lparr>xc_epoch = 3, xc_message = ()\<rparr> ?mg = (mg', r)"
    by fastforce
  have "r = Inr ()"
    using r by (auto simp: process_external_commit_with_resync_def detect_external_commit_gap_def detect_epoch_gap_def
        rs_epoch_def counter_lib_def process_external_commit_explicit_def process_commit_message_def Let_def upt word_le_nat_alt)
  moreover have "lib_advances counter_lib" by (simp add: lib_advances_def counter_lib_def)
  ultimately show ?thesis using resync_reaches_commit_epoch [OF _ r] r by simp
qed

end
