(* ===== verification/Transport.thy ===== *)
theory Transport
  imports Core_Crypto "HOL-Library.Multiset"
begin

text \<open>
  Content-addressed transport, \<open>spex-transport/src/\<close>: \<open>chunking.rs\<close>, \<open>error.rs\<close>, \<open>transport.rs\<close>, the
  correlation identifiers of \<open>telemetry.rs\<close> and the payload validation of \<open>ingest.rs\<close>.

  The libp2p components are third-party: what the code asks of Kademlia is recorded as the list of
  commands it issues, in order, and gossipsub is a parameter that accepts or refuses a message.
  A \<open>HashMap\<close> is a map; JSON is a pair of parameters.
\<close>

section \<open>Errors\<close>

datatype TransportError =
    Libp2p string
  | GossipPublish string
  | Serialization string
  | CborDecode SpexError
  | Http string
  | BridgePayload
  | MissingChunk string
  | ChunkHashMismatch nat
  | ChunkIndexMismatch nat nat
  | InvalidManifest string
  | PayloadLengthMismatch nat nat
  | InvalidPayload string
  | InvalidTtl
  | TGrantInvalid
  | TGrantExpired
  | TPowTooWeak
  | TPowInvalid

fun TransportError_to_string :: "TransportError \<Rightarrow> string" where
  "TransportError_to_string (Libp2p m) = ''libp2p error: '' @ m"
| "TransportError_to_string (GossipPublish m) = ''gossipsub publish error: '' @ m"
| "TransportError_to_string (Serialization m) = ''serialization error: '' @ m"
| "TransportError_to_string (CborDecode e) = ''cbor decode error: '' @ SpexError_to_string e"
| "TransportError_to_string (Http m) = ''http error: '' @ m"
| "TransportError_to_string BridgePayload = ''inbox bridge returned invalid payload''"
| "TransportError_to_string (MissingChunk h) = ''missing chunk for hash '' @ h"
| "TransportError_to_string (ChunkHashMismatch i) = ''chunk hash mismatch for index '' @ show_nat i"
| "TransportError_to_string (ChunkIndexMismatch expected actual) =
    ''chunk index mismatch (expected '' @ show_nat expected @ '', got '' @ show_nat actual @ '')''"
| "TransportError_to_string (InvalidManifest m) = ''invalid manifest: '' @ m"
| "TransportError_to_string (PayloadLengthMismatch expected actual) =
    ''payload length mismatch (expected '' @ show_nat expected @ '', got '' @ show_nat actual @ '')''"
| "TransportError_to_string (InvalidPayload m) = ''invalid payload: '' @ m"
| "TransportError_to_string InvalidTtl = ''bridge rejected ttl policy''"
| "TransportError_to_string TGrantInvalid = ''grant signature invalid''"
| "TransportError_to_string TGrantExpired = ''grant expired''"
| "TransportError_to_string TPowTooWeak = ''pow parameters below minimum''"
| "TransportError_to_string TPowInvalid = ''pow puzzle invalid''"

section \<open>Chunking\<close>

record Chunk =
  ch_index :: nat
  ch_hash :: bytes
  ch_data :: bytes

record ChunkingConfig =
  cc_chunk_size :: nat
  cc_hash_id :: HashId

definition ChunkingConfig_default :: ChunkingConfig where
  "ChunkingConfig_default = \<lparr>cc_chunk_size = 32 * 1024, cc_hash_id = Sha256\<rparr>"

text \<open>\<open>slice::chunks\<close>, which panics on size zero (\<open>None\<close> below).\<close>

function chunks_of :: "nat \<Rightarrow> 'a list \<Rightarrow> 'a list list" where
  "chunks_of n xs = (if xs = [] \<or> n = 0 then [] else take n xs # chunks_of n (drop n xs))"
  by pat_completeness auto

termination
  by (relation "measure (\<lambda>(n, xs). length xs)") auto

declare chunks_of.simps [simp del]

definition mk_chunk :: "crypto \<Rightarrow> ChunkingConfig \<Rightarrow> nat \<Rightarrow> bytes \<Rightarrow> Chunk" where
  "mk_chunk x config index chunk =
    \<lparr>ch_index = index, ch_hash = hash_bytes x (cc_hash_id config) chunk, ch_data = chunk\<rparr>"

definition chunk_data :: "crypto \<Rightarrow> ChunkingConfig \<Rightarrow> bytes \<Rightarrow> Chunk list option" where
  "chunk_data x config data =
    (if data = [] then Some []
     else if cc_chunk_size config = 0 then None
     else Some (map (\<lambda>(index, chunk). mk_chunk x config index chunk)
            (List.enumerate 0 (chunks_of (cc_chunk_size config) data))))"

definition reassemble_chunks :: "Chunk list \<Rightarrow> bytes" where
  "reassemble_chunks chunks = concat (map ch_data (sort_key ch_index chunks))"

section \<open>Correlation identifiers\<close>

record OperationCorrelation =
  oc_correlation_id :: string
  oc_used_minimal_context :: bool

definition derive_operation_correlation_id :: "crypto \<Rightarrow> codec \<Rightarrow> string \<Rightarrow> bytes \<Rightarrow> string" where
  "derive_operation_correlation_id x k operation ctxt =
    cx_hex k (take 16 (hash_bytes x Sha256
      (str_bytes ''spex-op-v1|'' @ str_bytes operation @ str_bytes ''|'' @ ctxt)))"

definition derive_minimal_correlation_id :: "crypto \<Rightarrow> codec \<Rightarrow> string \<Rightarrow> string" where
  "derive_minimal_correlation_id x k operation =
    derive_operation_correlation_id x k operation (str_bytes ''missing-context'')"

definition derive_operation_correlation :: "crypto \<Rightarrow> codec \<Rightarrow> string \<Rightarrow> bytes option \<Rightarrow> OperationCorrelation" where
  "derive_operation_correlation x k operation ctxt =
    (case ctxt of
       Some bs \<Rightarrow>
         if bs \<noteq> [] then \<lparr>oc_correlation_id = derive_operation_correlation_id x k operation bs,
                           oc_used_minimal_context = False\<rparr>
         else \<lparr>oc_correlation_id = derive_minimal_correlation_id x k operation, oc_used_minimal_context = True\<rparr>
     | None \<Rightarrow> \<lparr>oc_correlation_id = derive_minimal_correlation_id x k operation, oc_used_minimal_context = True\<rparr>)"

section \<open>Manifests\<close>

record ChunkDescriptor =
  cd_index :: nat
  cd_hash :: bytes

record ChunkManifest =
  cm_chunks :: "ChunkDescriptor list"
  cm_total_len :: nat

record TransportConfig =
  tr_chunking :: ChunkingConfig
  tr_gossip_topic :: string
  tr_record_ttl_secs :: nat

definition TransportConfig_default :: TransportConfig where
  "TransportConfig_default =
    \<lparr>tr_chunking = ChunkingConfig_default, tr_gossip_topic = ''spex/transport'', tr_record_ttl_secs = 60 * 60\<rparr>"

primrec validate_descriptors :: "nat set \<Rightarrow> bytes set \<Rightarrow> ChunkDescriptor list \<Rightarrow> TransportError + unit" where
  "validate_descriptors indices hashes [] = Inr ()"
| "validate_descriptors indices hashes (d # ds) =
    (if cd_index d \<in> indices then Inl (InvalidManifest (''duplicate chunk index '' @ show_nat (cd_index d)))
     else if cd_hash d \<in> hashes then Inl (InvalidManifest ''duplicate chunk hash'')
     else validate_descriptors (insert (cd_index d) indices) (insert (cd_hash d) hashes) ds)"

definition validate_manifest :: "ChunkManifest \<Rightarrow> TransportError + unit" where
  "validate_manifest m =
    (if cm_chunks m = [] \<and> cm_total_len m > 0 then Inl (InvalidManifest ''empty manifest for non-empty payload'')
     else validate_descriptors {} {} (cm_chunks m))"

section \<open>Publishing\<close>

text \<open>
  A put names the record's key, its data and the seconds until it expires; the results of the commands
  are discarded by the code.
\<close>

datatype kad_command =
    PutRecord bytes bytes nat
  | StartProviding bytes
  | GetRecord bytes
  | GetClosestPeers bytes

definition put_commands :: "TransportConfig \<Rightarrow> bytes \<Rightarrow> bytes \<Rightarrow> kad_command list" where
  "put_commands config record_key data = [PutRecord record_key data (tr_record_ttl_secs config), StartProviding record_key]"

definition store_chunk_record :: "TransportConfig \<Rightarrow> Chunk \<Rightarrow> kad_command list" where
  "store_chunk_record config chunk = put_commands config (ch_hash chunk) (ch_data chunk)"

definition publish_chunks :: "TransportConfig \<Rightarrow> Chunk list \<Rightarrow> kad_command list" where
  "publish_chunks config chunks = concat (map (\<lambda>chunk. put_commands config (ch_hash chunk) (ch_data chunk)) chunks)"

definition passive_replicate_chunks :: "TransportConfig \<Rightarrow> Chunk list \<Rightarrow> kad_command list" where
  "passive_replicate_chunks config chunks = concat (map (store_chunk_record config) chunks)"

definition renew_chunk_ttl :: "TransportConfig \<Rightarrow> Chunk list \<Rightarrow> kad_command list" where
  "renew_chunk_ttl config chunks = concat (map (store_chunk_record config) chunks)"

definition replicate_manifest :: "TransportConfig \<Rightarrow> ChunkManifest \<Rightarrow> kad_command list" where
  "replicate_manifest config m = concat (map (\<lambda>d. put_commands config (cd_hash d) []) (cm_chunks m))"

definition start_manifest_chunk_queries :: "ChunkManifest \<Rightarrow> kad_command list" where
  "start_manifest_chunk_queries m = map (\<lambda>d. GetRecord (cd_hash d)) (cm_chunks m)"

definition manifest_of :: "Chunk list \<Rightarrow> bytes \<Rightarrow> ChunkManifest" where
  "manifest_of chunks payload =
    \<lparr>cm_chunks = map (\<lambda>chunk. \<lparr>cd_index = ch_index chunk, cd_hash = ch_hash chunk\<rparr>) chunks,
     cm_total_len = length payload\<rparr>"

definition manifest_payload :: "(ChunkManifest \<Rightarrow> string + bytes) \<Rightarrow> ChunkManifest \<Rightarrow> TransportError + bytes" where
  "manifest_payload to_json m = map_err Serialization (to_json m)"

definition publish_manifest ::
    "(ChunkManifest \<Rightarrow> string + bytes) \<Rightarrow> (string \<Rightarrow> bytes \<Rightarrow> string + unit) \<Rightarrow> TransportConfig \<Rightarrow> ChunkManifest \<Rightarrow> TransportError + unit" where
  "publish_manifest to_json gossip config m =
    bind_res (manifest_payload to_json m) (\<lambda>payload.
    map_err GossipPublish (gossip (tr_gossip_topic config) payload))"

text \<open>The Kademlia commands are issued before the gossip message, which can fail.\<close>

definition publish_payload ::
    "crypto \<Rightarrow> (ChunkManifest \<Rightarrow> string + bytes) \<Rightarrow> (string \<Rightarrow> bytes \<Rightarrow> string + unit) \<Rightarrow> TransportConfig \<Rightarrow> bytes \<Rightarrow>
      (kad_command list \<times> (TransportError + ChunkManifest)) option" where
  "publish_payload x to_json gossip config payload =
    map_option (\<lambda>chunks.
      let m = manifest_of chunks payload
      in (publish_chunks config chunks, map_res (\<lambda>_. m) (publish_manifest to_json gossip config m)))
    (chunk_data x (tr_chunking config) payload)"

definition parse_manifest_from_gossip :: "(bytes \<Rightarrow> string + ChunkManifest) \<Rightarrow> bytes \<Rightarrow> TransportError + ChunkManifest" where
  "parse_manifest_from_gossip from_json payload = map_err Serialization (from_json payload)"

primrec recover_manifest_from_gossip ::
    "(bytes \<Rightarrow> string + ChunkManifest) \<Rightarrow> bytes list \<Rightarrow> TransportError + ChunkManifest" where
  "recover_manifest_from_gossip from_json [] = Inl (InvalidManifest ''no valid gossipsub manifest found'')"
| "recover_manifest_from_gossip from_json (p # ps) =
    (case parse_manifest_from_gossip from_json p of
       Inr m \<Rightarrow> if is_ok (validate_manifest m) then Inr m else recover_manifest_from_gossip from_json ps
     | Inl _ \<Rightarrow> recover_manifest_from_gossip from_json ps)"

section \<open>Recovery\<close>

text \<open>The loop over the descriptors, on a store keyed by hash.\<close>

definition fetch_chunk :: "crypto \<Rightarrow> codec \<Rightarrow> TransportConfig \<Rightarrow> (bytes \<rightharpoonup> bytes) \<Rightarrow> ChunkDescriptor \<Rightarrow> TransportError + Chunk" where
  "fetch_chunk x k config store d =
    bind_res (ok_or (MissingChunk (cx_hex k (cd_hash d))) (store (cd_hash d))) (\<lambda>data.
    if hash_bytes x (cc_hash_id (tr_chunking config)) data \<noteq> cd_hash d then Inl (ChunkHashMismatch (cd_index d))
    else Inr \<lparr>ch_index = cd_index d, ch_hash = cd_hash d, ch_data = data\<rparr>)"

definition recover_chunks_from_store ::
    "crypto \<Rightarrow> codec \<Rightarrow> TransportConfig \<Rightarrow> ChunkManifest \<Rightarrow> (bytes \<rightharpoonup> bytes) \<Rightarrow> TransportError + Chunk list" where
  "recover_chunks_from_store x k config m store =
    bind_res (validate_manifest m) (\<lambda>_. traverse (fetch_chunk x k config store) (cm_chunks m))"

datatype get_record_ok = FoundRecord bytes bytes | FinishedWithNoAdditionalRecord

definition record_map :: "get_record_ok list \<Rightarrow> bytes \<rightharpoonup> bytes" where
  "record_map results =
    foldl (\<lambda>m r. case r of FoundRecord key data \<Rightarrow> m(key \<mapsto> data) | _ \<Rightarrow> m) Map.empty results"

definition collect_manifest_chunks ::
    "crypto \<Rightarrow> codec \<Rightarrow> TransportConfig \<Rightarrow> ChunkManifest \<Rightarrow> get_record_ok list \<Rightarrow> TransportError + Chunk list" where
  "collect_manifest_chunks x k config m results =
    bind_res (validate_manifest m) (\<lambda>_. traverse (fetch_chunk x k config (record_map results)) (cm_chunks m))"

text \<open>\<open>entry(hash).or_insert_with(...)\<close> keeps the first chunk of a hash.\<close>

primrec index_chunks :: "crypto \<Rightarrow> TransportConfig \<Rightarrow> (bytes \<rightharpoonup> Chunk) \<Rightarrow> Chunk list \<Rightarrow> TransportError + (bytes \<rightharpoonup> Chunk)" where
  "index_chunks x config m [] = Inr m"
| "index_chunks x config m (c # cs) =
    (if hash_bytes x (cc_hash_id (tr_chunking config)) (ch_data c) \<noteq> ch_hash c then Inl (ChunkHashMismatch (ch_index c))
     else index_chunks x config (if m (ch_hash c) = None then m(ch_hash c \<mapsto> c) else m) cs)"

definition pick_chunk :: "codec \<Rightarrow> (bytes \<rightharpoonup> Chunk) \<Rightarrow> ChunkDescriptor \<Rightarrow> TransportError + Chunk" where
  "pick_chunk k by_hash d =
    bind_res (ok_or (MissingChunk (cx_hex k (cd_hash d))) (by_hash (cd_hash d))) (\<lambda>c.
    if ch_index c \<noteq> cd_index d then Inl (ChunkIndexMismatch (cd_index d) (ch_index c)) else Inr c)"

definition reassemble_chunks_with_manifest ::
    "crypto \<Rightarrow> codec \<Rightarrow> TransportConfig \<Rightarrow> ChunkManifest \<Rightarrow> Chunk list \<Rightarrow> TransportError + bytes" where
  "reassemble_chunks_with_manifest x k config m chunks =
    bind_res (validate_manifest m) (\<lambda>_.
    bind_res (index_chunks x config Map.empty chunks) (\<lambda>by_hash.
    bind_res (traverse (pick_chunk k by_hash) (cm_chunks m)) (\<lambda>ordered.
    let payload = reassemble_chunks ordered in
    if length payload \<noteq> cm_total_len m then Inl (PayloadLengthMismatch (cm_total_len m) (length payload))
    else Inr payload)))"

definition reassemble_payload_from_store ::
    "crypto \<Rightarrow> codec \<Rightarrow> TransportConfig \<Rightarrow> ChunkManifest \<Rightarrow> (bytes \<rightharpoonup> bytes) \<Rightarrow> TransportError + bytes" where
  "reassemble_payload_from_store x k config m store =
    bind_res (recover_chunks_from_store x k config m store) (\<lambda>chunks.
    reassemble_chunks_with_manifest x k config m chunks)"

definition reassemble_correlation_id :: "crypto \<Rightarrow> codec \<Rightarrow> ChunkManifest \<Rightarrow> string" where
  "reassemble_correlation_id x k m =
    oc_correlation_id (derive_operation_correlation x k ''reassemble''
      (Some (u64be (word_of_nat (cm_total_len m)) @ u64be (word_of_nat (length (cm_chunks m))))))"

definition reconstruct_envelope ::
    "crypto \<Rightarrow> codec \<Rightarrow> cbor_reader \<Rightarrow> (Value \<Rightarrow> string + bytes) \<Rightarrow> map_reader \<Rightarrow> (de_error \<Rightarrow> string) \<Rightarrow>
      TransportConfig \<Rightarrow> ChunkManifest \<Rightarrow> Chunk list \<Rightarrow> TransportError + Envelope" where
  "reconstruct_envelope x k de ser_value access render config m chunks =
    bind_res (reassemble_chunks_with_manifest x k config m chunks) (\<lambda>payload.
    map_err CborDecode (Envelope_decode de ser_value access render payload))"

section \<open>Random walks\<close>

definition random_walk_with_key :: "bytes \<Rightarrow> kad_command list \<times> bytes" where
  "random_walk_with_key random_key_bytes = ([GetClosestPeers random_key_bytes], random_key_bytes)"

definition robust_random_walk_with_seed :: "crypto \<Rightarrow> bytes \<Rightarrow> nat \<Rightarrow> kad_command list \<times> bytes list" where
  "robust_random_walk_with_seed x seed steps =
    (let keys = map (\<lambda>step. hash_bytes x Sha256 (seed @ u64be (word_of_nat step))) [0 ..< max steps 1]
     in (map GetClosestPeers keys, keys))"

definition random_walk :: "crypto \<Rightarrow> bytes \<Rightarrow> kad_command list" where
  "random_walk x random_bytes = fst (robust_random_walk_with_seed x random_bytes 3)"

record walk_state =
  ws_counts :: "string \<Rightarrow> nat"
  ws_used :: "bytes set"
  ws_keys :: "bytes list"

definition walk_step :: "crypto \<Rightarrow> bytes \<Rightarrow> string list \<Rightarrow> nat \<Rightarrow> walk_state \<Rightarrow> nat \<Rightarrow> walk_state" where
  "walk_step x seed sources limit st step =
    (let i = step mod max (length sources) 1;
         origin = (if i < length sources then sources ! i else ''unknown'')
     in if ws_counts st origin \<ge> limit then st
        else
          let derived = hash_bytes x Sha256 (seed @ str_bytes origin @ u64be (word_of_nat step)) in
          if derived \<in> ws_used st then st
          else st\<lparr>ws_used := insert derived (ws_used st), ws_keys := ws_keys st @ [derived],
                  ws_counts := (ws_counts st)(origin := ws_counts st origin + 1)\<rparr>)"

definition robust_random_walk_with_sources :: "crypto \<Rightarrow> bytes \<Rightarrow> nat \<Rightarrow> string list \<Rightarrow> nat \<Rightarrow> bytes list" where
  "robust_random_walk_with_sources x seed steps sources max_per_source =
    ws_keys (foldl (walk_step x seed sources (max max_per_source 1))
      \<lparr>ws_counts = (\<lambda>_. 0), ws_used = {}, ws_keys = []\<rparr> [0 ..< max steps 1])"

section \<open>Bootstrap snapshots\<close>

record PersistedPeer =
  pp_peer_id :: string
  pp_addresses :: "string list"
  pp_last_seen_unix_seconds :: u64
  pp_origin_tag :: string

record PersistedPeerReputation =
  pr_peer_id :: string
  pr_score :: int
  pr_timeout_penalties :: u32
  pr_invalid_payload_penalties :: u32
  pr_inconsistent_response_penalties :: u32
  pr_probation_until_unix_seconds :: "u64 option"
  pr_banned_until_unix_seconds :: "u64 option"

record PersistedBootstrapState =
  pb_known_peers :: "PersistedPeer list"
  pb_bootstrap_addrs :: "string list"
  pb_manifests :: "ChunkManifest list"
  pb_index_keys :: "string list"
  pb_peer_reputation :: "PersistedPeerReputation list"

definition PersistedBootstrapState_empty :: PersistedBootstrapState where
  "PersistedBootstrapState_empty =
    \<lparr>pb_known_peers = [], pb_bootstrap_addrs = [], pb_manifests = [], pb_index_keys = [], pb_peer_reputation = []\<rparr>"

text \<open>\<open>str\<close> order is the order of the UTF-8 bytes; \<open>sort\<close> then \<open>dedup\<close> leaves no repetition.\<close>

definition str_key :: "string \<Rightarrow> nat list" where
  "str_key s = map of_char s"

definition sort_dedup :: "string list \<Rightarrow> string list" where
  "sort_dedup xs = remdups_adj (sort_key str_key xs)"

definition canonical_snapshot :: "PersistedBootstrapState \<Rightarrow> PersistedBootstrapState" where
  "canonical_snapshot s =
    \<lparr>pb_known_peers = map (\<lambda>p. p\<lparr>pp_addresses := sort_dedup (pp_addresses p)\<rparr>)
       (sort_key (\<lambda>p. str_key (pp_peer_id p)) (pb_known_peers s)),
     pb_bootstrap_addrs = sort_dedup (pb_bootstrap_addrs s),
     pb_manifests = sort_key (\<lambda>m. (cm_total_len m, length (cm_chunks m))) (pb_manifests s),
     pb_index_keys = sort_dedup (pb_index_keys s),
     pb_peer_reputation = sort_key (\<lambda>r. str_key (pr_peer_id r)) (pb_peer_reputation s)\<rparr>"

definition encode_bootstrap_snapshot ::
    "(PersistedBootstrapState \<Rightarrow> string + bytes) \<Rightarrow> PersistedBootstrapState \<Rightarrow> TransportError + bytes" where
  "encode_bootstrap_snapshot to_json s = map_err Serialization (to_json (canonical_snapshot s))"

definition decode_bootstrap_snapshot ::
    "(bytes \<Rightarrow> string + PersistedBootstrapState) \<Rightarrow> bytes \<Rightarrow> TransportError + PersistedBootstrapState" where
  "decode_bootstrap_snapshot from_json payload = map_err Serialization (from_json payload)"

text \<open>
  The file system is a map from paths to contents.  A path is its list of components; each of the three
  operations may be refused, and a refused write may leave any content, or none, in the temporary file.
\<close>

type_synonym fs_path = "string list"
type_synonym files = "fs_path \<rightharpoonup> bytes"

record fs_faults =
  ff_mkdir :: "string option"
  ff_write :: "(string \<times> bytes option) option"
  ff_rename :: "string option"

definition path_parent :: "fs_path \<Rightarrow> fs_path option" where
  "path_parent p = (if p = [] then None else Some (butlast p))"

definition path_file_name :: "fs_path \<Rightarrow> string option" where
  "path_file_name p = (if p = [] \<or> last p = ''..'' then None else Some (last p))"

definition write_bootstrap_snapshot_atomic ::
    "(PersistedBootstrapState \<Rightarrow> string + bytes) \<Rightarrow> fs_faults \<Rightarrow> fs_path \<Rightarrow> PersistedBootstrapState \<Rightarrow> files \<Rightarrow>
      files \<times> (TransportError + unit)" where
  "write_bootstrap_snapshot_atomic to_json faults path snapshot fs =
    (case encode_bootstrap_snapshot to_json snapshot of
       Inl e \<Rightarrow> (fs, Inl e)
     | Inr payload \<Rightarrow>
    (case path_parent path of
       None \<Rightarrow> (fs, Inl (InvalidPayload ''snapshot path missing parent''))
     | Some parent \<Rightarrow>
    (case ff_mkdir faults of
       Some e \<Rightarrow> (fs, Inl (Libp2p e))
     | None \<Rightarrow>
    (case path_file_name path of
       None \<Rightarrow> (fs, Inl (InvalidPayload ''snapshot path missing file name''))
     | Some file_name \<Rightarrow>
    let temp_path = parent @ [file_name @ ''.tmp''] in
    (case ff_write faults of
       Some (e, left) \<Rightarrow> (fs(temp_path := left), Inl (Libp2p e))
     | None \<Rightarrow>
    let fs = fs(temp_path \<mapsto> payload) in
    (case ff_rename faults of
       Some e \<Rightarrow> (fs, Inl (Libp2p e))
     | None \<Rightarrow> (fs(temp_path := None, path \<mapsto> payload), Inr ())))))))"

text \<open>Reading fails with \<open>missing\<close> when there is no file.\<close>

definition read_bootstrap_snapshot ::
    "(bytes \<Rightarrow> string + PersistedBootstrapState) \<Rightarrow> string \<Rightarrow> fs_path \<Rightarrow> files \<Rightarrow> TransportError + PersistedBootstrapState" where
  "read_bootstrap_snapshot from_json missing path fs =
    bind_res (ok_or (Libp2p missing) (fs path)) (decode_bootstrap_snapshot from_json)"

section \<open>Payload validation on ingest\<close>

record PowParamsPayload =
  pl_memory_kib :: u32
  pl_iterations :: u32
  pl_parallelism :: u32
  pl_output_len :: nat

definition PowParamsPayload_default :: PowParamsPayload where
  "PowParamsPayload_default =
    \<lparr>pl_memory_kib = pow_memory_kib pow_minimum, pl_iterations = pow_iterations pow_minimum,
     pl_parallelism = pow_parallelism pow_minimum, pl_output_len = pow_output_len pow_minimum\<rparr>"

definition to_params :: "PowParamsPayload \<Rightarrow> PowParams" where
  "to_params p = \<lparr>pow_memory_kib = pl_memory_kib p, pow_iterations = pl_iterations p,
    pow_parallelism = pl_parallelism p, pow_output_len = pl_output_len p\<rparr>"


record P2pPuzzlePayload =
  pz_recipient_key :: string
  pz_puzzle_input :: string
  pz_puzzle_output :: string
  pz_params :: "PowParamsPayload option"

fun map_validation_error :: "GrantPowValidationError \<Rightarrow> TransportError" where
  "map_validation_error GrantExpired = TGrantExpired"
| "map_validation_error GrantInvalid = TGrantInvalid"
| "map_validation_error PowTooWeak = TPowTooWeak"
| "map_validation_error PowInvalid = TPowInvalid"
| "map_validation_error (Core e) = CborDecode e"

definition decode_base64 :: "codec \<Rightarrow> string \<Rightarrow> TransportError + bytes" where
  "decode_base64 k s = map_err InvalidPayload (cx_unb64 k s)"





definition validate_p2p_puzzle_payload :: "crypto \<Rightarrow> codec \<Rightarrow> P2pPuzzlePayload \<Rightarrow> TransportError + unit" where
  "validate_p2p_puzzle_payload x k p =
    bind_res (decode_base64 k (pz_recipient_key p)) (\<lambda>recipient_key.
    bind_res (decode_base64 k (pz_puzzle_input p)) (\<lambda>puzzle_input.
    bind_res (decode_base64 k (pz_puzzle_output p)) (\<lambda>puzzle_output.
    let params = to_params (case pz_params p of Some q \<Rightarrow> q | None \<Rightarrow> PowParamsPayload_default)
    in map_err map_validation_error
         (validate_pow_puzzle x recipient_key puzzle_input puzzle_output params pow_minimum))))"

definition ingest_validation_correlation_id :: "crypto \<Rightarrow> codec \<Rightarrow> bytes option \<Rightarrow> string" where
  "ingest_validation_correlation_id x k payload_hint =
    oc_correlation_id (derive_operation_correlation x k ''ingest'' payload_hint)"

section \<open>Chunks of a payload\<close>

lemma concat_chunks_of: "0 < n \<Longrightarrow> concat (chunks_of n xs) = xs"
  by (induction n xs rule: chunks_of.induct) (subst chunks_of.simps, auto)

definition payload_pieces :: "ChunkingConfig \<Rightarrow> bytes \<Rightarrow> bytes list" where
  "payload_pieces config data = chunks_of (cc_chunk_size config) data"

lemma chunk_data_eq_Some:
  assumes "chunk_data x config data = Some chunks"
  shows "map ch_index chunks = [0 ..< length chunks]"
    and "map ch_data chunks = payload_pieces config data"
    and "map ch_hash chunks = map (hash_bytes x (cc_hash_id config)) (payload_pieces config data)"
    and "concat (map ch_data chunks) = data"
    and "chunks = [] \<longleftrightarrow> data = []"
proof -
  have e0: "chunks_of n [] = ([] :: bytes list)" for n by (subst chunks_of.simps) simp
  then have c: "chunks = map (\<lambda>(index, chunk). mk_chunk x config index chunk) (List.enumerate 0 (payload_pieces config data))"
    and n: "data = [] \<or> 0 < cc_chunk_size config"
    using assms by (auto simp: chunk_data_def payload_pieces_def split: if_splits)
  show "map ch_index chunks = [0 ..< length chunks]"
    unfolding c by (rule nth_equalityI) (auto simp: nth_enumerate_eq mk_chunk_def)
  show d: "map ch_data chunks = payload_pieces config data"
    unfolding c by (rule nth_equalityI) (auto simp: nth_enumerate_eq mk_chunk_def)
  show "map ch_hash chunks = map (hash_bytes x (cc_hash_id config)) (payload_pieces config data)"
    unfolding c by (rule nth_equalityI) (auto simp: nth_enumerate_eq mk_chunk_def)
  show e: "concat (map ch_data chunks) = data"
    unfolding d payload_pieces_def using n concat_chunks_of e0 by auto
  show "chunks = [] \<longleftrightarrow> data = []"
    unfolding c payload_pieces_def using n by (subst chunks_of.simps) auto
qed

lemma reassemble_sorted: "sorted (map ch_index chunks) \<Longrightarrow> reassemble_chunks chunks = concat (map ch_data chunks)"
  by (simp add: reassemble_chunks_def sorted_sort_id sort_key_id_if_sorted)

lemma validate_descriptors_eq:
  assumes "distinct (map cd_index ds)" "set (map cd_index ds) \<inter> indices = {}"
  shows "validate_descriptors indices hashes ds =
    (if distinct (map cd_hash ds) \<and> set (map cd_hash ds) \<inter> hashes = {} then Inr ()
     else Inl (InvalidManifest ''duplicate chunk hash''))"
  using assms by (induction ds arbitrary: indices hashes) auto

lemma validate_descriptors_ok:
  "validate_descriptors indices hashes ds = Inr u \<longleftrightarrow>
    distinct (map cd_index ds) \<and> set (map cd_index ds) \<inter> indices = {} \<and>
    distinct (map cd_hash ds) \<and> set (map cd_hash ds) \<inter> hashes = {}"
  by (induction ds arbitrary: indices hashes) auto

text \<open>A record store that keeps every record put into it.  libp2p's store does so below its limits on the number and the
  size of records; the source ignores the error it returns above them.\<close>

definition kad_put :: "(bytes \<rightharpoonup> bytes) \<Rightarrow> kad_command \<Rightarrow> (bytes \<rightharpoonup> bytes)" where
  "kad_put store c = (case c of PutRecord k v _ \<Rightarrow> store(k \<mapsto> v) | _ \<Rightarrow> store)"

definition kad_store :: "(bytes \<rightharpoonup> bytes) \<Rightarrow> kad_command list \<Rightarrow> (bytes \<rightharpoonup> bytes)" where
  "kad_store store cs = foldl kad_put store cs"

lemma kad_store_publish:
  "kad_store store (publish_chunks config chunks) = store ++ map_of (rev (map (\<lambda>c. (ch_hash c, ch_data c)) chunks))"
  by (induction chunks arbitrary: store)
    (auto simp: kad_store_def publish_chunks_def put_commands_def kad_put_def)

lemma kad_store_published:
  assumes "distinct (map ch_hash chunks)" "c \<in> set chunks"
  shows "kad_store store (publish_chunks config chunks) (ch_hash c) = Some (ch_data c)"
proof -
  have "map_of (rev (map (\<lambda>c. (ch_hash c, ch_data c)) chunks)) (ch_hash c) = Some (ch_data c)"
    using assms by (intro map_of_is_SomeI) (auto simp: rev_map [symmetric] comp_def)
  then show ?thesis by (simp add: kad_store_publish)
qed

definition well_hashed :: "crypto \<Rightarrow> TransportConfig \<Rightarrow> Chunk \<Rightarrow> bool" where
  "well_hashed x config c \<longleftrightarrow> hash_bytes x (cc_hash_id (tr_chunking config)) (ch_data c) = ch_hash c"

lemma index_chunks_eq_Inr:
  assumes "index_chunks x config m chunks = Inr by_hash"
  shows "\<forall>c\<in>set chunks. well_hashed x config c"
    and "by_hash h = Some c \<Longrightarrow> m h = Some c \<or> c \<in> set chunks \<and> ch_hash c = h"
  using assms
proof (induction chunks arbitrary: m)
  case (Cons a cs)
  {
    case 1
    then show ?case using Cons.IH(1) by (auto simp: well_hashed_def split: if_splits)
  next
    case 2
    then have "index_chunks x config (if m (ch_hash a) = None then m(ch_hash a \<mapsto> a) else m) cs = Inr by_hash"
      unfolding index_chunks.simps by (meson sum.distinct(1))
    from Cons.IH(2) [OF 2(1) this] show ?case by (auto split: if_splits)
  }
qed simp_all

lemma index_chunks_distinct:
  assumes "\<forall>c\<in>set chunks. well_hashed x config c" "distinct (map ch_hash chunks)"
    "\<forall>c\<in>set chunks. m (ch_hash c) = None"
  shows "\<exists>by_hash. index_chunks x config m chunks = Inr by_hash \<and>
    (\<forall>c\<in>set chunks. by_hash (ch_hash c) = Some c) \<and> (\<forall>h. h \<notin> ch_hash ` set chunks \<longrightarrow> by_hash h = m h)"
  using assms
proof (induction chunks arbitrary: m)
  case (Cons c cs)
  have n: "ch_hash c \<notin> ch_hash ` set cs" using Cons.prems by simp
  have w: "\<forall>d\<in>set cs. (m(ch_hash c \<mapsto> c)) (ch_hash d) = None" using Cons.prems(3) n by (metis fun_upd_other image_eqI list.set_intros(2))
  have p: "\<forall>d\<in>set cs. well_hashed x config d" "distinct (map ch_hash cs)" using Cons.prems(1,2) by simp_all
  from Cons.IH [OF p w] obtain by_hash
    where b: "index_chunks x config (m(ch_hash c \<mapsto> c)) cs = Inr by_hash"
      "\<forall>c\<in>set cs. by_hash (ch_hash c) = Some c" "\<forall>h. h \<notin> ch_hash ` set cs \<longrightarrow> by_hash h = (m(ch_hash c \<mapsto> c)) h"
    by blast
  have "index_chunks x config m (c # cs) = Inr by_hash"
    using Cons.prems(1,3) b(1) by (simp add: well_hashed_def)
  with b n show ?case by auto
qed simp

lemma manifest_of_simps [simp]:
  "map cd_index (cm_chunks (manifest_of chunks payload)) = map ch_index chunks"
  "map cd_hash (cm_chunks (manifest_of chunks payload)) = map ch_hash chunks"
  "cm_total_len (manifest_of chunks payload) = length payload"
  by (simp_all add: manifest_of_def)

lemma validate_published_manifest:
  assumes "chunk_data x config payload = Some chunks"
  shows "validate_manifest (manifest_of chunks payload) =
    (if distinct (map ch_hash chunks) then Inr () else Inl (InvalidManifest ''duplicate chunk hash''))"
proof -
  have "distinct (map ch_index chunks)" by (simp add: chunk_data_eq_Some(1) [OF assms])
  then have "validate_descriptors {} {} (cm_chunks (manifest_of chunks payload)) =
      (if distinct (map ch_hash chunks) then Inr () else Inl (InvalidManifest ''duplicate chunk hash''))"
    by (subst validate_descriptors_eq) simp_all
  moreover have "\<not> (cm_chunks (manifest_of chunks payload) = [] \<and> cm_total_len (manifest_of chunks payload) > 0)"
    using chunk_data_eq_Some(5) [OF assms] by (auto simp: manifest_of_def)
  ultimately show ?thesis unfolding validate_manifest_def by argo
qed

lemma chunk_data_well_hashed:
  assumes "chunk_data x (tr_chunking config) payload = Some chunks" "c \<in> set chunks"
  shows "well_hashed x config c"
proof -
  have "map ch_hash chunks = map (\<lambda>c. hash_bytes x (cc_hash_id (tr_chunking config)) (ch_data c)) chunks"
    using chunk_data_eq_Some(2,3) [OF assms(1)] by (metis (no_types, lifting) map_map comp_def map_eq_conv)
  then show ?thesis using assms(2) by (simp add: well_hashed_def)
qed

lemma traverse_descriptors:
  assumes "\<And>c. c \<in> set chunks \<Longrightarrow> f \<lparr>cd_index = ch_index c, cd_hash = ch_hash c\<rparr> = Inr c"
  shows "traverse f (cm_chunks (manifest_of chunks payload)) = Inr chunks"
  using assms by (auto simp: traverse_eq_Inr manifest_of_def list_all2_map1 list_all2_same)

lemma reassemble_own_chunks:
  assumes c: "chunk_data x (tr_chunking config) payload = Some chunks" and d: "distinct (map ch_hash chunks)"
  shows "reassemble_chunks_with_manifest x k config (manifest_of chunks payload) chunks = Inr payload"
proof -
  obtain by_hash where b: "index_chunks x config Map.empty chunks = Inr by_hash"
    "\<forall>c\<in>set chunks. by_hash (ch_hash c) = Some c"
    using index_chunks_distinct [of chunks x config Map.empty] chunk_data_well_hashed [OF c] d by auto
  have "traverse (pick_chunk k by_hash) (cm_chunks (manifest_of chunks payload)) = Inr chunks"
    using b(2) by (intro traverse_descriptors) (simp add: pick_chunk_def ok_or_def)
  moreover have "reassemble_chunks chunks = payload"
    using chunk_data_eq_Some(1,4) [OF c] by (simp add: reassemble_sorted)
  ultimately show ?thesis
    using validate_published_manifest [OF c] d b(1)
    by (simp add: reassemble_chunks_with_manifest_def)
qed

lemma recover_own_chunks:
  assumes c: "chunk_data x (tr_chunking config) payload = Some chunks" and d: "distinct (map ch_hash chunks)"
  shows "recover_chunks_from_store x k config (manifest_of chunks payload)
    (kad_store store (publish_chunks config chunks)) = Inr chunks"
proof -
  have "traverse (fetch_chunk x k config (kad_store store (publish_chunks config chunks)))
      (cm_chunks (manifest_of chunks payload)) = Inr chunks"
    using chunk_data_well_hashed [OF c] kad_store_published [OF d]
    by (intro traverse_descriptors) (simp add: fetch_chunk_def ok_or_def well_hashed_def)
  then show ?thesis
    using validate_published_manifest [OF c] d by (simp add: recover_chunks_from_store_def)
qed

text \<open>C13. Publishing a payload and reassembling it from the records the publication stored, over whatever
  the store held before, gives back the payload when the hashes of its pieces are pairwise distinct.
  Otherwise, in particular when two pieces are equal, the published manifest is refused as having a duplicate chunk hash.\<close>

theorem publish_then_reassemble:
  assumes "publish_payload x to_json gossip config payload = Some (commands, Inr m)"
  shows "reassemble_payload_from_store x k config m (kad_store store commands) =
    (if distinct (map (hash_bytes x (cc_hash_id (tr_chunking config))) (payload_pieces (tr_chunking config) payload))
     then Inr payload else Inl (InvalidManifest ''duplicate chunk hash''))"
proof -
  from assms obtain chunks where c: "chunk_data x (tr_chunking config) payload = Some chunks"
    and e: "commands = publish_chunks config chunks" "m = manifest_of chunks payload"
    by (auto simp: publish_payload_def Let_def)
  show ?thesis
    using recover_own_chunks [OF c] reassemble_own_chunks [OF c] validate_published_manifest [OF c]
      chunk_data_eq_Some(3) [OF c]
    by (simp add: e reassemble_payload_from_store_def recover_chunks_from_store_def)
qed

definition small_config :: TransportConfig where
  "small_config = \<lparr>tr_chunking = \<lparr>cc_chunk_size = 2, cc_hash_id = Sha256\<rparr>, tr_gossip_topic = ''spex/transport'',
    tr_record_ttl_secs = 3600\<rparr>"

text \<open>One payload of each kind.\<close>

theorem publish_then_reassemble_witness:
  "(\<exists>commands m. publish_payload toy_crypto (\<lambda>_. Inr []) (\<lambda>_ _. Inr ()) small_config [1, 2, 3] = Some (commands, Inr m) \<and>
      reassemble_payload_from_store toy_crypto toy_codec small_config m (kad_store Map.empty commands) = Inr [1, 2, 3]) \<and>
   (\<exists>commands m. publish_payload toy_crypto (\<lambda>_. Inr []) (\<lambda>_ _. Inr ()) small_config [1, 2, 1, 2] = Some (commands, Inr m) \<and>
      reassemble_payload_from_store toy_crypto toy_codec small_config m (kad_store Map.empty commands) =
        Inl (InvalidManifest ''duplicate chunk hash''))"
proof -
  have ex: "\<exists>commands m. publish_payload toy_crypto (\<lambda>_. Inr []) (\<lambda>_ _. Inr ()) small_config p = Some (commands, Inr m)" for p
    by (simp add: publish_payload_def chunk_data_def small_config_def publish_manifest_def manifest_payload_def Let_def)
  have d: "distinct (map (hash_bytes toy_crypto (cc_hash_id (tr_chunking small_config)))
      (payload_pieces (tr_chunking small_config) [1, 2, 3]))"
    "\<not> distinct (map (hash_bytes toy_crypto (cc_hash_id (tr_chunking small_config)))
      (payload_pieces (tr_chunking small_config) [1, 2, 1, 2]))"
    by code_simp+
  obtain c1 m1 where 1: "publish_payload toy_crypto (\<lambda>_. Inr []) (\<lambda>_ _. Inr ()) small_config [1, 2, 3] = Some (c1, Inr m1)"
    using ex by blast
  obtain c2 m2 where 2: "publish_payload toy_crypto (\<lambda>_. Inr []) (\<lambda>_ _. Inr ()) small_config [1, 2, 1, 2] = Some (c2, Inr m2)"
    using ex by blast
  show ?thesis
    using 1 2 publish_then_reassemble [OF 1, of toy_codec Map.empty] publish_then_reassemble [OF 2, of toy_codec Map.empty] d
    by (intro conjI exI) (assumption | simp only: if_True if_False)+
qed

section \<open>A manifest determines its payload\<close>

lemma reassembled_pieces:
  assumes "reassemble_chunks_with_manifest x k config m chunks = Inr payload"
  obtains ordered where "list_all2 (\<lambda>d c. c \<in> set chunks \<and> well_hashed x config c \<and> ch_hash c = cd_hash d \<and>
      ch_index c = cd_index d) (cm_chunks m) ordered"
    "payload = reassemble_chunks ordered" "length payload = cm_total_len m"
proof -
  from assms obtain by_hash ordered where i: "index_chunks x config Map.empty chunks = Inr by_hash"
    and t: "list_all2 (\<lambda>d c. pick_chunk k by_hash d = Inr c) (cm_chunks m) ordered"
    and p: "payload = reassemble_chunks ordered" "length payload = cm_total_len m"
    by (auto simp: reassemble_chunks_with_manifest_def Let_def traverse_eq_Inr split: if_splits)
  have "c \<in> set chunks \<and> well_hashed x config c \<and> ch_hash c = cd_hash d \<and> ch_index c = cd_index d"
    if "pick_chunk k by_hash d = Inr c" for d c
    using that index_chunks_eq_Inr(1) [OF i] index_chunks_eq_Inr(2) [OF i, where h = "cd_hash d" and c = c]
    by (auto simp: pick_chunk_def split: if_splits)
  then have "list_all2 (\<lambda>d c. c \<in> set chunks \<and> well_hashed x config c \<and> ch_hash c = cd_hash d \<and>
      ch_index c = cd_index d) (cm_chunks m) ordered"
    using t by (rule list_all2_mono [rotated])
  with p show thesis by (rule that [rotated])
qed

lemma same_pieces:
  assumes "list_all2 (\<lambda>c c'. ch_index c = ch_index c' \<and> ch_data c = ch_data c') cs cs'"
  shows "reassemble_chunks cs = reassemble_chunks cs'"
proof -
  have eq: "map (\<lambda>c. (ch_index c, ch_data c)) cs = map (\<lambda>c. (ch_index c, ch_data c)) cs'"
    using assms by (auto simp: list_all2_conv_all_nth intro!: nth_equalityI)
  have "reassemble_chunks cs = concat (map snd (sort_key fst (map (\<lambda>c. (ch_index c, ch_data c)) cs)))" for cs
    by (simp add: reassemble_chunks_def sort_key_map comp_def)
  with eq show ?thesis by metis
qed

lemma manifest_binds:
  assumes "reassemble_chunks_with_manifest x k config m chunks = Inr payload"
    and "reassemble_chunks_with_manifest x k config m chunks' = Inr payload'"
    and "\<And>c c'. c \<in> set chunks \<Longrightarrow> c' \<in> set chunks' \<Longrightarrow>
      hash_bytes x (cc_hash_id (tr_chunking config)) (ch_data c) =
      hash_bytes x (cc_hash_id (tr_chunking config)) (ch_data c') \<Longrightarrow> ch_data c = ch_data c'"
  shows "payload' = payload" "length payload = cm_total_len m"
proof -
  let ?Q = "\<lambda>chunks d c. c \<in> set chunks \<and> well_hashed x config c \<and> ch_hash c = cd_hash d \<and> ch_index c = cd_index d"
  obtain o1 where 1: "list_all2 (?Q chunks) (cm_chunks m) o1" "payload = reassemble_chunks o1" "length payload = cm_total_len m"
    by (rule reassembled_pieces [OF assms(1)])
  obtain o2 where 2: "list_all2 (?Q chunks') (cm_chunks m) o2" "payload' = reassemble_chunks o2"
    by (rule reassembled_pieces [OF assms(2)])
  have l: "length o1 = length (cm_chunks m)" "length o2 = length (cm_chunks m)"
    using list_all2_lengthD [OF 1(1)] list_all2_lengthD [OF 2(1)] by simp_all
  have "list_all2 (\<lambda>c c'. ch_index c = ch_index c' \<and> ch_data c = ch_data c') o1 o2"
  proof (rule list_all2_all_nthI)
    fix i
    assume i: "i < length o1"
    have a: "?Q chunks (cm_chunks m ! i) (o1 ! i)" using list_all2_nthD [OF 1(1)] i l by simp
    have b: "?Q chunks' (cm_chunks m ! i) (o2 ! i)" using list_all2_nthD [OF 2(1)] i l by simp
    from a b have "ch_data (o1 ! i) = ch_data (o2 ! i)" by (intro assms(3)) (simp_all add: well_hashed_def)
    with a b show "ch_index (o1 ! i) = ch_index (o2 ! i) \<and> ch_data (o1 ! i) = ch_data (o2 ! i)" by simp
  qed (simp add: l)
  from same_pieces [OF this] 1(2,3) 2(2) show "payload' = payload" "length payload = cm_total_len m" by simp_all
qed

text \<open>C21. Two successful reassemblies under one manifest, from whatever chunks peers supplied, give the same
  payload, of the announced length, unless two supplied chunks are a collision of the hash.\<close>

theorem manifest_binds_payload:
  assumes "reassemble_chunks_with_manifest x k config m chunks = Inr payload"
    and "reassemble_chunks_with_manifest x k config m chunks' = Inr payload'"
    and "\<And>c c'. c \<in> set chunks \<Longrightarrow> c' \<in> set chunks' \<Longrightarrow>
      hash_bytes x (cc_hash_id (tr_chunking config)) (ch_data c) =
      hash_bytes x (cc_hash_id (tr_chunking config)) (ch_data c') \<Longrightarrow> ch_data c = ch_data c'"
  shows "payload' = payload \<and> length payload = cm_total_len m"
  using manifest_binds [OF assms] by blast

theorem manifest_binds_payload_witness:
  "let m = \<lparr>cm_chunks = [\<lparr>cd_index = 1, cd_hash = 9 # replicate 31 0\<rparr>, \<lparr>cd_index = 0, cd_hash = 7 # replicate 31 0\<rparr>], cm_total_len = 2\<rparr>;
       a = \<lparr>ch_index = 0, ch_hash = 7 # replicate 31 0, ch_data = [7]\<rparr>;
       b = \<lparr>ch_index = 1, ch_hash = 9 # replicate 31 0, ch_data = [9]\<rparr>
   in reassemble_chunks_with_manifest toy_crypto toy_codec small_config m [a, b] = Inr [7, 9] \<and>
      reassemble_chunks_with_manifest toy_crypto toy_codec small_config m [b, a] = Inr [7, 9]"
proof -
  let ?m = "\<lparr>cm_chunks = [\<lparr>cd_index = 1, cd_hash = 9 # replicate 31 0\<rparr>, \<lparr>cd_index = 0, cd_hash = 7 # replicate 31 0\<rparr>], cm_total_len = 2\<rparr>"
  let ?a = "\<lparr>ch_index = 0, ch_hash = 7 # replicate 31 0, ch_data = [7]\<rparr> :: Chunk"
  let ?b = "\<lparr>ch_index = 1, ch_hash = 9 # replicate 31 0, ch_data = [9]\<rparr> :: Chunk"
  have 1: "reassemble_chunks_with_manifest toy_crypto toy_codec small_config ?m [?a, ?b] = Inr [7, 9]"
    by code_simp
  have 2: "is_ok (reassemble_chunks_with_manifest toy_crypto toy_codec small_config ?m [?b, ?a])"
    by code_simp
  then obtain q where q: "reassemble_chunks_with_manifest toy_crypto toy_codec small_config ?m [?b, ?a] = Inr q"
    by (cases "reassemble_chunks_with_manifest toy_crypto toy_codec small_config ?m [?b, ?a]") auto
  have "q = [7, 9] \<and> length ([7, 9] :: bytes) = cm_total_len ?m"
    by (rule manifest_binds_payload [OF 1 q]) (auto simp: hash_bytes_def toy_crypto_def small_config_def)
  with 1 q show ?thesis by (simp add: Let_def)
qed

section \<open>Influence of a source on a random walk\<close>

definition walk_inv :: "string set \<Rightarrow> nat \<Rightarrow> walk_state \<Rightarrow> bool" where
  "walk_inv origins limit st \<longleftrightarrow>
    distinct (ws_keys st) \<and> set (ws_keys st) = ws_used st \<and> (\<forall>s. ws_counts st s \<le> limit) \<and>
    length (ws_keys st) = (\<Sum>s\<in>origins. ws_counts st s)"

definition walk_origins :: "string list \<Rightarrow> string set" where
  "walk_origins sources = (if sources = [] then {''unknown''} else set sources)"

lemma count_step:
  "finite A \<Longrightarrow> o' \<in> A \<Longrightarrow> (\<Sum>s\<in>A. (f(o' := f o' + 1)) s) = (\<Sum>s\<in>A. f s) + (1 :: nat)"
  by (simp add: sum.remove [of A o'])

lemma walk_step_inv:
  assumes "walk_inv (walk_origins sources) limit st"
  shows "walk_inv (walk_origins sources) limit (walk_step x seed sources limit st step)"
proof -
  define i where "i = step mod max (length sources) 1"
  define org where "org = (if i < length sources then sources ! i else ''unknown'')"
  have "i < max (length sources) 1" by (simp add: i_def)
  then have o: "org \<in> walk_origins sources" "finite (walk_origins sources)"
    by (auto simp: walk_origins_def org_def max_def Suc_le_eq split: if_splits)
  define d where "d = hash_bytes x Sha256 (seed @ str_bytes org @ u64be (word_of_nat step))"
  define st' where "st' = st\<lparr>ws_used := insert d (ws_used st), ws_keys := ws_keys st @ [d],
    ws_counts := (ws_counts st)(org := ws_counts st org + 1)\<rparr>"
  have "walk_inv (walk_origins sources) limit st'" if "ws_counts st org < limit" "d \<notin> ws_used st"
    using that assms count_step [OF o(2,1), of "ws_counts st"] by (simp add: st'_def walk_inv_def)
  moreover have "walk_step x seed sources limit st step = (if ws_counts st org \<ge> limit \<or> d \<in> ws_used st then st else st')"
    unfolding walk_step_def Let_def i_def [symmetric] org_def [symmetric] d_def st'_def by simp
  ultimately show ?thesis using assms by simp
qed

text \<open>The keys of a walk are pairwise distinct, and there are at most \<open>max_per_source\<close> of them, or one, for
  each source.\<close>

theorem walk_bounded_influence:
  "distinct (robust_random_walk_with_sources x seed steps sources max_per_source) \<and>
   length (robust_random_walk_with_sources x seed steps sources max_per_source) \<le>
     max (card (set sources)) 1 * max max_per_source 1"
proof -
  let ?l = "max max_per_source 1"
  define st where "st = foldl (walk_step x seed sources ?l) \<lparr>ws_counts = (\<lambda>_. 0), ws_used = {}, ws_keys = []\<rparr> [0 ..< max steps 1]"
  have "walk_inv (walk_origins sources) ?l (foldl (walk_step x seed sources ?l) st0 xs)"
    if "walk_inv (walk_origins sources) ?l st0" for st0 xs
    using that by (induction xs arbitrary: st0) (auto intro: walk_step_inv)
  then have i: "walk_inv (walk_origins sources) ?l st"
    unfolding st_def by (simp add: walk_inv_def)
  have "length (ws_keys st) \<le> card (walk_origins sources) * ?l"
    using i sum_bounded_above [of "walk_origins sources" "ws_counts st" ?l] by (simp add: walk_inv_def)
  also have "card (walk_origins sources) \<le> max (card (set sources)) 1"
    by (simp add: walk_origins_def)
  finally have "length (ws_keys st) \<le> max (card (set sources)) 1 * ?l"
    by simp
  with i show ?thesis
    by (simp add: robust_random_walk_with_sources_def st_def walk_inv_def)
qed

section \<open>Snapshots on disk\<close>

lemma str_key_inject [simp]: "str_key s = str_key t \<longleftrightarrow> s = t"
  by (simp add: str_key_def inj_map_eq_map inj_on_def)

lemma remdups_adj_idem: "remdups_adj (remdups_adj xs) = remdups_adj xs"
proof (induction xs rule: remdups_adj.induct)
  case (3 x y xs)
  obtain t where "remdups_adj (y # xs) = y # t"
    by (metis hd_remdups_adj list.distinct(1) list.exhaust_sel list.sel(1) remdups_adj_Nil_iff)
  with 3 show ?case by (cases "x = y") simp_all
qed simp_all

lemma sort_dedup_idem [simp]: "sort_dedup (sort_dedup xs) = sort_dedup xs"
proof -
  have "sorted (map str_key (remdups_adj ys))" if "sorted (map str_key ys)" for ys
    using that by (induction ys rule: remdups_adj.induct) (auto split: if_splits)
  then show ?thesis
    by (simp add: sort_dedup_def sort_key_id_if_sorted remdups_adj_idem)
qed

lemma canonical_snapshot_idem: "canonical_snapshot (canonical_snapshot s) = canonical_snapshot s"
proof -
  have "sort_key (\<lambda>p. str_key (pp_peer_id p)) (map (\<lambda>p. p\<lparr>pp_addresses := sort_dedup (pp_addresses p)\<rparr>)
      (sort_key (\<lambda>p. str_key (pp_peer_id p)) ps)) =
    map (\<lambda>p. p\<lparr>pp_addresses := sort_dedup (pp_addresses p)\<rparr>) (sort_key (\<lambda>p. str_key (pp_peer_id p)) ps)" for ps
    by (rule sort_key_id_if_sorted) (simp add: comp_def)
  then show ?thesis
    by (simp add: canonical_snapshot_def sort_key_id_if_sorted comp_def)
qed

lemma temp_name_differs: "butlast p @ [last p @ ''.tmp''] \<noteq> p"
  by (metis append_self_conv last_snoc list.distinct(1))

text \<open>C23. Writing a snapshot is all or nothing for the file it replaces, whichever of the file operations is
  refused: on an error a reader sees the previous content, on success exactly the canonical
  form of the snapshot, whose own encoding is the same; files other than the target and its temporary sibling are untouched.\<close>

theorem snapshot_write_atomic:
  assumes "\<And>s b. to_json s = Inr b \<Longrightarrow> from_json b = Inr s"
    and "write_bootstrap_snapshot_atomic to_json faults path snapshot fs = (fs', r)"
  shows "read_bootstrap_snapshot from_json missing path fs' =
      (if is_ok r then Inr (canonical_snapshot snapshot) else read_bootstrap_snapshot from_json missing path fs) \<and>
    (\<forall>q. q \<noteq> path \<and> q \<noteq> butlast path @ [last path @ ''.tmp''] \<longrightarrow> fs' q = fs q) \<and>
    encode_bootstrap_snapshot to_json (canonical_snapshot snapshot) = encode_bootstrap_snapshot to_json snapshot"
  using assms(2) temp_name_differs [of path] assms(1)
  by (auto simp: write_bootstrap_snapshot_atomic_def encode_bootstrap_snapshot_def read_bootstrap_snapshot_def
      decode_bootstrap_snapshot_def path_parent_def path_file_name_def ok_or_def Let_def canonical_snapshot_idem
      split: sum.splits option.splits prod.splits if_splits)

text \<open>A JSON codec with the law, for evaluation: one snapshot, written as a single byte.\<close>

definition one_json :: "PersistedBootstrapState \<Rightarrow> string + bytes" where
  "one_json s = (if s = canonical_snapshot (PersistedBootstrapState_empty\<lparr>pb_index_keys := [''b'', ''a'', ''b'']\<rparr>)
    then Inr [1] else Inl ''unsupported'')"

definition one_unjson :: "bytes \<Rightarrow> string + PersistedBootstrapState" where
  "one_unjson b = (if b = [1] then Inr (canonical_snapshot (PersistedBootstrapState_empty\<lparr>pb_index_keys := [''b'', ''a'', ''b'']\<rparr>))
    else Inl ''unsupported'')"

theorem snapshot_write_atomic_witness:
  "let s = PersistedBootstrapState_empty\<lparr>pb_index_keys := [''b'', ''a'', ''b'']\<rparr>;
       path = [''var'', ''peers.json''];
       write = (\<lambda>faults. fst (write_bootstrap_snapshot_atomic one_json faults path s Map.empty))
   in read_bootstrap_snapshot one_unjson ''missing'' path
        (write \<lparr>ff_mkdir = None, ff_write = None, ff_rename = None\<rparr>) =
        Inr (PersistedBootstrapState_empty\<lparr>pb_index_keys := [''a'', ''b'']\<rparr>) \<and>
      read_bootstrap_snapshot one_unjson ''missing'' path
        (write \<lparr>ff_mkdir = None, ff_write = Some (''disk full'', Some []), ff_rename = None\<rparr>) =
        Inl (Libp2p ''missing'')"
proof -
  let ?s = "PersistedBootstrapState_empty\<lparr>pb_index_keys := [''b'', ''a'', ''b'']\<rparr>"
  let ?w = "\<lambda>faults. write_bootstrap_snapshot_atomic one_json faults [''var'', ''peers.json''] ?s Map.empty"
  let ?f = "\<lparr>ff_mkdir = None, ff_write = None, ff_rename = None\<rparr>"
  let ?g = "\<lparr>ff_mkdir = None, ff_write = Some (''disk full'', Some []), ff_rename = None\<rparr>"
  have law: "one_unjson b = Inr s" if "one_json s = Inr b" for s b
    using that by (simp add: one_json_def one_unjson_def split: if_splits)
  have c: "canonical_snapshot ?s = PersistedBootstrapState_empty\<lparr>pb_index_keys := [''a'', ''b'']\<rparr>"
    by code_simp
  have "one_json (canonical_snapshot ?s) = Inr [1]" by (simp add: one_json_def)
  then have ok: "is_ok (snd (?w ?f))" "\<not> is_ok (snd (?w ?g))"
    by (simp_all add: write_bootstrap_snapshot_atomic_def encode_bootstrap_snapshot_def path_parent_def path_file_name_def)
  show ?thesis
    using snapshot_write_atomic [of one_json one_unjson ?f "[''var'', ''peers.json'']" ?s Map.empty "fst (?w ?f)" "snd (?w ?f)" "''missing''"]
      snapshot_write_atomic [of one_json one_unjson ?g "[''var'', ''peers.json'']" ?s Map.empty "fst (?w ?g)" "snd (?w ?g)" "''missing''"]
      ok law unfolding c Let_def
    by (simp add: read_bootstrap_snapshot_def ok_or_def)
qed

section \<open>Grants from peers\<close>





end
