(* ===== verification/Inbox.thy ===== *)
theory Inbox
  imports Transport
begin

text \<open>
  Inbox discovery and the client of the HTTP bridge, \<open>spex-transport/src/inbox.rs\<close>.

  The HTTP server is outside the client: a \<open>GET\<close> is a function of the server's state and the URL, and it
  may answer differently each time.  The scan follows the cursors the server hands out for as long as it
  hands them out, so it is a partial function: \<open>None\<close> is a scan that never ends.
\<close>

section \<open>Scanning\<close>

datatype InboxSource = Kademlia | Bridge

record InboxScanRequest =
  sr_record_key :: bytes
  sr_hashed_key :: bytes

record InboxScanResponse =
  is_items :: "bytes list"
  is_source :: InboxSource

definition derive_inbox_scan_key :: "crypto \<Rightarrow> HashId \<Rightarrow> bytes \<Rightarrow> InboxScanRequest" where
  "derive_inbox_scan_key x hash_id inbox_scan_key =
    (let hashed_key = hash_bytes x hash_id inbox_scan_key
     in \<lparr>sr_record_key = hashed_key, sr_hashed_key = hashed_key\<rparr>)"

definition start_inbox_scan :: "InboxScanRequest \<Rightarrow> kad_command list" where
  "start_inbox_scan request = [GetRecord (sr_record_key request)]"

definition collect_inbox_items :: "get_record_ok \<Rightarrow> InboxScanResponse" where
  "collect_inbox_items result =
    \<lparr>is_items = (case result of FoundRecord _ data \<Rightarrow> [data] | FinishedWithNoAdditionalRecord \<Rightarrow> []),
     is_source = Kademlia\<rparr>"

section \<open>The bridge client\<close>

definition DEFAULT_BRIDGE_PAGE_LIMIT :: nat where
  "DEFAULT_BRIDGE_PAGE_LIMIT = 100"

record BridgeInboxResponse =
  bi_items :: "string list"
  bi_next_cursor :: "int option"

definition trim_end_slashes :: "string \<Rightarrow> string" where
  "trim_end_slashes s = rev (dropWhile (\<lambda>c. c = CHR ''/'') (rev s))"

definition show_int :: "int \<Rightarrow> string" where
  "show_int i = (if i < 0 then ''-'' @ show_nat (nat (- i)) else show_nat (nat i))"

definition inbox_url :: "string \<Rightarrow> string \<Rightarrow> int option \<Rightarrow> string" where
  "inbox_url base encoded_key cursor =
    base @ ''/inbox/'' @ encoded_key @ ''?limit='' @ show_nat DEFAULT_BRIDGE_PAGE_LIMIT @
    (case cursor of Some c \<Rightarrow> ''&cursor='' @ show_int c | None \<Rightarrow> '''')"

type_synonym 's http_get = "string \<Rightarrow> 's \<Rightarrow> (string + BridgeInboxResponse) \<times> 's"

definition decode_items :: "codec \<Rightarrow> string list \<Rightarrow> TransportError + bytes list" where
  "decode_items k items = traverse (\<lambda>item. map_err (\<lambda>_. BridgePayload) (cx_unb64 k item)) items"

partial_function (option) scan_loop ::
    "codec \<Rightarrow> 's http_get \<Rightarrow> string \<Rightarrow> string \<Rightarrow> bytes list \<Rightarrow> int option \<Rightarrow> 's \<Rightarrow> ((TransportError + bytes list) \<times> 's) option"
where
  "scan_loop k get base encoded_key items cursor s =
    (case get (inbox_url base encoded_key cursor) s of
       (Inl e, s') \<Rightarrow> Some (Inl (Http e), s')
     | (Inr payload, s') \<Rightarrow>
         (case decode_items k (bi_items payload) of
            Inl e \<Rightarrow> Some (Inl e, s')
          | Inr decoded \<Rightarrow>
              (case bi_next_cursor payload of
                 Some c \<Rightarrow> scan_loop k get base encoded_key (items @ decoded) (Some c) s'
               | None \<Rightarrow> Some (Inr (items @ decoded), s'))))"

definition scan_inbox ::
    "codec \<Rightarrow> 's http_get \<Rightarrow> string \<Rightarrow> bytes \<Rightarrow> 's \<Rightarrow> ((TransportError + InboxScanResponse) \<times> 's) option" where
  "scan_inbox k get base_url inbox_scan_key s =
    map_option (apfst (map_res (\<lambda>items. \<lparr>is_items = items, is_source = Bridge\<rparr>)))
      (scan_loop k get (trim_end_slashes base_url) (cx_hex k inbox_scan_key) [] None s)"

section \<open>Publishing\<close>

record BridgePowParams =
  bp_memory_kib :: u32
  bp_iterations :: u32
  bp_parallelism :: u32
  bp_output_len :: nat

record BridgeGrantPayload =
  bg_user_id :: string
  bg_role :: u64
  bg_flags :: "u64 option"
  bg_expires_at :: "u64 option"
  bg_verifying_key :: string
  bg_signature :: string

record BridgePuzzlePayload =
  bz_recipient_key :: string
  bz_puzzle_input :: string
  bz_puzzle_output :: string
  bz_params :: "BridgePowParams option"

record BridgePublishRequest =
  br_data :: string
  br_grant :: BridgeGrantPayload
  br_puzzle :: BridgePuzzlePayload
  br_ttl_seconds :: "u64 option"

record BridgeEnvelopePublishInput =
  be_sender_user_id :: bytes
  be_recipient_key_seed :: bytes
  be_envelope :: bytes
  be_role :: u64
  be_flags :: "u64 option"
  be_now_unix :: u64
  be_grant_ttl_seconds :: u64
  be_inbox_ttl_seconds :: "u64 option"
  be_pow_params :: PowParams

text \<open>The random source \<open>rng\<close> supplies the nonce.\<close>

definition build_bridge_publish_request ::
    "crypto \<Rightarrow> codec \<Rightarrow> (nat \<Rightarrow> bytes) \<Rightarrow> bytes \<Rightarrow>
      BridgeEnvelopePublishInput \<Rightarrow> TransportError + BridgePublishRequest" where
  "build_bridge_publish_request x k rng signing_key input =
    (let grant = \<lparr>gt_user_id = be_sender_user_id input, gt_role = be_role input, gt_flags = be_flags input,
                  gt_expires_at = Some (sat_add (be_now_unix input) (be_grant_ttl_seconds input)), gt_extensions = []\<rparr>
     in bind_res (map_err CborDecode (hash_ctap2_cbor_value x Sha256 (GrantToken_to_cbor grant))) (\<lambda>grant_hash.
     let signature = ed25519_sign_hash x signing_key grant_hash;
         vk = ed25519_verify_key x signing_key;
         nonce = generate_pow_nonce rng pow_nonce_len;
         puzzle_input = build_puzzle_input nonce (be_recipient_key_seed input)
     in bind_res (map_err CborDecode
          (generate_puzzle_output x (be_recipient_key_seed input) puzzle_input (be_pow_params input))) (\<lambda>puzzle_output.
     bind_res (map_err (\<lambda>e. InvalidPayload (GrantPowValidationError_to_string e))
          (validate_pow_puzzle x (be_recipient_key_seed input) puzzle_input puzzle_output (be_pow_params input) pow_minimum)) (\<lambda>_.
     Inr \<lparr>br_data = cx_b64 k (be_envelope input),
          br_grant = \<lparr>bg_user_id = cx_b64 k (gt_user_id grant), bg_role = gt_role grant, bg_flags = gt_flags grant,
            bg_expires_at = gt_expires_at grant, bg_verifying_key = cx_b64 k vk, bg_signature = cx_b64 k signature\<rparr>,
          br_puzzle = \<lparr>bz_recipient_key = cx_b64 k (be_recipient_key_seed input),
            bz_puzzle_input = cx_b64 k puzzle_input, bz_puzzle_output = cx_b64 k puzzle_output,
            bz_params = Some \<lparr>bp_memory_kib = pow_memory_kib (be_pow_params input),
              bp_iterations = pow_iterations (be_pow_params input),
              bp_parallelism = pow_parallelism (be_pow_params input),
              bp_output_len = pow_output_len (be_pow_params input)\<rparr>\<rparr>,
          br_ttl_seconds = be_inbox_ttl_seconds input\<rparr>))))"

fun contains_str :: "string \<Rightarrow> string \<Rightarrow> bool" where
  "contains_str pat [] = (pat = [])"
| "contains_str pat (c # s) = (take (length pat) (c # s) = pat \<or> contains_str pat s)"

text \<open>A reply is its status and, when its body is the JSON of an error, the message.\<close>

definition publish_error :: "nat \<Rightarrow> string \<Rightarrow> TransportError" where
  "publish_error status body =
    (if status = 401 \<and> contains_str ''grant expired'' body then TGrantExpired
     else if status = 401 \<and> contains_str ''grant signature invalid'' body then TGrantInvalid
     else if status = 401 \<and> contains_str ''puzzle validation failed'' body then TPowInvalid
     else if status = 400 \<and> contains_str ''invalid inbox ttl'' body then InvalidTtl
     else InvalidPayload body)"

definition publish_to_inbox ::
    "codec \<Rightarrow> (string \<Rightarrow> BridgePublishRequest \<Rightarrow> 's \<Rightarrow> (string + nat \<times> string option) \<times> 's) \<Rightarrow> string \<Rightarrow> bytes \<Rightarrow>
      BridgePublishRequest \<Rightarrow> 's \<Rightarrow> (TransportError + unit) \<times> 's" where
  "publish_to_inbox k put base_url inbox_scan_key request s =
    (case put (trim_end_slashes base_url @ ''/inbox/'' @ cx_hex k inbox_scan_key) request s of
       (Inl e, s') \<Rightarrow> (Inl (Http e), s')
     | (Inr (status, body), s') \<Rightarrow>
         if 200 \<le> status \<and> status < 300 then (Inr (), s')
         else (Inl (publish_error status (case body of Some m \<Rightarrow> m | None \<Rightarrow> '''')), s'))"

section \<open>Fallback from the DHT to the bridge\<close>

record fallback_counters =
  fb_total :: u64
  fb_success :: u64
  fb_failure :: u64

definition bridge_fallback_counters :: "fallback_counters \<Rightarrow> u64 \<times> u64 \<times> u64" where
  "bridge_fallback_counters c = (fb_total c, fb_success c, fb_failure c)"

definition count_fallback :: "bool \<Rightarrow> fallback_counters \<Rightarrow> fallback_counters" where
  "count_fallback ok c =
    (let c = c\<lparr>fb_total := fb_total c + 1\<rparr>
     in if ok then c\<lparr>fb_success := fb_success c + 1\<rparr> else c\<lparr>fb_failure := fb_failure c + 1\<rparr>)"

text \<open>The base URL stands for the bridge client.\<close>

definition resolve_inbox_with_fallback ::
    "codec \<Rightarrow> 's http_get \<Rightarrow> bytes \<Rightarrow> get_record_ok option \<Rightarrow> string option \<Rightarrow> fallback_counters \<times> 's \<Rightarrow>
      ((TransportError + InboxScanResponse) \<times> fallback_counters \<times> 's) option" where
  "resolve_inbox_with_fallback k get inbox_scan_key kademlia_result bridge st =
    (let fallback =
       (case bridge of
          Some base_url \<Rightarrow>
            map_option (\<lambda>(response, s). (response, count_fallback (is_ok response) (fst st), s))
              (scan_inbox k get base_url inbox_scan_key (snd st))
        | None \<Rightarrow> Some (Inr \<lparr>is_items = [], is_source = Kademlia\<rparr>, st))
     in case kademlia_result of
          Some result \<Rightarrow>
            let response = collect_inbox_items result in
            if is_items response \<noteq> [] \<or> bridge = None then Some (Inr response, st) else fallback
        | None \<Rightarrow> fallback)"

section \<open>Scanning a paginated inbox\<close>

text \<open>The rows of an inbox behind a cursor; a scan starts without one.\<close>

definition behind :: "int option \<Rightarrow> (int \<times> bytes) list \<Rightarrow> (int \<times> bytes) list" where
  "behind cursor rows = filter (\<lambda>r. (case cursor of Some c \<Rightarrow> c | None \<Rightarrow> 0) < fst r) rows"

text \<open>What a page may be: the next rows in order, and a cursor to the last of them unless none are left.\<close>

definition page_of :: "codec \<Rightarrow> (int \<times> bytes) list \<Rightarrow> BridgeInboxResponse \<Rightarrow> bool" where
  "page_of k rows p \<longleftrightarrow>
    (\<exists>n. bi_items p = map (\<lambda>r. cx_b64 k (snd r)) (take n rows) \<and>
      (case bi_next_cursor p of
         None \<Rightarrow> length rows \<le> n
       | Some c \<Rightarrow> 0 < n \<and> n \<le> length rows \<and> c = fst (rows ! (n - 1))))"

lemma behind_page:
  assumes "sorted_wrt (<) (map fst rows)" "0 < n" "n \<le> length (behind cursor rows)"
  shows "behind (Some (fst (behind cursor rows ! (n - 1)))) rows = drop n (behind cursor rows)"
proof -
  define start where "start = (case cursor of Some c \<Rightarrow> c | None \<Rightarrow> 0)"
  let ?rest = "behind cursor rows"
  have rest: "?rest = filter (\<lambda>r. start < fst r) rows" by (simp add: behind_def start_def)
  define pre m post where "pre = take (n - 1) ?rest" and "m = ?rest ! (n - 1)" and "post = drop n ?rest"
  have split: "?rest = pre @ m # post"
    using id_take_nth_drop [of "n - 1" ?rest] assms(2,3) by (simp add: pre_def m_def post_def)
  have "sorted_wrt (\<lambda>a b. fst a < fst b) ?rest"
    using assms(1) unfolding rest sorted_wrt_map by (rule sorted_wrt_filter)
  then have sorted: "\<forall>a \<in> set pre. fst a < fst m" "\<forall>b \<in> set post. fst m < fst b"
    unfolding split by (simp_all add: sorted_wrt_append)
  have "m \<in> set ?rest" unfolding split by simp
  then have start: "start < fst m" unfolding rest by simp
  have "behind (Some (fst m)) rows = filter (\<lambda>r. fst m < fst r) rows" by (simp add: behind_def)
  also have "\<dots> = filter (\<lambda>r. fst m < fst r) ?rest"
    unfolding rest filter_filter using start by (intro filter_cong) auto
  also have "\<dots> = post" unfolding split using sorted by (auto simp: filter_empty_conv filter_id_conv)
  finally show ?thesis by (simp add: m_def post_def)
qed

text \<open>The contract the scan relies on: a server that answers every request for the inbox with a page, while
  its rows stay the same.\<close>

locale paged_inbox =
  fixes k :: codec and get :: "'s http_get" and base encoded_key :: string
    and rows :: "'s \<Rightarrow> (int \<times> bytes) list" and valid :: "'s \<Rightarrow> bool"
  assumes codec: "valid s \<Longrightarrow> codec_correct k"
    and order: "valid s \<Longrightarrow> sorted_wrt (<) (map fst (rows s))"
    and page: "valid s \<Longrightarrow> cursor = None \<or> cursor \<in> Some ` fst ` set (rows s) \<Longrightarrow>
      \<exists>p s'. get (inbox_url base encoded_key cursor) s = (Inr p, s') \<and> page_of k (behind cursor (rows s)) p \<and>
        valid s' \<and> rows s' = rows s"
begin

lemma decode_page: "valid s \<Longrightarrow> decode_items k (map (\<lambda>r. cx_b64 k (snd r)) xs) = Inr (map snd xs)"
  using codec unfolding decode_items_def codec_correct_def by (induction xs) auto

lemma scan_collects:
  assumes "valid s" "cursor = None \<or> cursor \<in> Some ` fst ` set (rows s)"
  shows "\<exists>s'. scan_loop k get base encoded_key items cursor s =
    Some (Inr (items @ map snd (behind cursor (rows s))), s') \<and> valid s' \<and> rows s' = rows s"
  using assms
proof (induction "length (behind cursor (rows s))" arbitrary: items cursor s rule: less_induct)
  case less
  let ?rest = "behind cursor (rows s)"
  obtain p s' where get: "get (inbox_url base encoded_key cursor) s = (Inr p, s')" and p: "page_of k ?rest p"
    and s': "valid s'" "rows s' = rows s"
    using page [OF less.prems] by blast
  obtain n where n: "bi_items p = map (\<lambda>r. cx_b64 k (snd r)) (take n ?rest)"
    "case bi_next_cursor p of None \<Rightarrow> length ?rest \<le> n
     | Some c \<Rightarrow> 0 < n \<and> n \<le> length ?rest \<and> c = fst (?rest ! (n - 1))"
    using p unfolding page_of_def by blast
  have items: "decode_items k (bi_items p) = Inr (map snd (take n ?rest))"
    unfolding n(1) by (rule decode_page [OF less.prems(1)])
  show ?case
  proof (cases "bi_next_cursor p")
    case None
    then show ?thesis
      using n(2) get items s' by (subst scan_loop.simps) simp
  next
    case (Some c)
    then have c: "0 < n" "n \<le> length ?rest" "c = fst (?rest ! (n - 1))" using n(2) by simp_all
    have rest: "behind (Some c) (rows s') = drop n ?rest"
      unfolding c(3) s'(2) by (rule behind_page [OF order [OF less.prems(1)] c(1,2)])
    have "?rest ! (n - 1) \<in> set (rows s')"
      using c(1,2) nth_mem [of "n - 1" ?rest] s'(2) by (auto simp: behind_def)
    then have "Some c = None \<or> Some c \<in> Some ` fst ` set (rows s')" using c(3) by blast
    moreover have "length (behind (Some c) (rows s')) < length ?rest" using rest c(1,2) by simp
    ultimately obtain s'' where "scan_loop k get base encoded_key (items @ map snd (take n ?rest)) (Some c) s' =
        Some (Inr ((items @ map snd (take n ?rest)) @ map snd (behind (Some c) (rows s'))), s'')"
      "valid s''" "rows s'' = rows s'"
      using less.hyps [OF _ s'(1)] by blast
    then show ?thesis
      using Some get items rest s'(2) by (subst scan_loop.simps) (simp add: map_append [symmetric] del: map_append)
  qed
qed

lemma scan_complete:
  assumes "valid s" "base = trim_end_slashes base_url" "encoded_key = cx_hex k inbox_scan_key"
  shows "\<exists>s'. scan_inbox k get base_url inbox_scan_key s =
    Some (Inr \<lparr>is_items = map snd (behind None (rows s)), is_source = Bridge\<rparr>, s')"
  using scan_collects [OF assms(1), of None "[]"] assms(2,3) by (auto simp: scan_inbox_def)

end

end
