(* ===== verification/P2p_Node.thy ===== *)
theory P2p_Node
  imports Inbox "HOL-Library.AList"
begin

text \<open>
  The state of a libp2p node, \<open>spex-transport/src/p2p.rs\<close>: configuration, metrics and network health,
  the reputation of peers, and the snapshot of peers, manifests and reputations kept on disk.

  An \<open>Instant\<close> and a \<open>Duration\<close> are natural numbers of nanoseconds.  Time passes only while the node waits,
  so every reading of the clock inside one synchronous operation returns the same instant, the field
  \<open>pt_now\<close>; the wall clock is a function of it.  A \<open>HashMap\<close> that the code iterates over is an association
  list, whose order stands for the unspecified iteration order.  The swarm is third-party: the calls the
  code makes on it are recorded in order, and what it answers comes from the record \<open>p2p_lib\<close>.
\<close>

section \<open>Addresses\<close>

type_synonym peer_id = bytes

datatype Protocol = Ip4 string | Ip6 string | Dns string | Dns4 string | Dns6 string | Tcp u16 | P2p peer_id | OtherProtocol string

type_synonym multiaddr = "Protocol list"

fun split_protocols :: "multiaddr \<Rightarrow> multiaddr \<Rightarrow> peer_id option \<times> multiaddr" where
  "split_protocols base [] = (None, base)"
| "split_protocols base (P2p p # ps) = (Some p, base)"
| "split_protocols base (q # ps) = split_protocols (base @ [q]) ps"

definition split_peer_addr :: "multiaddr \<Rightarrow> TransportError + peer_id \<times> multiaddr" where
  "split_peer_addr addr =
    (case split_protocols [] addr of
       (None, _) \<Rightarrow> Inl (Libp2p ''missing peer id'')
     | (Some p, base) \<Rightarrow> Inr (p, base))"

definition infer_origin_tag :: "multiaddr \<Rightarrow> string" where
  "infer_origin_tag addr =
    (case addr of
       Ip4 _ # _ \<Rightarrow> ''ip4''
     | Ip6 _ # _ \<Rightarrow> ''ip6''
     | Dns _ # _ \<Rightarrow> ''dns''
     | Dns4 _ # _ \<Rightarrow> ''dns''
     | Dns6 _ # _ \<Rightarrow> ''dns''
     | _ \<Rightarrow> ''unknown'')"

section \<open>Configuration\<close>

record P2pNodeConfig =
  nc_listen_addrs :: "multiaddr list"
  nc_peers :: "multiaddr list"
  nc_bootstrap_nodes :: "multiaddr list"
  nc_publish_wait :: nat
  nc_query_timeout :: nat
  nc_manifest_wait :: nat
  nc_persistence_path :: "fs_path option"
  nc_peer_ban_duration :: nat
  nc_peer_probation_duration :: nat
  nc_score_recovery_per_minute :: int
  nc_probation_score_threshold :: int
  nc_ban_score_threshold :: int
  nc_probation_clear_score :: int
  nc_invalid_payload_ban_threshold :: u32
  nc_inconsistent_response_ban_threshold :: u32

definition millis :: "nat \<Rightarrow> nat" where "millis n = n * 10 ^ 6"

definition secs :: "nat \<Rightarrow> nat" where "secs n = n * 10 ^ 9"

definition as_secs :: "nat \<Rightarrow> nat" where "as_secs d = d div 10 ^ 9"

definition as_millis :: "nat \<Rightarrow> nat" where "as_millis d = d div 10 ^ 6"

definition P2pNodeConfig_default :: P2pNodeConfig where
  "P2pNodeConfig_default =
    \<lparr>nc_listen_addrs = [[Ip4 ''127.0.0.1'', Tcp 0]], nc_peers = [], nc_bootstrap_nodes = [],
     nc_publish_wait = secs 2, nc_query_timeout = secs 5, nc_manifest_wait = secs 5, nc_persistence_path = None,
     nc_peer_ban_duration = secs 30, nc_peer_probation_duration = secs 20, nc_score_recovery_per_minute = 4,
     nc_probation_score_threshold = - 35, nc_ban_score_threshold = - 70, nc_probation_clear_score = - 25,
     nc_invalid_payload_ban_threshold = 2, nc_inconsistent_response_ban_threshold = 4\<rparr>"

datatype P2pRuntimeProfile = Dev | Test | Prod

definition for_profile :: "P2pRuntimeProfile \<Rightarrow> P2pNodeConfig" where
  "for_profile profile =
    (case profile of
       Dev \<Rightarrow> P2pNodeConfig_default\<lparr>nc_publish_wait := secs 1, nc_query_timeout := secs 3,
                nc_manifest_wait := secs 3, nc_score_recovery_per_minute := 6\<rparr>
     | Test \<Rightarrow> P2pNodeConfig_default\<lparr>nc_publish_wait := secs 2, nc_query_timeout := secs 4,
                nc_manifest_wait := secs 4, nc_score_recovery_per_minute := 5\<rparr>
     | Prod \<Rightarrow> P2pNodeConfig_default\<lparr>nc_publish_wait := secs 4, nc_query_timeout := secs 8,
                nc_manifest_wait := secs 8, nc_peer_ban_duration := secs 90,
                nc_peer_probation_duration := secs 45, nc_score_recovery_per_minute := 3\<rparr>)"

record AdaptiveRetryConfig =
  ar_base_delay :: nat
  ar_max_delay :: nat
  ar_max_retries :: u32

definition adaptive_retry :: "P2pNodeConfig \<Rightarrow> AdaptiveRetryConfig" where
  "adaptive_retry c =
    \<lparr>ar_base_delay = millis 150, ar_max_delay = min (max (nc_publish_wait c) (nc_query_timeout c)) (secs 2),
     ar_max_retries = 6\<rparr>"

definition DURATION_MAX :: nat where
  "DURATION_MAX = (2 ^ 64 - 1) * 10 ^ 9 + 999999999"

text \<open>\<open>jitter\<close> is the multiplication by the random factor drawn around one, at most a quarter away.\<close>

definition delay_for_attempt :: "(nat \<Rightarrow> nat) \<Rightarrow> AdaptiveRetryConfig \<Rightarrow> u32 \<Rightarrow> nat" where
  "delay_for_attempt jitter r attempt =
    (let exponent = 2 ^ unat (min attempt 20);
         capped = min (ar_max_delay r) (min (ar_base_delay r * exponent) DURATION_MAX)
     in jitter capped)"

text \<open>\<open>scale\<close> is \<open>Duration::mul_f64\<close> by a factor in percent.\<close>

definition tuned_timeout :: "(nat \<Rightarrow> nat \<Rightarrow> nat) \<Rightarrow> nat \<Rightarrow> u32 \<Rightarrow> nat" where
  "tuned_timeout scale base connected_peers =
    (if connected_peers \<ge> 4 then max (scale 65 base) (millis 600)
     else if connected_peers \<ge> 2 then max (scale 80 base) (millis 800)
     else base)"

section \<open>Metrics\<close>

record P2pMetricsSnapshot =
  pm_publish_success :: u64
  pm_publish_timeout :: u64
  pm_publish_retries :: u64
  pm_publish_attempts :: u64
  pm_query_success :: u64
  pm_query_timeout :: u64
  pm_query_retries :: u64
  pm_query_attempts :: u64
  pm_recovery_success :: u64
  pm_recovery_timeout :: u64
  pm_recovery_retries :: u64
  pm_recovery_attempts :: u64
  pm_fallback_attempts :: u64
  pm_fallback_success :: u64
  pm_fallback_failure :: u64
  pm_reassemble_failures :: u64
  pm_verification_failures :: u64
  pm_reputation_probation_transitions :: u64
  pm_reputation_ban_transitions :: u64
  pm_publish_latency_ms :: "u64 list"
  pm_query_latency_ms :: "u64 list"
  pm_recovery_latency_ms :: "u64 list"

definition P2pMetrics_default :: P2pMetricsSnapshot where
  "P2pMetrics_default =
    \<lparr>pm_publish_success = 0, pm_publish_timeout = 0, pm_publish_retries = 0, pm_publish_attempts = 0,
     pm_query_success = 0, pm_query_timeout = 0, pm_query_retries = 0, pm_query_attempts = 0,
     pm_recovery_success = 0, pm_recovery_timeout = 0, pm_recovery_retries = 0, pm_recovery_attempts = 0,
     pm_fallback_attempts = 0, pm_fallback_success = 0, pm_fallback_failure = 0, pm_reassemble_failures = 0,
     pm_verification_failures = 0, pm_reputation_probation_transitions = 0, pm_reputation_ban_transitions = 0,
     pm_publish_latency_ms = [], pm_query_latency_ms = [], pm_recovery_latency_ms = []\<rparr>"

text \<open>The common body of the five rates: basis points, narrowed to 32 bits.\<close>

definition ratio_bps :: "u64 \<Rightarrow> u64 \<Rightarrow> u32" where
  "ratio_bps part whole = ucast (sat_mul part 10000 div whole)"

definition publish_success_rate_bps :: "P2pMetricsSnapshot \<Rightarrow> u32" where
  "publish_success_rate_bps m = (if pm_publish_attempts m = 0 then 0 else ratio_bps (pm_publish_success m) (pm_publish_attempts m))"

definition recovery_timeout_rate_bps :: "P2pMetricsSnapshot \<Rightarrow> u32" where
  "recovery_timeout_rate_bps m = (if pm_recovery_attempts m = 0 then 0 else ratio_bps (pm_recovery_timeout m) (pm_recovery_attempts m))"

definition fallback_frequency_bps :: "P2pMetricsSnapshot \<Rightarrow> u32" where
  "fallback_frequency_bps m = (if pm_recovery_attempts m = 0 then 0 else ratio_bps (pm_fallback_attempts m) (pm_recovery_attempts m))"

definition publish_retry_pressure_bps :: "P2pMetricsSnapshot \<Rightarrow> u32" where
  "publish_retry_pressure_bps m = (if pm_publish_attempts m = 0 then 0 else ratio_bps (pm_publish_retries m) (pm_publish_attempts m))"

definition recovery_retry_pressure_bps :: "P2pMetricsSnapshot \<Rightarrow> u32" where
  "recovery_retry_pressure_bps m = (if pm_recovery_attempts m = 0 then 0 else ratio_bps (pm_recovery_retries m) (pm_recovery_attempts m))"

text \<open>The code passes one of three literals; the match ignores every other text.\<close>

datatype operation_name = PublishOp | QueryOp | RecoveryOp

fun record_attempt :: "operation_name \<Rightarrow> P2pMetricsSnapshot \<Rightarrow> P2pMetricsSnapshot" where
  "record_attempt PublishOp m = m\<lparr>pm_publish_attempts := pm_publish_attempts m + 1\<rparr>"
| "record_attempt QueryOp m = m\<lparr>pm_query_attempts := pm_query_attempts m + 1\<rparr>"
| "record_attempt RecoveryOp m = m\<lparr>pm_recovery_attempts := pm_recovery_attempts m + 1\<rparr>"

fun record_retry :: "operation_name \<Rightarrow> P2pMetricsSnapshot \<Rightarrow> P2pMetricsSnapshot" where
  "record_retry PublishOp m = m\<lparr>pm_publish_retries := pm_publish_retries m + 1\<rparr>"
| "record_retry QueryOp m = m\<lparr>pm_query_retries := pm_query_retries m + 1\<rparr>"
| "record_retry RecoveryOp m = m\<lparr>pm_recovery_retries := pm_recovery_retries m + 1\<rparr>"

fun record_timeout :: "operation_name \<Rightarrow> P2pMetricsSnapshot \<Rightarrow> P2pMetricsSnapshot" where
  "record_timeout PublishOp m = m\<lparr>pm_publish_timeout := pm_publish_timeout m + 1\<rparr>"
| "record_timeout QueryOp m = m\<lparr>pm_query_timeout := pm_query_timeout m + 1\<rparr>"
| "record_timeout RecoveryOp m = m\<lparr>pm_recovery_timeout := pm_recovery_timeout m + 1\<rparr>"

fun record_success :: "operation_name \<Rightarrow> nat \<Rightarrow> P2pMetricsSnapshot \<Rightarrow> P2pMetricsSnapshot" where
  "record_success PublishOp latency m =
    m\<lparr>pm_publish_success := pm_publish_success m + 1,
      pm_publish_latency_ms := pm_publish_latency_ms m @ [word_of_nat (as_millis latency)]\<rparr>"
| "record_success QueryOp latency m =
    m\<lparr>pm_query_success := pm_query_success m + 1,
      pm_query_latency_ms := pm_query_latency_ms m @ [word_of_nat (as_millis latency)]\<rparr>"
| "record_success RecoveryOp latency m =
    m\<lparr>pm_recovery_success := pm_recovery_success m + 1,
      pm_recovery_latency_ms := pm_recovery_latency_ms m @ [word_of_nat (as_millis latency)]\<rparr>"

definition record_reassemble_failure :: "P2pMetricsSnapshot \<Rightarrow> P2pMetricsSnapshot" where
  "record_reassemble_failure m = m\<lparr>pm_reassemble_failures := pm_reassemble_failures m + 1\<rparr>"

definition record_verification_failure :: "P2pMetricsSnapshot \<Rightarrow> P2pMetricsSnapshot" where
  "record_verification_failure m = m\<lparr>pm_verification_failures := pm_verification_failures m + 1\<rparr>"

section \<open>The node\<close>

record PeerScore =
  sc_score :: int
  sc_timeout_penalties :: u32
  sc_invalid_payload_penalties :: u32
  sc_inconsistent_response_penalties :: u32
  sc_probation_until :: "nat option"
  sc_banned_until :: "nat option"
  sc_last_decay_at :: nat

definition PeerScore_neutral :: "nat \<Rightarrow> PeerScore" where
  "PeerScore_neutral now =
    \<lparr>sc_score = 0, sc_timeout_penalties = 0, sc_invalid_payload_penalties = 0,
     sc_inconsistent_response_penalties = 0, sc_probation_until = None, sc_banned_until = None,
     sc_last_decay_at = now\<rparr>"

datatype PeerReputationState = Neutral | Probation | Banned

record PeerReputationSnapshot =
  rs_score :: int
  rs_timeout_penalties :: u32
  rs_invalid_payload_penalties :: u32
  rs_inconsistent_response_penalties :: u32
  rs_state :: PeerReputationState

datatype SnapshotLoadState = NotConfigured | Missing | Loaded | QuarantinedRecovered

record SnapshotRecoveryStatus =
  ss_load_state :: SnapshotLoadState
  ss_restored_known_peers :: nat
  ss_restored_manifests :: nat
  ss_restored_index_keys :: nat
  ss_quarantined_snapshots :: u64
  ss_last_quarantined_path :: "string option"

definition SnapshotRecoveryStatus_default :: SnapshotRecoveryStatus where
  "SnapshotRecoveryStatus_default =
    \<lparr>ss_load_state = NotConfigured, ss_restored_known_peers = 0, ss_restored_manifests = 0,
     ss_restored_index_keys = 0, ss_quarantined_snapshots = 0, ss_last_quarantined_path = None\<rparr>"

datatype swarm_command =
    Kad kad_command
  | KadBootstrap
  | AddAddress peer_id multiaddr
  | AddExplicitPeer peer_id
  | RemoveExplicitPeer peer_id
  | DisconnectPeer peer_id
  | Dial multiaddr
  | Subscribe string
  | GossipSend string bytes

datatype query_result = GetRecordDone get_record_ok | GetRecordFailed | OtherResult

datatype swarm_event = GossipMessage bytes | QueryProgressed nat query_result | NewListenAddr multiaddr | OtherEvent

datatype publish_outcome = Published | NoPeersSubscribedToTopic | PublishRefused string

text \<open>
  What the swarm, the codecs, the clocks and the disk answer.  Answers that may change over time take the
  instant; \<open>pl_faults\<close> and \<open>pl_rename_fault\<close> say which file operations are refused then.
\<close>

record p2p_lib =
  pl_show_peer :: "peer_id \<Rightarrow> string"
  pl_parse_peer :: "string \<Rightarrow> peer_id option"
  pl_show_addr :: "multiaddr \<Rightarrow> string"
  pl_parse_addr :: "string \<Rightarrow> multiaddr option"
  pl_show_path :: "fs_path \<Rightarrow> string"
  pl_show_error :: "TransportError \<Rightarrow> string"
  pl_dial :: "nat \<Rightarrow> multiaddr \<Rightarrow> string + unit"
  pl_subscribe :: "nat \<Rightarrow> string \<Rightarrow> string + unit"
  pl_has_subscribers :: "nat \<Rightarrow> string \<Rightarrow> bool"
  pl_publish :: "nat \<Rightarrow> string \<Rightarrow> bytes \<Rightarrow> publish_outcome"
  pl_connected :: "nat \<Rightarrow> nat"
  pl_unix :: "nat \<Rightarrow> u64"
  pl_jitter :: "nat \<Rightarrow> nat \<Rightarrow> nat"
  pl_scale :: "nat \<Rightarrow> nat \<Rightarrow> nat"
  pl_snapshot_json :: "PersistedBootstrapState \<Rightarrow> string + bytes"
  pl_snapshot_unjson :: "bytes \<Rightarrow> string + PersistedBootstrapState"
  pl_manifest_json :: "ChunkManifest \<Rightarrow> string + bytes"
  pl_manifest_unjson :: "bytes \<Rightarrow> string + ChunkManifest"
  pl_faults :: "nat \<Rightarrow> fs_faults"
  pl_rename_fault :: "nat \<Rightarrow> string option"
  pl_read_error :: string

record P2pTransport =
  pt_config :: TransportConfig
  pt_node_config :: P2pNodeConfig
  pt_local_peer_id :: peer_id
  pt_listen_addrs :: "multiaddr list"
  pt_peer_store :: "(peer_id \<times> PersistedPeer) list"
  pt_known_manifests :: "ChunkManifest list"
  pt_known_index_keys :: "string list"
  pt_peer_scores :: "(peer_id \<times> PeerScore) list"
  pt_persistence_warnings :: "string list"
  pt_snapshot_recovery_status :: SnapshotRecoveryStatus
  pt_metrics :: P2pMetricsSnapshot
  pt_now :: nat
  pt_events :: "(nat \<times> swarm_event) list"
  pt_commands :: "swarm_command list"
  pt_next_query :: nat
  pt_files :: files

definition issue :: "swarm_command \<Rightarrow> P2pTransport \<Rightarrow> P2pTransport" where
  "issue c t = t\<lparr>pt_commands := pt_commands t @ [c]\<rparr>"

definition on_metrics :: "(P2pMetricsSnapshot \<Rightarrow> P2pMetricsSnapshot) \<Rightarrow> P2pTransport \<Rightarrow> P2pTransport" where
  "on_metrics f t = t\<lparr>pt_metrics := f (pt_metrics t)\<rparr>"

definition known_peer_count :: "P2pTransport \<Rightarrow> nat" where
  "known_peer_count t = length (pt_peer_store t)"

definition connected_peer_count :: "p2p_lib \<Rightarrow> P2pTransport \<Rightarrow> nat" where
  "connected_peer_count lib t = pl_connected lib (pt_now t)"

definition tuned_timeouts :: "p2p_lib \<Rightarrow> P2pTransport \<Rightarrow> nat \<times> nat \<times> nat" where
  "tuned_timeouts lib t =
    (let connected = word_of_nat (connected_peer_count lib t); c = pt_node_config t
     in (tuned_timeout (pl_scale lib) (nc_publish_wait c) connected,
         tuned_timeout (pl_scale lib) (nc_query_timeout c) connected,
         tuned_timeout (pl_scale lib) (nc_manifest_wait c) connected))"

definition metrics_snapshot :: "fallback_counters \<Rightarrow> P2pTransport \<Rightarrow> P2pMetricsSnapshot" where
  "metrics_snapshot fb t =
    (let (attempts, success, failure) = bridge_fallback_counters fb
     in (pt_metrics t)\<lparr>pm_fallback_attempts := attempts, pm_fallback_success := success, pm_fallback_failure := failure\<rparr>)"

section \<open>Network health\<close>

datatype NetworkHealthStatus = Healthy | Degraded | Critical

record NetworkHealthThresholds =
  nt_min_connected_peers :: nat
  nt_max_timeout_ratio_bps :: u32
  nt_max_fallback_failure_ratio_bps :: u32

definition NetworkHealthThresholds_default :: NetworkHealthThresholds where
  "NetworkHealthThresholds_default =
    \<lparr>nt_min_connected_peers = 2, nt_max_timeout_ratio_bps = 2500, nt_max_fallback_failure_ratio_bps = 3000\<rparr>"

record NetworkHealthIndicators =
  nh_connected_peers :: nat
  nh_known_peers :: nat
  nh_banned_peers :: nat
  nh_timeout_ratio_bps :: u32
  nh_fallback_failure_ratio_bps :: u32
  nh_status :: NetworkHealthStatus

definition health_status :: "NetworkHealthThresholds \<Rightarrow> nat \<Rightarrow> u32 \<Rightarrow> u32 \<Rightarrow> NetworkHealthStatus" where
  "health_status th connected timeout_ratio fallback_ratio =
    (if connected < nt_min_connected_peers th \<or> timeout_ratio > nt_max_timeout_ratio_bps th \<or>
        fallback_ratio > nt_max_fallback_failure_ratio_bps th
     then Critical
     else if connected \<le> nt_min_connected_peers th + 1 \<or> timeout_ratio > nt_max_timeout_ratio_bps th div 2 \<or>
        fallback_ratio > nt_max_fallback_failure_ratio_bps th div 2
     then Degraded
     else Healthy)"

definition network_health_indicators ::
    "p2p_lib \<Rightarrow> fallback_counters \<Rightarrow> NetworkHealthThresholds \<Rightarrow> P2pTransport \<Rightarrow> NetworkHealthIndicators" where
  "network_health_indicators lib fb th t =
    (let m = metrics_snapshot fb t;
         timeout_total = sat_add (sat_add (pm_publish_timeout m) (pm_query_timeout m)) (pm_recovery_timeout m);
         operation_total = max (sat_add (sat_add (pm_publish_attempts m) (pm_query_attempts m)) (pm_recovery_attempts m)) 1;
         timeout_ratio = ratio_bps timeout_total operation_total;
         fallback_total = max (pm_fallback_attempts m) 1;
         fallback_ratio = ratio_bps (pm_fallback_failure m) fallback_total;
         banned = length (filter (\<lambda>(_, s). case sc_banned_until s of Some u \<Rightarrow> u > pt_now t | None \<Rightarrow> False) (pt_peer_scores t));
         connected = connected_peer_count lib t
     in \<lparr>nh_connected_peers = connected, nh_known_peers = known_peer_count t, nh_banned_peers = banned,
         nh_timeout_ratio_bps = timeout_ratio, nh_fallback_failure_ratio_bps = fallback_ratio,
         nh_status = health_status th connected timeout_ratio fallback_ratio\<rparr>)"

section \<open>The snapshot on disk\<close>

definition instant_to_unix_seconds :: "p2p_lib \<Rightarrow> nat \<Rightarrow> nat \<Rightarrow> u64" where
  "instant_to_unix_seconds lib now instant = pl_unix lib now + word_of_nat (as_secs (instant - now))"

definition unix_seconds_to_instant :: "p2p_lib \<Rightarrow> nat \<Rightarrow> u64 \<Rightarrow> nat" where
  "unix_seconds_to_instant lib now unix_seconds =
    (if unix_seconds \<le> pl_unix lib now then now else now + secs (unat (unix_seconds - pl_unix lib now)))"

definition load_peer_score :: "p2p_lib \<Rightarrow> nat \<Rightarrow> PersistedPeerReputation \<Rightarrow> PeerScore" where
  "load_peer_score lib now r =
    \<lparr>sc_score = pr_score r, sc_timeout_penalties = pr_timeout_penalties r,
     sc_invalid_payload_penalties = pr_invalid_payload_penalties r,
     sc_inconsistent_response_penalties = pr_inconsistent_response_penalties r,
     sc_probation_until = map_option (unix_seconds_to_instant lib now) (pr_probation_until_unix_seconds r),
     sc_banned_until = map_option (unix_seconds_to_instant lib now) (pr_banned_until_unix_seconds r),
     sc_last_decay_at = now\<rparr>"

definition persist_peer_score :: "p2p_lib \<Rightarrow> nat \<Rightarrow> peer_id \<Rightarrow> PeerScore \<Rightarrow> PersistedPeerReputation" where
  "persist_peer_score lib now peer s =
    \<lparr>pr_peer_id = pl_show_peer lib peer, pr_score = sc_score s, pr_timeout_penalties = sc_timeout_penalties s,
     pr_invalid_payload_penalties = sc_invalid_payload_penalties s,
     pr_inconsistent_response_penalties = sc_inconsistent_response_penalties s,
     pr_probation_until_unix_seconds = map_option (instant_to_unix_seconds lib now) (sc_probation_until s),
     pr_banned_until_unix_seconds = map_option (instant_to_unix_seconds lib now) (sc_banned_until s)\<rparr>"

definition state_snapshot :: "p2p_lib \<Rightarrow> P2pTransport \<Rightarrow> PersistedBootstrapState" where
  "state_snapshot lib t =
    \<lparr>pb_known_peers = map snd (pt_peer_store t),
     pb_bootstrap_addrs = map (pl_show_addr lib) (nc_bootstrap_nodes (pt_node_config t)) @
       concat (map (pp_addresses \<circ> snd) (pt_peer_store t)),
     pb_manifests = pt_known_manifests t, pb_index_keys = pt_known_index_keys t,
     pb_peer_reputation = map (\<lambda>(p, s). persist_peer_score lib (pt_now t) p s) (pt_peer_scores t)\<rparr>"

definition persist_state :: "p2p_lib \<Rightarrow> P2pTransport \<Rightarrow> P2pTransport \<times> (TransportError + unit)" where
  "persist_state lib t =
    (case nc_persistence_path (pt_node_config t) of
       None \<Rightarrow> (t, Inr ())
     | Some path \<Rightarrow>
         let (fs, r) = write_bootstrap_snapshot_atomic (pl_snapshot_json lib) (pl_faults lib (pt_now t)) path
               (state_snapshot lib t) (pt_files t)
         in (t\<lparr>pt_files := fs\<rparr>, r))"

text \<open>\<open>Path::with_extension\<close>: what follows the last dot of the file name, unless that dot leads it, is replaced.\<close>

definition file_stem :: "string \<Rightarrow> string" where
  "file_stem name =
    (let r = dropWhile (\<lambda>c. c \<noteq> CHR ''.'') (rev name)
     in if length r \<le> 1 then name else rev (tl r))"

definition with_extension :: "fs_path \<Rightarrow> string \<Rightarrow> fs_path" where
  "with_extension path ext =
    (case path_file_name path of None \<Rightarrow> path | Some name \<Rightarrow> butlast path @ [file_stem name @ ''.'' @ ext])"

definition quarantine_corrupted_snapshot ::
    "p2p_lib \<Rightarrow> fs_path \<Rightarrow> P2pTransport \<Rightarrow> P2pTransport \<times> (TransportError + fs_path)" where
  "quarantine_corrupted_snapshot lib path t =
    (let quarantined = with_extension path (''corrupt-'' @ show_nat (unat (pl_unix lib (pt_now t))) @ ''.json'')
     in case pl_rename_fault lib (pt_now t) of
          Some e \<Rightarrow> (t, Inl (Libp2p e))
        | None \<Rightarrow> (t\<lparr>pt_files := (pt_files t)(path := None, quarantined := pt_files t path)\<rparr>, Inr quarantined))"

definition restore_snapshot :: "p2p_lib \<Rightarrow> PersistedBootstrapState \<Rightarrow> P2pTransport \<Rightarrow> P2pTransport" where
  "restore_snapshot lib s t =
    t\<lparr>pt_snapshot_recovery_status := (pt_snapshot_recovery_status t)
        \<lparr>ss_load_state := Loaded, ss_restored_known_peers := length (pb_known_peers s),
         ss_restored_manifests := length (pb_manifests s), ss_restored_index_keys := length (pb_index_keys s)\<rparr>,
      pt_known_manifests := pb_manifests s,
      pt_known_index_keys := remdups (pb_index_keys s),
      pt_peer_store := foldl (\<lambda>st peer. case pl_parse_peer lib (pp_peer_id peer) of
          Some p \<Rightarrow> AList.update p peer st | None \<Rightarrow> st) (pt_peer_store t) (pb_known_peers s),
      pt_peer_scores := foldl (\<lambda>sc r. case pl_parse_peer lib (pr_peer_id r) of
          Some p \<Rightarrow> AList.update p (load_peer_score lib (pt_now t) r) sc | None \<Rightarrow> sc) (pt_peer_scores t) (pb_peer_reputation s)\<rparr>"

definition load_persisted_state :: "p2p_lib \<Rightarrow> P2pTransport \<Rightarrow> P2pTransport \<times> (TransportError + unit)" where
  "load_persisted_state lib t =
    (case nc_persistence_path (pt_node_config t) of
       None \<Rightarrow> (t\<lparr>pt_snapshot_recovery_status := (pt_snapshot_recovery_status t)\<lparr>ss_load_state := NotConfigured\<rparr>\<rparr>, Inr ())
     | Some path \<Rightarrow>
         if pt_files t path = None
         then (t\<lparr>pt_snapshot_recovery_status := (pt_snapshot_recovery_status t)\<lparr>ss_load_state := Missing\<rparr>\<rparr>, Inr ())
         else
           (case read_bootstrap_snapshot (pl_snapshot_unjson lib) (pl_read_error lib) path (pt_files t) of
              Inr s \<Rightarrow> (restore_snapshot lib s t, Inr ())
            | Inl err \<Rightarrow>
                (case quarantine_corrupted_snapshot lib path t of
                   (t1, Inl e) \<Rightarrow> (t1, Inl e)
                 | (t1, Inr quarantined) \<Rightarrow>
                     (case write_bootstrap_snapshot_atomic (pl_snapshot_json lib) (pl_faults lib (pt_now t1)) path
                         PersistedBootstrapState_empty (pt_files t1) of
                        (fs, Inl e) \<Rightarrow> (t1\<lparr>pt_files := fs\<rparr>, Inl e)
                      | (fs, Inr _) \<Rightarrow>
                          (t1\<lparr>pt_files := fs, pt_snapshot_recovery_status := (pt_snapshot_recovery_status t1)
                             \<lparr>ss_load_state := QuarantinedRecovered,
                              ss_quarantined_snapshots := sat_add (ss_quarantined_snapshots (pt_snapshot_recovery_status t1)) 1,
                              ss_last_quarantined_path := Some (pl_show_path lib quarantined),
                              ss_restored_known_peers := 0, ss_restored_manifests := 0, ss_restored_index_keys := 0\<rparr>\<rparr>,
                           Inl (InvalidPayload (''corrupted persisted state detected and quarantined: '' @ pl_show_error lib err)))))))"

definition persisted_bootstrap_addrs :: "p2p_lib \<Rightarrow> P2pTransport \<Rightarrow> multiaddr list" where
  "persisted_bootstrap_addrs lib t =
    List.map_filter (pl_parse_addr lib) (concat (map (pp_addresses \<circ> snd) (pt_peer_store t)))"

section \<open>Reputation\<close>

definition classify_peer_reputation_state :: "PeerScore \<Rightarrow> nat \<Rightarrow> PeerReputationState" where
  "classify_peer_reputation_state s now =
    (if (case sc_banned_until s of Some u \<Rightarrow> now < u | None \<Rightarrow> False) then Banned
     else if (case sc_probation_until s of Some u \<Rightarrow> now < u | None \<Rightarrow> False) then Probation
     else Neutral)"

text \<open>\<open>i32\<close> division truncates towards zero.\<close>

definition div_i32 :: "int \<Rightarrow> int \<Rightarrow> int" where
  "div_i32 a b = (if a < 0 then - (- a div b) else a div b)"

definition apply_score_decay :: "PeerScore \<Rightarrow> nat \<Rightarrow> int \<Rightarrow> PeerScore" where
  "apply_score_decay s now recovery_per_minute =
    (let elapsed_secs = as_secs (now - sc_last_decay_at s)
     in if elapsed_secs = 0 \<or> recovery_per_minute \<le> 0 then s
        else
          let recovered = div_i32 (wrap_i32 (wrap_i32 (int elapsed_secs) * recovery_per_minute)) 60
          in if recovered > 0
             then s\<lparr>sc_score := min (wrap_i32 (sc_score s + recovered)) 20, sc_last_decay_at := now\<rparr>
             else s)"

definition record_reputation_transition :: "PeerReputationState \<Rightarrow> P2pMetricsSnapshot \<Rightarrow> P2pMetricsSnapshot" where
  "record_reputation_transition st m =
    (case st of
       Probation \<Rightarrow> m\<lparr>pm_reputation_probation_transitions := pm_reputation_probation_transitions m + 1\<rparr>
     | Banned \<Rightarrow> m\<lparr>pm_reputation_ban_transitions := pm_reputation_ban_transitions m + 1\<rparr>
     | Neutral \<Rightarrow> m)"

definition score_of :: "P2pTransport \<Rightarrow> peer_id \<Rightarrow> PeerScore" where
  "score_of t peer =
    (case map_of (pt_peer_scores t) peer of Some s \<Rightarrow> s | None \<Rightarrow> PeerScore_neutral (pt_now t))"

definition reached_ban_threshold :: "P2pNodeConfig \<Rightarrow> PeerScore \<Rightarrow> bool" where
  "reached_ban_threshold c s \<longleftrightarrow>
    sc_score s \<le> nc_ban_score_threshold c \<or>
    sc_invalid_payload_penalties s \<ge> nc_invalid_payload_ban_threshold c \<or>
    sc_inconsistent_response_penalties s \<ge> nc_inconsistent_response_ban_threshold c"

text \<open>The block of \<open>apply_penalty\<close> that updates one score.\<close>

definition penalize :: "P2pNodeConfig \<Rightarrow> nat \<Rightarrow> int \<Rightarrow> (PeerScore \<Rightarrow> PeerScore) \<Rightarrow> PeerScore \<Rightarrow> PeerScore" where
  "penalize c now penalty mutate s =
    (let s1 = apply_score_decay s now (nc_score_recovery_per_minute c);
         s2 = mutate (s1\<lparr>sc_score := wrap_i32 (sc_score s1 - penalty)\<rparr>)
     in if reached_ban_threshold c s2
        then s2\<lparr>sc_banned_until := Some (now + nc_peer_ban_duration c), sc_probation_until := None\<rparr>
        else if sc_score s2 \<le> nc_probation_score_threshold c
        then s2\<lparr>sc_probation_until := Some (now + nc_peer_probation_duration c)\<rparr>
        else s2)"

definition apply_penalty :: "p2p_lib \<Rightarrow> peer_id \<Rightarrow> int \<Rightarrow> (PeerScore \<Rightarrow> PeerScore) \<Rightarrow> P2pTransport \<Rightarrow> P2pTransport" where
  "apply_penalty lib peer penalty mutate t =
    (let now = pt_now t; c = pt_node_config t;
         s = score_of t peer;
         previous_state = classify_peer_reputation_state s now;
         s' = penalize c now penalty mutate s;
         t1 = t\<lparr>pt_peer_scores := AList.update peer s' (pt_peer_scores t)\<rparr>;
         t2 = (if reached_ban_threshold c s' then issue (RemoveExplicitPeer peer) (issue (DisconnectPeer peer) t1) else t1);
         current_state = classify_peer_reputation_state s' now;
         t3 = (if previous_state \<noteq> current_state then on_metrics (record_reputation_transition current_state) t2 else t2)
     in fst (persist_state lib t3))"

definition report_timeout :: "p2p_lib \<Rightarrow> peer_id \<Rightarrow> P2pTransport \<Rightarrow> P2pTransport" where
  "report_timeout lib peer = apply_penalty lib peer 8 (\<lambda>s. s\<lparr>sc_timeout_penalties := sc_timeout_penalties s + 1\<rparr>)"

definition report_invalid_payload :: "p2p_lib \<Rightarrow> peer_id \<Rightarrow> P2pTransport \<Rightarrow> P2pTransport" where
  "report_invalid_payload lib peer =
    apply_penalty lib peer 30 (\<lambda>s. s\<lparr>sc_invalid_payload_penalties := sc_invalid_payload_penalties s + 1\<rparr>)"

definition report_inconsistent_response :: "p2p_lib \<Rightarrow> peer_id \<Rightarrow> P2pTransport \<Rightarrow> P2pTransport" where
  "report_inconsistent_response lib peer =
    apply_penalty lib peer 18 (\<lambda>s. s\<lparr>sc_inconsistent_response_penalties := sc_inconsistent_response_penalties s + 1\<rparr>)"

definition report_successful_interaction :: "p2p_lib \<Rightarrow> peer_id \<Rightarrow> P2pTransport \<Rightarrow> P2pTransport" where
  "report_successful_interaction lib peer t =
    (let s = score_of t peer;
         s1 = s\<lparr>sc_score := min (wrap_i32 (sc_score s + 6)) 20\<rparr>;
         s2 = (if sc_score s1 > nc_probation_clear_score (pt_node_config t) then s1\<lparr>sc_probation_until := None\<rparr> else s1)
     in fst (persist_state lib (t\<lparr>pt_peer_scores := AList.update peer s2 (pt_peer_scores t)\<rparr>)))"

definition peer_score :: "P2pTransport \<Rightarrow> peer_id \<Rightarrow> int" where
  "peer_score t peer = (case map_of (pt_peer_scores t) peer of Some s \<Rightarrow> sc_score s | None \<Rightarrow> 0)"

definition is_peer_banned :: "P2pTransport \<Rightarrow> peer_id \<Rightarrow> bool" where
  "is_peer_banned t peer =
    (case Option.bind (map_of (pt_peer_scores t) peer) sc_banned_until of Some u \<Rightarrow> pt_now t < u | None \<Rightarrow> False)"

definition is_peer_probationary :: "P2pTransport \<Rightarrow> peer_id \<Rightarrow> bool" where
  "is_peer_probationary t peer =
    (case Option.bind (map_of (pt_peer_scores t) peer) sc_probation_until of Some u \<Rightarrow> pt_now t < u | None \<Rightarrow> False)"

definition peer_reputation_snapshot :: "P2pTransport \<Rightarrow> peer_id \<Rightarrow> PeerReputationSnapshot" where
  "peer_reputation_snapshot t peer =
    (case map_of (pt_peer_scores t) peer of
       Some s \<Rightarrow> \<lparr>rs_score = sc_score s, rs_timeout_penalties = sc_timeout_penalties s,
                  rs_invalid_payload_penalties = sc_invalid_payload_penalties s,
                  rs_inconsistent_response_penalties = sc_inconsistent_response_penalties s,
                  rs_state = classify_peer_reputation_state s (pt_now t)\<rparr>
     | None \<Rightarrow> \<lparr>rs_score = 0, rs_timeout_penalties = 0, rs_invalid_payload_penalties = 0,
                rs_inconsistent_response_penalties = 0, rs_state = Neutral\<rparr>)"

definition walk_origin_tags :: "p2p_lib \<Rightarrow> P2pTransport \<Rightarrow> string list" where
  "walk_origin_tags lib t =
    List.map_filter (\<lambda>(_, peer).
      let parsed = (case pl_parse_peer lib (pp_peer_id peer) of Some p \<Rightarrow> p | None \<Rightarrow> pt_local_peer_id t)
      in if \<not> is_peer_banned t parsed \<and> \<not> is_peer_probationary t parsed then Some (pp_origin_tag peer) else None)
    (pt_peer_store t)"

definition random_walk_candidates :: "crypto \<Rightarrow> p2p_lib \<Rightarrow> bytes \<Rightarrow> nat \<Rightarrow> nat \<Rightarrow> P2pTransport \<Rightarrow> bytes list" where
  "random_walk_candidates x lib seed steps max_per_origin t =
    robust_random_walk_with_sources x seed steps (walk_origin_tags lib t) max_per_origin"

section \<open>Peers\<close>

definition observe_peer :: "p2p_lib \<Rightarrow> peer_id \<Rightarrow> string list \<Rightarrow> string \<Rightarrow> P2pTransport \<Rightarrow> P2pTransport" where
  "observe_peer lib peer addresses origin_tag t =
    (let entry = (case map_of (pt_peer_store t) peer of
           Some e \<Rightarrow> e
         | None \<Rightarrow> \<lparr>pp_peer_id = pl_show_peer lib peer, pp_addresses = [], pp_last_seen_unix_seconds = 0,
                    pp_origin_tag = origin_tag\<rparr>);
         entry = entry\<lparr>pp_addresses := foldl (\<lambda>as a. if a \<in> set as then as else as @ [a]) (pp_addresses entry) addresses,
                       pp_last_seen_unix_seconds := pl_unix lib (pt_now t), pp_origin_tag := origin_tag\<rparr>
     in t\<lparr>pt_peer_store := AList.update peer entry (pt_peer_store t)\<rparr>)"

definition dial_peer :: "p2p_lib \<Rightarrow> multiaddr \<Rightarrow> P2pTransport \<Rightarrow> P2pTransport \<times> (TransportError + unit)" where
  "dial_peer lib addr t =
    (case split_peer_addr addr of
       Inl e \<Rightarrow> (t, Inl e)
     | Inr (peer, base_addr) \<Rightarrow>
         if is_peer_banned t peer then (t, Inl (Libp2p ''peer is temporarily banned''))
         else
           let t1 = issue (Dial addr) (issue (AddExplicitPeer peer) (issue (AddAddress peer base_addr) t))
           in case pl_dial lib (pt_now t) addr of
                Inl e \<Rightarrow> (t1, Inl (Libp2p e))
              | Inr _ \<Rightarrow> persist_state lib (observe_peer lib peer [] ''manual-dial'' t1))"

fun configure_addresses ::
    "p2p_lib \<Rightarrow> multiaddr list \<Rightarrow> peer_id list \<Rightarrow> P2pTransport \<Rightarrow> P2pTransport \<times> (TransportError + peer_id list)" where
  "configure_addresses lib [] bootstrap_peers t = (t, Inr bootstrap_peers)"
| "configure_addresses lib (addr # addrs) bootstrap_peers t =
    (case split_peer_addr addr of
       Inl e \<Rightarrow> (t, Inl e)
     | Inr (peer, base_addr) \<Rightarrow>
         if is_peer_banned t peer then configure_addresses lib addrs bootstrap_peers t
         else
           let t1 = issue (Dial addr) (issue (AddExplicitPeer peer) (issue (AddAddress peer base_addr) t))
           in case pl_dial lib (pt_now t) addr of
                Inl e \<Rightarrow> (t1, Inl (Libp2p e))
              | Inr _ \<Rightarrow>
                  configure_addresses lib addrs
                    (if addr \<in> set (nc_bootstrap_nodes (pt_node_config t)) then bootstrap_peers @ [peer] else bootstrap_peers)
                    (observe_peer lib peer [pl_show_addr lib addr] (infer_origin_tag addr) t1))"

definition configure_peers :: "p2p_lib \<Rightarrow> P2pTransport \<Rightarrow> P2pTransport \<times> (TransportError + unit)" where
  "configure_peers lib t =
    (case configure_addresses lib
        (nc_peers (pt_node_config t) @ nc_bootstrap_nodes (pt_node_config t) @ persisted_bootstrap_addrs lib t) [] t of
       (t1, Inl e) \<Rightarrow> (t1, Inl e)
     | (t1, Inr bootstrap_peers) \<Rightarrow>
         persist_state lib (if bootstrap_peers \<noteq> [] then issue KadBootstrap t1 else t1))"

section \<open>Frames\<close>

lemma persist_state_frame [simp]:
  "pt_peer_scores (fst (persist_state lib t)) = pt_peer_scores t"
  "pt_now (fst (persist_state lib t)) = pt_now t"
  "pt_node_config (fst (persist_state lib t)) = pt_node_config t"
  "pt_commands (fst (persist_state lib t)) = pt_commands t"
  "pt_peer_store (fst (persist_state lib t)) = pt_peer_store t"
  "pt_metrics (fst (persist_state lib t)) = pt_metrics t"
  by (simp_all add: persist_state_def Let_def case_prod_beta split: option.split)

lemma issue_simps [simp]:
  "pt_peer_scores (issue c t) = pt_peer_scores t" "pt_now (issue c t) = pt_now t"
  "pt_node_config (issue c t) = pt_node_config t" "pt_commands (issue c t) = pt_commands t @ [c]"
  "pt_events (issue c t) = pt_events t" "pt_config (issue c t) = pt_config t" "pt_metrics (issue c t) = pt_metrics t"
  "pt_next_query (issue c t) = pt_next_query t"
  by (simp_all add: issue_def)

lemma on_metrics_simps [simp]:
  "pt_peer_scores (on_metrics f t) = pt_peer_scores t" "pt_now (on_metrics f t) = pt_now t"
  "pt_node_config (on_metrics f t) = pt_node_config t" "pt_commands (on_metrics f t) = pt_commands t"
  "pt_events (on_metrics f t) = pt_events t" "pt_config (on_metrics f t) = pt_config t" "pt_metrics (on_metrics f t) = f (pt_metrics t)"
  "pt_next_query (on_metrics f t) = pt_next_query t" "pt_known_index_keys (on_metrics f t) = pt_known_index_keys t"
  by (simp_all add: on_metrics_def)

lemma observe_peer_frame [simp]:
  "pt_peer_scores (observe_peer lib p as tag t) = pt_peer_scores t" "pt_now (observe_peer lib p as tag t) = pt_now t"
  "pt_node_config (observe_peer lib p as tag t) = pt_node_config t"
  by (simp_all add: observe_peer_def Let_def)

lemma dial_peer_frame [simp]:
  "pt_peer_scores (fst (dial_peer lib addr t)) = pt_peer_scores t" "pt_now (fst (dial_peer lib addr t)) = pt_now t"
  "pt_node_config (fst (dial_peer lib addr t)) = pt_node_config t"
  by (simp_all add: dial_peer_def Let_def split: sum.split prod.split)

lemma apply_penalty_facts [simp]:
  "map_of (pt_peer_scores (apply_penalty lib peer penalty mutate t)) =
    (map_of (pt_peer_scores t))(peer \<mapsto> penalize (pt_node_config t) (pt_now t) penalty mutate (score_of t peer))"
  "pt_now (apply_penalty lib peer penalty mutate t) = pt_now t"
  "pt_node_config (apply_penalty lib peer penalty mutate t) = pt_node_config t"
  by (simp_all add: apply_penalty_def Let_def update_conv')

lemma apply_penalty_commands:
  "reached_ban_threshold (pt_node_config t) (penalize (pt_node_config t) (pt_now t) penalty mutate (score_of t peer)) \<Longrightarrow>
    pt_commands (apply_penalty lib peer penalty mutate t) = pt_commands t @ [DisconnectPeer peer, RemoveExplicitPeer peer]"
  by (simp add: apply_penalty_def Let_def)

lemma report_success_facts [simp]:
  "pt_now (report_successful_interaction lib peer t) = pt_now t"
  "pt_node_config (report_successful_interaction lib peer t) = pt_node_config t"
  "\<exists>s. map_of (pt_peer_scores (report_successful_interaction lib peer t)) = (map_of (pt_peer_scores t))(peer \<mapsto> s) \<and>
    sc_banned_until s = sc_banned_until (score_of t peer)"
  by (auto simp: report_successful_interaction_def Let_def update_conv')

section \<open>Bans\<close>

lemma decay_banned [simp]: "sc_banned_until (apply_score_decay s now r) = sc_banned_until s"
  by (simp add: apply_score_decay_def Let_def)

lemma reached_ban_threshold_until [simp]:
  "reached_ban_threshold c (s\<lparr>sc_banned_until := a\<rparr>) = reached_ban_threshold c s"
  "reached_ban_threshold c (s\<lparr>sc_probation_until := b\<rparr>) = reached_ban_threshold c s"
  by (simp_all add: reached_ban_threshold_def)

lemma penalize_banned_until:
  assumes "\<And>s. sc_banned_until (mutate s) = sc_banned_until s"
  shows "sc_banned_until (penalize c now penalty mutate s) =
    (if reached_ban_threshold c (penalize c now penalty mutate s) then Some (now + nc_peer_ban_duration c) else sc_banned_until s)"
  by (simp add: penalize_def Let_def assms)

text \<open>A node with nothing to talk to, for evaluation.\<close>

definition quiet_lib :: p2p_lib where
  "quiet_lib =
    \<lparr>pl_show_peer = bytes_str, pl_parse_peer = (\<lambda>s. Some (str_bytes s)), pl_show_addr = (\<lambda>_. ''addr''),
     pl_parse_addr = (\<lambda>_. None), pl_show_path = concat, pl_show_error = (\<lambda>_. ''error''), pl_dial = (\<lambda>_ _. Inr ()),
     pl_subscribe = (\<lambda>_ _. Inr ()), pl_has_subscribers = (\<lambda>_ _. False),
     pl_publish = (\<lambda>_ _ _. NoPeersSubscribedToTopic), pl_connected = (\<lambda>_. 0), pl_unix = (\<lambda>now. word_of_nat (as_secs now)),
     pl_jitter = (\<lambda>_ d. d), pl_scale = (\<lambda>p d. p * d div 100), pl_snapshot_json = one_json, pl_snapshot_unjson = one_unjson,
     pl_manifest_json = (\<lambda>_. Inr []), pl_manifest_unjson = (\<lambda>_. Inl ''unsupported''),
     pl_faults = (\<lambda>_. \<lparr>ff_mkdir = None, ff_write = None, ff_rename = None\<rparr>), pl_rename_fault = (\<lambda>_. None),
     pl_read_error = ''missing''\<rparr>"

definition blank_node :: "P2pNodeConfig \<Rightarrow> P2pTransport" where
  "blank_node c =
    \<lparr>pt_config = small_config, pt_node_config = c, pt_local_peer_id = [0],
     pt_listen_addrs = [], pt_peer_store = [], pt_known_manifests = [], pt_known_index_keys = [], pt_peer_scores = [],
     pt_persistence_warnings = [], pt_snapshot_recovery_status = SnapshotRecoveryStatus_default,
     pt_metrics = P2pMetrics_default, pt_now = 0, pt_events = [], pt_commands = [], pt_next_query = 0,
     pt_files = Map.empty\<rparr>"

lemma score_of_report:
  "score_of (report_invalid_payload lib peer t) peer = penalize (pt_node_config t) (pt_now t) 30
    (\<lambda>s. s\<lparr>sc_invalid_payload_penalties := sc_invalid_payload_penalties s + 1\<rparr>) (score_of t peer)"
  by (simp add: report_invalid_payload_def score_of_def)

section \<open>Restart\<close>

definition snapshot_json_correct :: "p2p_lib \<Rightarrow> bool" where
  "snapshot_json_correct lib \<longleftrightarrow> (\<forall>s b. pl_snapshot_json lib s = Inr b \<longrightarrow> pl_snapshot_unjson lib b = Inr s)"

definition peer_text_correct :: "p2p_lib \<Rightarrow> bool" where
  "peer_text_correct lib \<longleftrightarrow> (\<forall>p. pl_parse_peer lib (pl_show_peer lib p) = Some p)"

lemma persist_state_written:
  assumes "persist_state lib t = (t', Inr ())" "nc_persistence_path (pt_node_config t) = Some path"
  shows "\<exists>b. pl_snapshot_json lib (canonical_snapshot (state_snapshot lib t)) = Inr b \<and> pt_files t' path = Some b"
  using assms
  by (auto simp: persist_state_def write_bootstrap_snapshot_atomic_def encode_bootstrap_snapshot_def Let_def
      path_parent_def path_file_name_def split: prod.splits sum.splits option.splits if_splits)

lemma foldl_update_lookup:
  assumes "\<forall>r\<in>set rs. key r = Some p \<longrightarrow> f r = v"
  shows "map_of (foldl (\<lambda>m r. case key r of Some q \<Rightarrow> AList.update q (f r) m | None \<Rightarrow> m) m rs) p =
    (if \<exists>r\<in>set rs. key r = Some p then Some v else map_of m p)"
  using assms
proof (induction rs arbitrary: m)
  case (Cons a rs)
  then show ?case by (cases "key a") (simp_all add: update_conv')
qed simp

lemma restore_snapshot_scores:
  "pt_peer_scores (restore_snapshot lib s t) =
    foldl (\<lambda>sc r. case pl_parse_peer lib (pr_peer_id r) of
      Some p \<Rightarrow> AList.update p (load_peer_score lib (pt_now t) r) sc | None \<Rightarrow> sc) (pt_peer_scores t) (pb_peer_reputation s)"
  by (simp add: restore_snapshot_def)

lemma restored_score:
  assumes "peer_text_correct lib" "distinct (map fst (pt_peer_scores t))" "map_of (pt_peer_scores t) p = Some s"
  shows "map_of (pt_peer_scores (restore_snapshot lib (canonical_snapshot (state_snapshot lib t)) t0)) p =
    Some (load_peer_score lib (pt_now t0) (persist_peer_score lib (pt_now t) p s))"
proof -
  let ?rs = "pb_peer_reputation (canonical_snapshot (state_snapshot lib t))"
  have mem: "r \<in> set ?rs \<longleftrightarrow> (\<exists>q u. (q, u) \<in> set (pt_peer_scores t) \<and> r = persist_peer_score lib (pt_now t) q u)" for r
    by (auto simp: canonical_snapshot_def state_snapshot_def)
  have parse: "pl_parse_peer lib (pr_peer_id (persist_peer_score lib n q u)) = Some q" for n q u
    using assms(1) by (simp add: peer_text_correct_def persist_peer_score_def)
  have v: "\<forall>r\<in>set ?rs. pl_parse_peer lib (pr_peer_id r) = Some p \<longrightarrow>
      load_peer_score lib (pt_now t0) r = load_peer_score lib (pt_now t0) (persist_peer_score lib (pt_now t) p s)"
  proof (intro ballI impI)
    fix r
    assume "r \<in> set ?rs" "pl_parse_peer lib (pr_peer_id r) = Some p"
    then obtain u where "(p, u) \<in> set (pt_peer_scores t)" "r = persist_peer_score lib (pt_now t) p u"
      unfolding mem by (auto simp: parse)
    then show "load_peer_score lib (pt_now t0) r = load_peer_score lib (pt_now t0) (persist_peer_score lib (pt_now t) p s)"
      using map_of_is_SomeI [OF assms(2)] assms(3) by simp
  qed
  have "persist_peer_score lib (pt_now t) p s \<in> set ?rs"
    unfolding mem using map_of_SomeD [OF assms(3)] by blast
  then have "\<exists>r\<in>set ?rs. pl_parse_peer lib (pr_peer_id r) = Some p" using parse by blast
  then show ?thesis
    unfolding restore_snapshot_scores foldl_update_lookup [OF v] by simp
qed

lemma restored_instant:
  assumes "unat (pl_unix lib now) + as_secs (u - now) < 2 ^ 64"
  shows "unix_seconds_to_instant lib now' (instant_to_unix_seconds lib now u) =
    now' + secs (unat (pl_unix lib now) + as_secs (u - now) - unat (pl_unix lib now'))"
proof -
  let ?w = "instant_to_unix_seconds lib now u"
  have w: "unat ?w = unat (pl_unix lib now) + as_secs (u - now)"
    using assms by (simp add: instant_to_unix_seconds_def unat_word_ariths unat_of_nat)
  show ?thesis
  proof (cases "?w \<le> pl_unix lib now'")
    case True
    then show ?thesis using w by (simp add: unix_seconds_to_instant_def word_le_nat_alt secs_def)
  next
    case False
    then have "unat (?w - pl_unix lib now') = unat ?w - unat (pl_unix lib now')"
      by (simp add: unat_sub)
    with False w show ?thesis by (simp add: unix_seconds_to_instant_def)
  qed
qed

text \<open>The instant at which a node that loads a snapshot at instant \<open>now'\<close> ends a ban or probation that the node
  that wrote it at instant \<open>now\<close> would have ended at \<open>u\<close>: the wall clock second of the end is kept.\<close>

definition carried_until :: "p2p_lib \<Rightarrow> nat \<Rightarrow> nat \<Rightarrow> nat \<Rightarrow> nat" where
  "carried_until lib now now' u =
    now' + 1000000000 * (unat (pl_unix lib now) + (u - now) div 1000000000 - unat (pl_unix lib now'))"

text \<open>C22. Restart: after a snapshot was written, a fresh node that loads it has the same manifests and inbox keys,
  and for every peer with a score the same score and penalty counters.  A ban ends at the wall clock second at
  which it would have ended, counted in whole seconds from when the snapshot was taken: at every instant the
  restarted node holds a peer banned exactly until then, and probations end likewise.  The clock must leave
  room for the ends in 64 bits.\<close>

theorem restart_keeps_reputation:
  assumes "snapshot_json_correct lib" "peer_text_correct lib" "distinct (map fst (pt_peer_scores t))"
    and "persist_state lib t = (t1, Inr ())" "nc_persistence_path (pt_node_config t) = Some path"
    and "pt_node_config t2 = pt_node_config t" "pt_files t2 = pt_files t1"
    and fits: "\<forall>p s u. (p, s) \<in> set (pt_peer_scores t) \<and> (sc_banned_until s = Some u \<or> sc_probation_until s = Some u) \<longrightarrow>
      unat (pl_unix lib (pt_now t)) + (u - pt_now t) div 1000000000 < 2 ^ 64"
  shows "\<exists>t3. load_persisted_state lib t2 = (t3, Inr ()) \<and> mset (pt_known_manifests t3) = mset (pt_known_manifests t) \<and>
    set (pt_known_index_keys t3) = set (pt_known_index_keys t) \<and>
    (\<forall>p s. map_of (pt_peer_scores t) p = Some s \<longrightarrow>
      map_of (pt_peer_scores t3) p = Some (s\<lparr>
        sc_probation_until := map_option (carried_until lib (pt_now t) (pt_now t2)) (sc_probation_until s),
        sc_banned_until := map_option (carried_until lib (pt_now t) (pt_now t2)) (sc_banned_until s),
        sc_last_decay_at := pt_now t2\<rparr>) \<and>
      (\<forall>now. is_peer_banned (t3\<lparr>pt_now := now\<rparr>) p \<longleftrightarrow>
        (\<exists>u. sc_banned_until s = Some u \<and> now < carried_until lib (pt_now t) (pt_now t2) u)))"
proof -
  let ?c = "canonical_snapshot (state_snapshot lib t)"
  let ?r = "restore_snapshot lib ?c t2"
  obtain b where b: "pl_snapshot_json lib ?c = Inr b" "pt_files t1 path = Some b"
    using persist_state_written [OF assms(4,5)] by blast
  have j: "pl_snapshot_unjson lib b = Inr ?c"
    using assms(1) b(1) unfolding snapshot_json_correct_def by blast
  have "load_persisted_state lib t2 = (?r, Inr ())"
    using assms(5-7) b(2) j
    by (simp add: load_persisted_state_def read_bootstrap_snapshot_def decode_bootstrap_snapshot_def)
  moreover have "mset (pt_known_manifests ?r) = mset (pt_known_manifests t)"
    "set (pt_known_index_keys ?r) = set (pt_known_index_keys t)"
    by (simp_all add: restore_snapshot_def canonical_snapshot_def state_snapshot_def sort_dedup_def)
  moreover have score: "map_of (pt_peer_scores ?r) p = Some (s\<lparr>
        sc_probation_until := map_option (carried_until lib (pt_now t) (pt_now t2)) (sc_probation_until s),
        sc_banned_until := map_option (carried_until lib (pt_now t) (pt_now t2)) (sc_banned_until s),
        sc_last_decay_at := pt_now t2\<rparr>)" if s: "map_of (pt_peer_scores t) p = Some s" for p s
  proof -
    have "unix_seconds_to_instant lib (pt_now t2) (instant_to_unix_seconds lib (pt_now t) u) =
        carried_until lib (pt_now t) (pt_now t2) u" if "sc_banned_until s = Some u \<or> sc_probation_until s = Some u" for u
      using restored_instant [of lib "pt_now t" u "pt_now t2"] fits map_of_SomeD [OF s] that
      by (auto simp: carried_until_def secs_def as_secs_def mult.commute)
    then have "load_peer_score lib (pt_now t2) (persist_peer_score lib (pt_now t) p s) = s\<lparr>
        sc_probation_until := map_option (carried_until lib (pt_now t) (pt_now t2)) (sc_probation_until s),
        sc_banned_until := map_option (carried_until lib (pt_now t) (pt_now t2)) (sc_banned_until s),
        sc_last_decay_at := pt_now t2\<rparr>"
      by (cases "sc_banned_until s"; cases "sc_probation_until s")
        (simp_all add: load_peer_score_def persist_peer_score_def)
    then show ?thesis using restored_score [OF assms(2,3) s, of t2] by simp
  qed
  moreover have "is_peer_banned (?r\<lparr>pt_now := now\<rparr>) p \<longleftrightarrow>
      (\<exists>u. sc_banned_until s = Some u \<and> now < carried_until lib (pt_now t) (pt_now t2) u)"
    if "map_of (pt_peer_scores t) p = Some s" for p s now
    using score [OF that] by (cases "sc_banned_until s") (simp_all add: is_peer_banned_def)
  ultimately show ?thesis by (intro exI [of _ ?r]) blast
qed

definition saving_lib :: "PersistedBootstrapState \<Rightarrow> p2p_lib" where
  "saving_lib s0 = quiet_lib\<lparr>pl_snapshot_json := (\<lambda>s. if s = s0 then Inr [1] else Inl ''unsupported''),
     pl_snapshot_unjson := (\<lambda>b. if b = [1] then Inr s0 else Inl ''unsupported'')\<rparr>"

definition banned_node :: P2pTransport where
  "banned_node = (blank_node (P2pNodeConfig_default\<lparr>nc_persistence_path := Some [''peers.json'']\<rparr>))
     \<lparr>pt_peer_scores := [([7], (PeerScore_neutral 0)\<lparr>sc_score := - 60, sc_banned_until := Some (secs 30)\<rparr>)]\<rparr>"

theorem restart_keeps_reputation_witness:
  "let lib = saving_lib (canonical_snapshot (state_snapshot quiet_lib banned_node));
       restarted = fst (load_persisted_state lib ((blank_node (pt_node_config banned_node))
         \<lparr>pt_now := secs 10, pt_files := pt_files (fst (persist_state lib banned_node))\<rparr>))
   in is_peer_banned (restarted\<lparr>pt_now := secs 30 - 1\<rparr>) [7] \<and> \<not> is_peer_banned (restarted\<lparr>pt_now := secs 30\<rparr>) [7] \<and>
      peer_score restarted [7] = - 60"
proof -
  let ?lib = "saving_lib (canonical_snapshot (state_snapshot quiet_lib banned_node))"
  let ?n = "(blank_node (pt_node_config banned_node))\<lparr>pt_now := secs 10, pt_files := pt_files (fst (persist_state ?lib banned_node))\<rparr>"
  let ?s = "(PeerScore_neutral 0)\<lparr>sc_score := - 60, sc_banned_until := Some (secs 30)\<rparr>"
  have same: "state_snapshot ?lib banned_node = state_snapshot quiet_lib banned_node"
    by (simp add: state_snapshot_def saving_lib_def persist_peer_score_def instant_to_unix_seconds_def [abs_def])
  have laws: "snapshot_json_correct ?lib" "peer_text_correct ?lib"
    by (auto simp: snapshot_json_correct_def peer_text_correct_def saving_lib_def quiet_lib_def split: if_splits)
  have path: "nc_persistence_path (pt_node_config banned_node) = Some [''peers.json'']"
    by (simp add: banned_node_def blank_node_def)
  have lib: "pl_snapshot_json ?lib (canonical_snapshot (state_snapshot quiet_lib banned_node)) = Inr [1]"
    "pl_faults ?lib at = \<lparr>ff_mkdir = None, ff_write = None, ff_rename = None\<rparr>" for at
    by (simp add: saving_lib_def) (simp add: saving_lib_def quiet_lib_def)
  have "snd (persist_state ?lib banned_node) = Inr ()"
    unfolding persist_state_def path write_bootstrap_snapshot_atomic_def encode_bootstrap_snapshot_def same lib
    by (simp add: path_parent_def path_file_name_def)
  then have saved: "persist_state ?lib banned_node = (fst (persist_state ?lib banned_node), Inr ())"
    by (metis prod.collapse)
  have scores: "pt_peer_scores banned_node = [([7], ?s)]" "pt_now banned_node = 0"
    by (simp_all add: banned_node_def blank_node_def)
  have unix: "pl_unix ?lib 0 = 0" "pl_unix ?lib (secs 10) = 10"
    by (simp_all add: saving_lib_def quiet_lib_def as_secs_def secs_def)
  have n: "pt_node_config ?n = pt_node_config banned_node"
    "pt_files ?n = pt_files (fst (persist_state ?lib banned_node))" "pt_now ?n = secs 10"
    by (simp_all add: blank_node_def)
  have until: "carried_until ?lib 0 (secs 10) (secs 30) = secs 30"
    unfolding carried_until_def unix by (simp add: secs_def)
  have fits: "\<forall>p s u. (p, s) \<in> set (pt_peer_scores banned_node) \<and> (sc_banned_until s = Some u \<or> sc_probation_until s = Some u) \<longrightarrow>
      unat (pl_unix ?lib (pt_now banned_node)) + (u - pt_now banned_node) div 1000000000 < 2 ^ 64"
    unfolding scores unix by (auto simp: PeerScore_neutral_def secs_def)
  have "distinct (map fst (pt_peer_scores banned_node))" by (simp add: scores)
  then obtain t3 where t3: "load_persisted_state ?lib ?n = (t3, Inr ())"
    and all: "\<And>p s. map_of (pt_peer_scores banned_node) p = Some s \<Longrightarrow>
      map_of (pt_peer_scores t3) p = Some (s\<lparr>
        sc_probation_until := map_option (carried_until ?lib 0 (secs 10)) (sc_probation_until s),
        sc_banned_until := map_option (carried_until ?lib 0 (secs 10)) (sc_banned_until s), sc_last_decay_at := secs 10\<rparr>) \<and>
      (\<forall>now. is_peer_banned (t3\<lparr>pt_now := now\<rparr>) p \<longleftrightarrow> (\<exists>u. sc_banned_until s = Some u \<and> now < carried_until ?lib 0 (secs 10) u))"
    using restart_keeps_reputation [OF laws _ saved path n(1,2) fits] unfolding n(3) scores(2) by blast
  have "map_of (pt_peer_scores banned_node) [7] = Some ?s" by (simp add: scores)
  note seven = all [OF this]
  have "is_peer_banned (t3\<lparr>pt_now := secs 30 - 1\<rparr>) [7]" "\<not> is_peer_banned (t3\<lparr>pt_now := secs 30\<rparr>) [7]"
    using seven [THEN conjunct2] until by (simp_all add: secs_def)
  moreover have "peer_score t3 [7] = - 60" using seven [THEN conjunct1] by (simp add: peer_score_def)
  ultimately show ?thesis unfolding Let_def t3 fst_conv by blast
qed

section \<open>Rates\<close>

text \<open>A rate in basis points is at most 10000 when the counted events are among the attempts, whatever
  the counters, and it is the exact quotient as long as the count stays below \<open>2 ^ 64 / 10000\<close>.\<close>

theorem success_rate_bounded:
  assumes "pm_publish_success m \<le> pm_publish_attempts m"
  shows "publish_success_rate_bps m \<le> 10000 \<and>
    (unat (pm_publish_success m) * 10000 < 2 ^ 64 \<longrightarrow> pm_publish_attempts m \<noteq> 0 \<longrightarrow>
      unat (publish_success_rate_bps m) = unat (pm_publish_success m) * 10000 div unat (pm_publish_attempts m))"
proof -
  let ?p = "unat (pm_publish_success m)" and ?w = "unat (pm_publish_attempts m)"
  have le: "?p \<le> ?w" using assms by (simp add: word_le_nat_alt)
  let ?q = "sat_mul (pm_publish_success m) 10000 div pm_publish_attempts m"
  have q: "unat ?q = min (?p * 10000) (2 ^ 64 - 1) div ?w"
    using unat_sat_mul [of "pm_publish_success m" 10000] by (simp add: unat_div)
  also have "\<dots> \<le> ?p * 10000 div ?w" by (rule div_le_mono) simp
  also have "\<dots> \<le> 10000"
  proof (cases "?w = 0")
    case False
    have "?p * 10000 div ?w \<le> ?w * 10000 div ?w" using le by (intro div_le_mono mult_le_mono1)
    also have "\<dots> = 10000" using False by (simp only: nonzero_mult_div_cancel_left not_False_eq_True)
    finally show ?thesis .
  qed simp
  finally have small: "unat ?q \<le> 10000" .
  then have "unat (ucast ?q :: u32) = unat ?q" by (intro unat_ucast_small) simp
  with small q le show ?thesis
    by (auto simp: publish_success_rate_bps_def ratio_bps_def word_le_nat_alt)
qed

theorem success_rate_bounded_witness:
  "unat (publish_success_rate_bps (P2pMetrics_default\<lparr>pm_publish_success := 3, pm_publish_attempts := 4\<rparr>)) = 7500"
proof -
  let ?m = "P2pMetrics_default\<lparr>pm_publish_success := 3, pm_publish_attempts := 4\<rparr>"
  have u: "unat (pm_publish_success ?m) = 3" "unat (pm_publish_attempts ?m) = 4" by simp_all
  then have "pm_publish_success ?m \<le> pm_publish_attempts ?m" "pm_publish_attempts ?m \<noteq> 0"
    by (simp_all only: word_le_nat_alt unat_eq_0 [symmetric])
  with success_rate_bounded [of ?m] u show ?thesis by (simp only: u) simp
qed

end
