(* ===== verification/P2p_Flow.thy ===== *)
theory P2p_Flow
  imports P2p_Node
begin

text \<open>
  The network operations of \<open>spex-transport/src/p2p.rs\<close>: starting a node, publishing to inboxes, fetching
  the chunks of a manifest and recovering payloads.

  The swarm's event stream is the list \<open>pt_events\<close> of events with the instant each arrives, in that order.
  Waiting for an event takes the next one and moves the clock to its arrival; waiting with a timer moves
  the clock to whichever is first.  A wait without a timer on an exhausted stream never returns, which is
  the value \<open>None\<close>.
\<close>

section \<open>Waiting\<close>

text \<open>Every caller passes \<open>drive_swarm\<close> a handler that ignores its event.\<close>

definition drive_swarm :: "nat \<Rightarrow> P2pTransport \<Rightarrow> P2pTransport" where
  "drive_swarm duration t =
    t\<lparr>pt_now := pt_now t + duration, pt_events := dropWhile (\<lambda>(at, _). at \<le> pt_now t + duration) (pt_events t)\<rparr>"

definition drive_for :: "nat \<Rightarrow> P2pTransport \<Rightarrow> P2pTransport" where
  "drive_for duration t = drive_swarm duration t"

primrec collect_listen :: "nat \<Rightarrow> (nat \<times> swarm_event) list \<Rightarrow> P2pTransport \<Rightarrow> P2pTransport option" where
  "collect_listen deadline [] t = (if pt_now t < deadline then None else Some t)"
| "collect_listen deadline (ev # es) t =
    (if \<not> pt_now t < deadline then Some t
     else
       let t1 = t\<lparr>pt_now := max (pt_now t) (fst ev), pt_events := es\<rparr>
       in case snd ev of
            NewListenAddr address \<Rightarrow>
              let t2 = t1\<lparr>pt_listen_addrs := pt_listen_addrs t1 @ [address]\<rparr>
              in if length (pt_listen_addrs t2) \<ge> length (nc_listen_addrs (pt_node_config t2)) then Some t2
                 else collect_listen deadline es t2
          | _ \<Rightarrow> collect_listen deadline es t1)"

definition collect_listen_addrs :: "P2pTransport \<Rightarrow> P2pTransport option" where
  "collect_listen_addrs t =
    (if pt_listen_addrs t \<noteq> [] then Some t else collect_listen (pt_now t + secs 2) (pt_events t) t)"

section \<open>Starting a node\<close>

definition initial_node ::
    "TransportConfig \<Rightarrow> P2pNodeConfig \<Rightarrow> peer_id \<Rightarrow> nat \<Rightarrow> (nat \<times> swarm_event) list \<Rightarrow> files \<Rightarrow> P2pTransport" where
  "initial_node config node_config local_peer now events fs =
    \<lparr>pt_config = config, pt_node_config = node_config, pt_local_peer_id = local_peer, pt_listen_addrs = [],
     pt_peer_store = [], pt_known_manifests = [], pt_known_index_keys = [], pt_peer_scores = [],
     pt_persistence_warnings = [], pt_snapshot_recovery_status = SnapshotRecoveryStatus_default,
     pt_metrics = P2pMetrics_default, pt_now = now, pt_events = events, pt_commands = [], pt_next_query = 0,
     pt_files = fs\<rparr>"

definition load_or_warn :: "p2p_lib \<Rightarrow> P2pTransport \<Rightarrow> P2pTransport" where
  "load_or_warn lib t =
    (case load_persisted_state lib t of
       (t1, Inr _) \<Rightarrow> t1
     | (t1, Inl e) \<Rightarrow> t1\<lparr>pt_persistence_warnings := pt_persistence_warnings t1 @ [pl_show_error lib e]\<rparr>)"

text \<open>\<open>listen\<close> is the swarm's answer to \<open>listen_on\<close>.\<close>

definition P2pTransport_new ::
    "p2p_lib \<Rightarrow> (multiaddr \<Rightarrow> string + unit) \<Rightarrow> TransportConfig \<Rightarrow> P2pNodeConfig \<Rightarrow> peer_id \<Rightarrow> nat \<Rightarrow>
      (nat \<times> swarm_event) list \<Rightarrow> files \<Rightarrow> (files \<times> (TransportError + P2pTransport)) option" where
  "P2pTransport_new lib listen config node_config local_peer now events fs =
    (case traverse (\<lambda>addr. map_err Libp2p (listen addr)) (nc_listen_addrs node_config) of
       Inl e \<Rightarrow> Some (fs, Inl e)
     | Inr _ \<Rightarrow>
         (case configure_peers lib (load_or_warn lib (initial_node config node_config local_peer now events fs)) of
            (t1, Inl e) \<Rightarrow> Some (pt_files t1, Inl e)
          | (t1, Inr _) \<Rightarrow>
              map_option (\<lambda>t2. case persist_state lib t2 of
                  (t3, Inl e) \<Rightarrow> (pt_files t3, Inl e)
                | (t3, Inr _) \<Rightarrow> (pt_files t3, Inr t3))
                (collect_listen_addrs t1)))"

section \<open>Publishing\<close>

definition inbox_gossip_topic :: "codec \<Rightarrow> bytes \<Rightarrow> string" where
  "inbox_gossip_topic k hashed_key = ''spex/transport/'' @ cx_hex k hashed_key"

definition issue_all :: "kad_command list \<Rightarrow> P2pTransport \<Rightarrow> P2pTransport" where
  "issue_all cs t = foldl (\<lambda>t c. issue (Kad c) t) t cs"

function wait_connected :: "p2p_lib \<Rightarrow> nat \<Rightarrow> P2pTransport \<Rightarrow> P2pTransport" where
  "wait_connected lib deadline t =
    (if pl_connected lib (pt_now t) = 0 \<and> pt_now t < deadline
     then wait_connected lib deadline (drive_swarm (millis 200) t) else t)"
  by pat_completeness auto

termination
  by (relation "measure (\<lambda>(_, deadline, t). deadline - pt_now t)") (auto simp: drive_swarm_def millis_def)

function wait_subscribers :: "p2p_lib \<Rightarrow> nat \<Rightarrow> string \<Rightarrow> P2pTransport \<Rightarrow> P2pTransport" where
  "wait_subscribers lib deadline topic t =
    (if pt_now t < deadline \<and> \<not> pl_has_subscribers lib (pt_now t) topic
     then wait_subscribers lib deadline topic (drive_swarm (millis 200) (issue (Subscribe topic) t)) else t)"
  by pat_completeness auto

termination
  by (relation "measure (\<lambda>(_, deadline, _, t). deadline - pt_now t)") (auto simp: drive_swarm_def issue_def millis_def)

function publish_loop ::
    "p2p_lib \<Rightarrow> AdaptiveRetryConfig \<Rightarrow> nat \<Rightarrow> string \<Rightarrow> bytes \<Rightarrow> u32 \<Rightarrow> P2pTransport \<Rightarrow> P2pTransport \<times> (TransportError + unit)"
where
  "publish_loop lib retry deadline topic payload attempts t =
    (let t1 = issue (GossipSend topic payload) t
     in case pl_publish lib (pt_now t) topic payload of
          Published \<Rightarrow> (t1, Inr ())
        | NoPeersSubscribedToTopic \<Rightarrow>
            if pt_now t < deadline \<and> attempts < ar_max_retries retry
            then publish_loop lib retry deadline topic payload (attempts + 1)
                   (drive_swarm (delay_for_attempt (pl_jitter lib (pt_now t)) retry (attempts + 1))
                     (on_metrics (record_retry PublishOp) t1))
            else (on_metrics (record_timeout PublishOp) t1,
                  Inl (Libp2p ''manifest publish timed out waiting for peers''))
        | PublishRefused e \<Rightarrow> (t1, Inl (GossipPublish e)))"
  by pat_completeness auto

termination
proof (relation "measure (\<lambda>(_, retry, _, _, _, attempts, _). unat (ar_max_retries retry) - unat attempts)")
  show "wf (measure (\<lambda>(_, retry, _, _, _, attempts, _). unat (ar_max_retries retry) - unat attempts))" by simp
next
  fix lib :: p2p_lib and retry :: AdaptiveRetryConfig and deadline topic payload and attempts :: u32 and t :: P2pTransport and x
  assume "pt_now t < deadline \<and> attempts < ar_max_retries retry"
  then have "attempts < ar_max_retries retry" by simp
  then have "unat (attempts + 1) = unat attempts + 1" "unat attempts < unat (ar_max_retries retry)"
    by (simp_all add: unat_add_one_less word_less_nat_alt)
  then show "((lib, retry, deadline, topic, payload, attempts + 1,
      drive_swarm (delay_for_attempt (pl_jitter lib (pt_now t)) retry (attempts + 1)) (on_metrics (record_retry PublishOp) x)),
      lib, retry, deadline, topic, payload, attempts, t)
    \<in> measure (\<lambda>(_, retry, _, _, _, attempts, _). unat (ar_max_retries retry) - unat attempts)"
    by simp
qed

declare wait_connected.simps [simp del] wait_subscribers.simps [simp del] publish_loop.simps [simp del]

definition publish_to_inbox_topic ::
    "crypto \<Rightarrow> codec \<Rightarrow> p2p_lib \<Rightarrow> AdaptiveRetryConfig \<Rightarrow> nat \<Rightarrow> bytes \<Rightarrow> bytes \<Rightarrow> P2pTransport \<Rightarrow>
      P2pTransport \<times> (TransportError + unit)" where
  "publish_to_inbox_topic x k lib retry publish_wait payload inbox_key t =
    (let t1 = wait_connected lib (pt_now t + publish_wait) t;
         topic = inbox_gossip_topic k (sr_hashed_key (derive_inbox_scan_key x Sha256 inbox_key));
         t2 = issue (Subscribe topic) t1
     in case pl_subscribe lib (pt_now t1) topic of
          Inl e \<Rightarrow> (t2, Inl (Libp2p e))
        | Inr _ \<Rightarrow>
            let deadline = pt_now t2 + publish_wait;
                t3 = wait_subscribers lib deadline topic t2
            in publish_loop lib retry deadline topic payload 0 t3)"

fun publish_each ::
    "(bytes \<Rightarrow> P2pTransport \<Rightarrow> P2pTransport \<times> (TransportError + unit)) \<Rightarrow> bytes list \<Rightarrow> P2pTransport \<Rightarrow>
      P2pTransport \<times> (TransportError + unit)" where
  "publish_each f [] t = (t, Inr ())"
| "publish_each f (key # keys) t =
    (case f key t of (t1, Inl e) \<Rightarrow> (t1, Inl e) | (t1, Inr _) \<Rightarrow> publish_each f keys t1)"

definition insert_key :: "string list \<Rightarrow> string \<Rightarrow> string list" where
  "insert_key keys key = (if key \<in> set keys then keys else keys @ [key])"

definition publish_to_inboxes ::
    "crypto \<Rightarrow> codec \<Rightarrow> p2p_lib \<Rightarrow> bytes list \<Rightarrow> ChunkManifest \<Rightarrow> Chunk list \<Rightarrow> P2pTransport \<Rightarrow>
      P2pTransport \<times> (TransportError + unit)" where
  "publish_to_inboxes x k lib inbox_keys m chunks t =
    (let operation_start = pt_now t;
         t1 = on_metrics (record_attempt PublishOp) (t\<lparr>pt_known_manifests := pt_known_manifests t @ [m]\<rparr>);
         retry = adaptive_retry (pt_node_config t1);
         (publish_wait, _, _) = tuned_timeouts lib t1;
         t2 = t1\<lparr>pt_known_index_keys := foldl insert_key (pt_known_index_keys t1) (map (cx_hex k) inbox_keys)\<rparr>;
         t3 = issue_all (publish_chunks (pt_config t2) chunks) t2
     in case manifest_payload (pl_manifest_json lib) m of
          Inl e \<Rightarrow> (t3, Inl e)
        | Inr payload \<Rightarrow>
            (case publish_each (publish_to_inbox_topic x k lib retry publish_wait payload) inbox_keys
                (drive_swarm publish_wait t3) of
               (t4, Inl e) \<Rightarrow> (t4, Inl e)
             | (t4, Inr _) \<Rightarrow>
                 let t5 = drive_swarm publish_wait t4
                 in case persist_state lib t5 of
                      (t6, Inl e) \<Rightarrow> (t6, Inl e)
                    | (t6, Inr _) \<Rightarrow> (on_metrics (record_success PublishOp (pt_now t6 - operation_start)) t6, Inr ())))"

definition node_publish_chunks :: "p2p_lib \<Rightarrow> Chunk list \<Rightarrow> P2pTransport \<Rightarrow> P2pTransport" where
  "node_publish_chunks lib chunks t =
    (let t1 = issue_all (publish_chunks (pt_config t) chunks) t;
         (publish_wait, _, _) = tuned_timeouts lib t1
     in drive_swarm publish_wait t1)"

section \<open>Fetching the chunks of a manifest\<close>

definition extract_records :: "crypto \<Rightarrow> bytes set \<Rightarrow> HashId \<Rightarrow> get_record_ok \<Rightarrow> (bytes \<rightharpoonup> bytes)" where
  "extract_records x expected hash_id result =
    (case result of
       FoundRecord hash data \<Rightarrow> if hash \<in> expected \<and> hash_bytes x hash_id data = hash then [hash \<mapsto> data] else Map.empty
     | FinishedWithNoAdditionalRecord \<Rightarrow> Map.empty)"

record fetch_state =
  ft_pending :: "(nat \<times> bytes) list"
  ft_store :: "bytes \<rightharpoonup> bytes"
  ft_retries :: "bytes \<Rightarrow> u32"

definition start_query :: "bytes \<Rightarrow> fetch_state \<times> P2pTransport \<Rightarrow> fetch_state \<times> P2pTransport" where
  "start_query hash st =
    (let (f, t) = st
     in (f\<lparr>ft_pending := AList.update (pt_next_query t) hash (ft_pending f)\<rparr>,
         (issue (Kad (GetRecord hash)) t)\<lparr>pt_next_query := pt_next_query t + 1\<rparr>))"

definition retry_query ::
    "p2p_lib \<Rightarrow> AdaptiveRetryConfig \<Rightarrow> nat \<Rightarrow> nat \<Rightarrow> fetch_state \<times> P2pTransport \<Rightarrow> fetch_state \<times> P2pTransport" where
  "retry_query lib retry deadline qid st =
    (let (f, t) = st
     in if \<not> pt_now t < deadline then st
        else case map_of (ft_pending f) qid of
            None \<Rightarrow> st
          | Some hash \<Rightarrow>
              if ft_retries f hash < ar_max_retries retry
              then
                let attempt = ft_retries f hash + 1;
                    t1 = on_metrics (record_retry QueryOp) t;
                    t2 = t1\<lparr>pt_now := pt_now t1 + delay_for_attempt (pl_jitter lib (pt_now t1)) retry attempt\<rparr>
                in start_query hash (f\<lparr>ft_retries := (ft_retries f)(hash := attempt)\<rparr>, t2)
              else st)"

definition fetch_progress ::
    "crypto \<Rightarrow> p2p_lib \<Rightarrow> bytes set \<Rightarrow> AdaptiveRetryConfig \<Rightarrow> nat \<Rightarrow> nat \<Rightarrow> query_result \<Rightarrow>
      fetch_state \<times> P2pTransport \<Rightarrow> fetch_state \<times> P2pTransport" where
  "fetch_progress x lib expected retry deadline qid result st =
    (let (f, t) =
       (case result of
          GetRecordDone (FoundRecord key data) \<Rightarrow>
            ((fst st)\<lparr>ft_store := ft_store (fst st) ++
                extract_records x expected (cc_hash_id (tr_chunking (pt_config (snd st)))) (FoundRecord key data)\<rparr>, snd st)
        | GetRecordDone FinishedWithNoAdditionalRecord \<Rightarrow> retry_query lib retry deadline qid st
        | _ \<Rightarrow> st)
     in (f\<lparr>ft_pending := AList.delete qid (ft_pending f)\<rparr>, t))"

primrec fetch_loop ::
    "crypto \<Rightarrow> p2p_lib \<Rightarrow> bytes set \<Rightarrow> AdaptiveRetryConfig \<Rightarrow> nat \<Rightarrow> (nat \<times> swarm_event) list \<Rightarrow>
      fetch_state \<times> P2pTransport \<Rightarrow> (fetch_state \<times> P2pTransport) option" where
  "fetch_loop x lib expected retry deadline [] st =
    (if ft_pending (fst st) \<noteq> [] \<and> pt_now (snd st) < deadline then None else Some st)"
| "fetch_loop x lib expected retry deadline (ev # es) st =
    (if \<not> (ft_pending (fst st) \<noteq> [] \<and> pt_now (snd st) < deadline) then Some st
     else
       let st1 = (fst st, (snd st)\<lparr>pt_now := max (pt_now (snd st)) (fst ev), pt_events := es\<rparr>)
       in fetch_loop x lib expected retry deadline es
            (case snd ev of
               QueryProgressed qid result \<Rightarrow> fetch_progress x lib expected retry deadline qid result st1
             | _ \<Rightarrow> st1))"

definition fetch_manifest_chunks ::
    "crypto \<Rightarrow> p2p_lib \<Rightarrow> ChunkManifest \<Rightarrow> P2pTransport \<Rightarrow> (P2pTransport \<times> (TransportError + (bytes \<rightharpoonup> bytes))) option" where
  "fetch_manifest_chunks x lib m t =
    (let t1 = on_metrics (record_attempt QueryOp) t;
         expected = set (map cd_hash (cm_chunks m));
         (f, t2) = foldl (\<lambda>st d. start_query (cd_hash d) st)
           (\<lparr>ft_pending = [], ft_store = Map.empty, ft_retries = (\<lambda>_. 0)\<rparr>, t1) (cm_chunks m);
         started = pt_now t2;
         retry = adaptive_retry (pt_node_config t2);
         (_, query_timeout, _) = tuned_timeouts lib t2
     in map_option (\<lambda>(f, t3).
          if ft_pending f = []
          then (on_metrics (record_success QueryOp (pt_now t3 - started)) t3, Inr (ft_store f))
          else (on_metrics (record_timeout QueryOp) t3, Inl (Libp2p ''timed out waiting for DHT records'')))
        (fetch_loop x lib expected retry (pt_now t2 + query_timeout) (pt_events t2) (f, t2)))"

definition recover_payload_from_manifest ::
    "crypto \<Rightarrow> codec \<Rightarrow> p2p_lib \<Rightarrow> ChunkManifest \<Rightarrow> P2pTransport \<Rightarrow> (P2pTransport \<times> (TransportError + bytes)) option" where
  "recover_payload_from_manifest x k lib m t =
    map_option (\<lambda>(t1, r). (t1, bind_res r (reassemble_payload_from_store x k (pt_config t1) m)))
      (fetch_manifest_chunks x lib m t)"

section \<open>Recovering an inbox\<close>

function collect_gossip ::
    "p2p_lib \<Rightarrow> AdaptiveRetryConfig \<Rightarrow> string \<Rightarrow> nat \<Rightarrow> nat \<Rightarrow> u32 \<Rightarrow> bytes list \<Rightarrow> P2pTransport \<Rightarrow> bytes list \<times> P2pTransport"
where
  "collect_gossip lib retry topic deadline resubscribe_at attempt payloads t =
    (if \<not> pt_now t < deadline then (payloads, t)
     else
       let resubscribe = pt_now t \<ge> resubscribe_at;
           delay = delay_for_attempt (pl_jitter lib (pt_now t)) retry (min attempt (ar_max_retries retry));
           t1 = (if resubscribe then on_metrics (record_retry RecoveryOp) (issue (Subscribe topic) t) else t);
           attempt1 = (if resubscribe then sat_add attempt 1 else attempt);
           resubscribe_at1 = (if resubscribe then pt_now t + delay else resubscribe_at)
       in case pt_events t of
            (at, ev) # es \<Rightarrow>
              if at \<le> pt_now t + millis 200
              then collect_gossip lib retry topic deadline resubscribe_at1 attempt1
                     (case ev of GossipMessage data \<Rightarrow> payloads @ [data] | _ \<Rightarrow> payloads)
                     (t1\<lparr>pt_now := max (pt_now t) at, pt_events := es\<rparr>)
              else collect_gossip lib retry topic deadline resubscribe_at1 attempt1 payloads
                     (t1\<lparr>pt_now := pt_now t + millis 200\<rparr>)
          | [] \<Rightarrow>
              collect_gossip lib retry topic deadline resubscribe_at1 attempt1 payloads
                (t1\<lparr>pt_now := pt_now t + millis 200\<rparr>))"
  by pat_completeness auto

termination
  by (relation "measures [\<lambda>(_, _, _, _, _, _, _, t). length (pt_events t), \<lambda>(_, _, _, deadline, _, _, _, t). deadline - pt_now t]")
    (auto simp: issue_def on_metrics_def millis_def)

declare collect_gossip.simps [simp del]

text \<open>One collected message: skipped when it does not parse, its chunks do not arrive or do not fit.\<close>

definition recover_message ::
    "crypto \<Rightarrow> codec \<Rightarrow> p2p_lib \<Rightarrow> bytes \<Rightarrow> P2pTransport \<Rightarrow> (P2pTransport \<times> bytes option) option" where
  "recover_message x k lib payload t =
    (case parse_manifest_from_gossip (pl_manifest_unjson lib) payload of
       Inl _ \<Rightarrow> Some (on_metrics record_verification_failure t, None)
     | Inr m \<Rightarrow>
         map_option (\<lambda>(t1, r).
           case r of
             Inl _ \<Rightarrow> (on_metrics record_verification_failure t1, None)
           | Inr store \<Rightarrow>
               (case reassemble_payload_from_store x k (pt_config t1) m store of
                  Inl _ \<Rightarrow> (on_metrics record_reassemble_failure t1, None)
                | Inr recovered \<Rightarrow> (t1, Some recovered)))
         (fetch_manifest_chunks x lib m t))"

fun recover_messages ::
    "crypto \<Rightarrow> codec \<Rightarrow> p2p_lib \<Rightarrow> bytes list \<Rightarrow> bytes list \<Rightarrow> P2pTransport \<Rightarrow> (P2pTransport \<times> bytes list) option" where
  "recover_messages x k lib [] recovered t = Some (t, recovered)"
| "recover_messages x k lib (p # ps) recovered t =
    Option.bind (recover_message x k lib p t) (\<lambda>(t1, r).
      recover_messages x k lib ps (case r of Some b \<Rightarrow> recovered @ [b] | None \<Rightarrow> recovered) t1)"

definition recover_payloads_for_inbox ::
    "crypto \<Rightarrow> codec \<Rightarrow> p2p_lib \<Rightarrow> bytes \<Rightarrow> nat \<Rightarrow> P2pTransport \<Rightarrow> (P2pTransport \<times> (TransportError + bytes list)) option" where
  "recover_payloads_for_inbox x k lib inbox_key wait t =
    (let topic = inbox_gossip_topic k (sr_hashed_key (derive_inbox_scan_key x Sha256 inbox_key));
         t1 = issue (Subscribe topic) (t\<lparr>pt_known_index_keys := insert_key (pt_known_index_keys t) (cx_hex k inbox_key)\<rparr>)
     in case pl_subscribe lib (pt_now t) topic of
          Inl e \<Rightarrow> Some (t1, Inl (Libp2p e))
        | Inr _ \<Rightarrow>
            let operation_start = pt_now t1;
                t2 = on_metrics (record_attempt RecoveryOp) t1;
                (_, _, manifest_wait) = tuned_timeouts lib t2;
                effective_wait = max (min wait manifest_wait) (millis 500);
                (payloads, t3) = collect_gossip lib (adaptive_retry (pt_node_config t2)) topic
                  (pt_now t2 + effective_wait) (pt_now t2) 0 [] t2
            in map_option (\<lambda>(t4, recovered).
                 let t5 = (if recovered = [] then on_metrics (record_timeout RecoveryOp) t4
                           else on_metrics (record_success RecoveryOp (pt_now t4 - operation_start)) t4)
                 in case persist_state lib t5 of
                      (t6, Inl e) \<Rightarrow> (t6, Inl e)
                    | (t6, Inr _) \<Rightarrow> (t6, Inr recovered))
               (recover_messages x k lib payloads [] t3))"

section \<open>What a fetch can return\<close>

lemma start_query_simps [simp]:
  "ft_store (fst (start_query h st)) = ft_store (fst st)"
  "pt_config (snd (start_query h st)) = pt_config (snd st)"
  "pt_now (snd (start_query h st)) = pt_now (snd st)"
  "pt_events (snd (start_query h st)) = pt_events (snd st)"
  "pt_node_config (snd (start_query h st)) = pt_node_config (snd st)"
  by (simp_all add: start_query_def Let_def case_prod_beta)

lemma start_queries_simps [simp]:
  "ft_store (fst (foldl (\<lambda>st d. start_query (cd_hash d) st) st ds)) = ft_store (fst st)"
  "pt_config (snd (foldl (\<lambda>st d. start_query (cd_hash d) st) st ds)) = pt_config (snd st)"
  "pt_now (snd (foldl (\<lambda>st d. start_query (cd_hash d) st) st ds)) = pt_now (snd st)"
  "pt_events (snd (foldl (\<lambda>st d. start_query (cd_hash d) st) st ds)) = pt_events (snd st)"
  "pt_node_config (snd (foldl (\<lambda>st d. start_query (cd_hash d) st) st ds)) = pt_node_config (snd st)"
  by (induction ds arbitrary: st) simp_all

lemma retry_query_simps [simp]:
  "ft_store (fst (retry_query lib retry deadline q st)) = ft_store (fst st)"
  "pt_config (snd (retry_query lib retry deadline q st)) = pt_config (snd st)"
  by (simp_all add: retry_query_def Let_def case_prod_beta split: option.split)

lemma retry_query_now: "pt_now (snd st) \<le> pt_now (snd (retry_query lib retry deadline q st))"
  by (simp add: retry_query_def Let_def case_prod_beta split: option.split)

lemma fetch_progress_simps [simp]:
  "ft_store (fst (fetch_progress x lib expected retry deadline q r st)) =
    (case r of
       GetRecordDone (FoundRecord key data) \<Rightarrow>
         ft_store (fst st) ++ extract_records x expected (cc_hash_id (tr_chunking (pt_config (snd st)))) (FoundRecord key data)
     | _ \<Rightarrow> ft_store (fst st))"
  "pt_config (snd (fetch_progress x lib expected retry deadline q r st)) = pt_config (snd st)"
  by (simp_all add: fetch_progress_def Let_def case_prod_beta split: query_result.split get_record_ok.split)

lemma fetch_progress_now: "pt_now (snd st) \<le> pt_now (snd (fetch_progress x lib expected retry deadline q r st))"
  by (simp add: fetch_progress_def Let_def case_prod_beta retry_query_now split: query_result.split get_record_ok.split)

definition delivered :: "(nat \<times> swarm_event) list \<Rightarrow> bytes set" where
  "delivered es = {d. \<exists>at q key. (at, QueryProgressed q (GetRecordDone (FoundRecord key d))) \<in> set es}"

definition store_ok :: "crypto \<Rightarrow> HashId \<Rightarrow> bytes set \<Rightarrow> (bytes \<rightharpoonup> bytes) \<Rightarrow> bool" where
  "store_ok x hid ds store \<longleftrightarrow> (\<forall>h d. store h = Some d \<longrightarrow> hash_bytes x hid d = h \<and> d \<in> ds)"

lemma fetch_loop_store:
  assumes "fetch_loop x lib expected retry deadline es st = Some (f, t)"
    and "store_ok x (cc_hash_id (tr_chunking (pt_config (snd st)))) ds (ft_store (fst st))" "delivered es \<subseteq> ds"
  shows "store_ok x (cc_hash_id (tr_chunking (pt_config (snd st)))) ds (ft_store f) \<and> pt_config t = pt_config (snd st)"
  using assms
proof (induction es arbitrary: st)
  case (Cons ev es)
  show ?case
  proof (cases "ft_pending (fst st) \<noteq> [] \<and> pt_now (snd st) < deadline")
    case True
    let ?st = "(fst st, (snd st)\<lparr>pt_now := max (pt_now (snd st)) (fst ev), pt_events := es\<rparr>)"
    let ?st' = "case snd ev of QueryProgressed q r \<Rightarrow> fetch_progress x lib expected retry deadline q r ?st | _ \<Rightarrow> ?st"
    have run: "fetch_loop x lib expected retry deadline es ?st' = Some (f, t)"
      using Cons.prems(1) True by (simp add: Let_def)
    have cfg: "pt_config (snd ?st') = pt_config (snd st)" by (simp split: swarm_event.split)
    have sub: "delivered es \<subseteq> ds" "\<And>q key d. snd ev = QueryProgressed q (GetRecordDone (FoundRecord key d)) \<Longrightarrow> d \<in> ds"
      using Cons.prems(3) by (cases ev; force simp: delivered_def)+
    have "store_ok x (cc_hash_id (tr_chunking (pt_config (snd st)))) ds (ft_store (fst ?st'))"
      using Cons.prems(2) sub(2)
      by (auto simp: store_ok_def extract_records_def map_add_Some_iff split: swarm_event.split query_result.split get_record_ok.split if_splits)
    from Cons.IH [OF run] this sub(1) show ?thesis by (simp only: cfg)
  next
    case False
    then show ?thesis using Cons.prems by auto
  qed
qed (auto split: if_splits)

lemma fetch_result:
  assumes "fetch_manifest_chunks x lib m t = Some (t', Inr store)"
  shows "store_ok x (cc_hash_id (tr_chunking (pt_config t))) (delivered (pt_events t)) store" "pt_config t' = pt_config t"
proof -
  let ?s = "foldl (\<lambda>st d. start_query (cd_hash d) st)
    (\<lparr>ft_pending = [], ft_store = Map.empty, ft_retries = (\<lambda>_. 0)\<rparr>, on_metrics (record_attempt QueryOp) t) (cm_chunks m)"
  obtain retry deadline f u where l: "fetch_loop x lib (set (map cd_hash (cm_chunks m))) retry deadline (pt_events (snd ?s)) ?s = Some (f, u)"
    and r: "store = ft_store f" "pt_config t' = pt_config u"
    using assms by (auto simp: fetch_manifest_chunks_def Let_def case_prod_beta split: if_splits)
  have "store_ok x (cc_hash_id (tr_chunking (pt_config (snd ?s)))) (delivered (pt_events t)) (ft_store f) \<and> pt_config u = pt_config (snd ?s)"
    by (rule fetch_loop_store [OF l]) (simp_all add: store_ok_def)
  then show "store_ok x (cc_hash_id (tr_chunking (pt_config t))) (delivered (pt_events t)) store" "pt_config t' = pt_config t"
    using r by simp_all
qed

lemma recovered_from_store:
  assumes "reassemble_payload_from_store x k config m store = Inr p" "store_ok x (cc_hash_id (tr_chunking config)) ds store"
  obtains chunks where "reassemble_chunks_with_manifest x k config m chunks = Inr p" "\<And>c. c \<in> set chunks \<Longrightarrow> ch_data c \<in> ds"
    "validate_manifest m = Inr ()"
proof -
  from assms(1) obtain chunks where c: "validate_manifest m = Inr ()"
    "list_all2 (\<lambda>d c. fetch_chunk x k config store d = Inr c) (cm_chunks m) chunks"
    "reassemble_chunks_with_manifest x k config m chunks = Inr p"
    by (auto simp: reassemble_payload_from_store_def recover_chunks_from_store_def traverse_eq_Inr)
  have "ch_data c \<in> ds" if "fetch_chunk x k config store d = Inr c" for d c
    using that assms(2) by (auto simp: fetch_chunk_def store_ok_def split: if_splits)
  then have "list_all2 (\<lambda>d c. ch_data c \<in> ds) (cm_chunks m) chunks"
    using c(2) by (rule list_all2_mono [rotated])
  then have "ch_data c \<in> ds" if "c \<in> set chunks" for c
    using that by (auto simp: list_all2_conv_all_nth in_set_conv_nth)
  with c(1,3) show thesis by (intro that)
qed

text \<open>C18. Whatever records peers return and in whatever order, a payload recovered under the manifest of a
  published payload is that payload, unless a returned record collides with one of its pieces.\<close>

theorem recovered_payload_authentic:
  assumes "chunk_data x (tr_chunking (pt_config t)) payload = Some chunks"
    and "recover_payload_from_manifest x k lib (manifest_of chunks payload) t = Some (t', Inr p)"
    and "\<And>c d. c \<in> set chunks \<Longrightarrow> d \<in> delivered (pt_events t) \<Longrightarrow>
      hash_bytes x (cc_hash_id (tr_chunking (pt_config t))) (ch_data c) =
      hash_bytes x (cc_hash_id (tr_chunking (pt_config t))) d \<Longrightarrow> ch_data c = d"
  shows "p = payload"
proof -
  obtain store where f: "fetch_manifest_chunks x lib (manifest_of chunks payload) t = Some (t', Inr store)"
    and r: "reassemble_payload_from_store x k (pt_config t') (manifest_of chunks payload) store = Inr p"
    using assms(2) by (auto simp: recover_payload_from_manifest_def)
  note ok = fetch_result [OF f]
  obtain cs where cs: "reassemble_chunks_with_manifest x k (pt_config t) (manifest_of chunks payload) cs = Inr p"
    "\<And>c. c \<in> set cs \<Longrightarrow> ch_data c \<in> delivered (pt_events t)" "validate_manifest (manifest_of chunks payload) = Inr ()"
    using recovered_from_store [OF r [unfolded ok(2)] ok(1)] by blast
  then have "distinct (map ch_hash chunks)"
    using validate_published_manifest [OF assms(1)] by (simp split: if_splits)
  from reassemble_own_chunks [OF assms(1) this] show ?thesis
    by (rule manifest_binds(1) [OF _ cs(1)]) (blast intro: assms(3) cs(2))
qed

definition fed_node :: P2pTransport where
  "fed_node = (blank_node P2pNodeConfig_default)\<lparr>pt_events :=
    [(2, QueryProgressed 1 (GetRecordDone (FoundRecord (3 # replicate 31 0) [3]))), (4, OtherEvent),
     (6, QueryProgressed 0 (GetRecordDone (FoundRecord (1 # 2 # replicate 30 0) [1, 2])))]\<rparr>"

theorem recovered_payload_authentic_witness:
  "\<exists>chunks t'. chunk_data toy_crypto (tr_chunking small_config) [1, 2, 3] = Some chunks \<and>
    recover_payload_from_manifest toy_crypto toy_codec quiet_lib (manifest_of chunks [1, 2, 3]) fed_node = Some (t', Inr [1, 2, 3])"
proof -
  let ?h = "1 # 2 # replicate 30 0" and ?g = "3 # replicate 31 0"
  let ?cs = "[\<lparr>ch_index = 0, ch_hash = ?h, ch_data = [1, 2]\<rparr>, \<lparr>ch_index = 1, ch_hash = ?g, ch_data = [3]\<rparr>] :: Chunk list"
  let ?m = "manifest_of ?cs [1, 2, 3]"
  have cfg: "pt_config fed_node = small_config" by (simp add: fed_node_def blank_node_def)
  have cd: "chunk_data toy_crypto (tr_chunking small_config) [1, 2, 3] = Some ?cs" by code_simp
  have hashes: "hash_bytes toy_crypto Sha256 [1, 2] = ?h" "hash_bytes toy_crypto Sha256 [3] = ?g" by code_simp+
  have "\<exists>t'. fetch_manifest_chunks toy_crypto quiet_lib ?m fed_node = Some (t', Inr [?g \<mapsto> [3], ?h \<mapsto> [1, 2]])"
    by (simp add: fetch_manifest_chunks_def fed_node_def blank_node_def manifest_of_def start_query_def Let_def
        fetch_progress_def extract_records_def small_config_def hashes tuned_timeouts_def tuned_timeout_def
        connected_peer_count_def quiet_lib_def P2pNodeConfig_default_def secs_def)
  then obtain t' where f: "fetch_manifest_chunks toy_crypto quiet_lib ?m fed_node = Some (t', Inr [?g \<mapsto> [3], ?h \<mapsto> [1, 2]])" ..
  have "is_ok (reassemble_payload_from_store toy_crypto toy_codec small_config ?m [?g \<mapsto> [3], ?h \<mapsto> [1, 2]])" by code_simp
  then obtain p where "reassemble_payload_from_store toy_crypto toy_codec small_config ?m [?g \<mapsto> [3], ?h \<mapsto> [1, 2]] = Inr p"
    by (auto simp: is_ok_iff)
  with f fetch_result(2) [OF f] have r: "recover_payload_from_manifest toy_crypto toy_codec quiet_lib ?m fed_node = Some (t', Inr p)"
    by (simp add: recover_payload_from_manifest_def cfg)
  have del: "delivered (pt_events fed_node) = {[1, 2], [3]}"
    by (auto simp: delivered_def fed_node_def)
  have "p = [1, 2, 3]"
    by (rule recovered_payload_authentic [of toy_crypto fed_node "[1, 2, 3]" ?cs, unfolded cfg, OF cd r])
      (auto simp: del small_config_def hashes)
  with cd r show ?thesis by blast
qed

section \<open>Records that arrive in time\<close>

text \<open>The first progress of query \<open>q\<close> among the events.\<close>

primrec first_progress :: "nat \<Rightarrow> (nat \<times> swarm_event) list \<Rightarrow> query_result option" where
  "first_progress q [] = None"
| "first_progress q (ev # es) =
    (case snd ev of
       QueryProgressed p r \<Rightarrow> if p = q then Some r else first_progress q es
     | _ \<Rightarrow> first_progress q es)"

text \<open>No record among the events collides with a piece of the payload.\<close>

definition collision_free :: "crypto \<Rightarrow> HashId \<Rightarrow> Chunk list \<Rightarrow> (nat \<times> swarm_event) list \<Rightarrow> bool" where
  "collision_free x hid chunks es \<longleftrightarrow>
    (\<forall>c \<in> set chunks. \<forall>d \<in> delivered es. hash_bytes x hid d = ch_hash c \<longrightarrow> d = ch_data c)"

definition piece_found :: "Chunk \<Rightarrow> query_result" where
  "piece_found c = GetRecordDone (FoundRecord (ch_hash c) (ch_data c))"

text \<open>Every query that waits is for a piece, and its first progress will be the record of that piece; every piece
  is stored or waited for.\<close>

definition on_track :: "Chunk list \<Rightarrow> (nat \<times> swarm_event) list \<Rightarrow> fetch_state \<Rightarrow> bool" where
  "on_track chunks es f \<longleftrightarrow>
    (\<forall>(q, h) \<in> set (ft_pending f). \<exists>c \<in> set chunks. h = ch_hash c \<and> first_progress q es = Some (piece_found c)) \<and>
    (\<forall>c \<in> set chunks. ft_store f (ch_hash c) = Some (ch_data c) \<or> ch_hash c \<in> snd ` set (ft_pending f))"

lemma on_track_other: "on_track chunks (ev # es) f \<Longrightarrow> (\<And>q r. snd ev \<noteq> QueryProgressed q r) \<Longrightarrow> on_track chunks es f"
proof -
  assume "\<And>q r. snd ev \<noteq> QueryProgressed q r"
  then have "first_progress q (ev # es) = first_progress q es" for q by (cases "snd ev") auto
  then show "on_track chunks (ev # es) f \<Longrightarrow> on_track chunks es f" by (simp only: on_track_def)
qed

lemma progress_on_track:
  assumes track: "on_track chunks (ev # es) (fst st)" and ev: "snd ev = QueryProgressed q r"
    and hid: "hid = cc_hash_id (tr_chunking (pt_config (snd st)))"
    and pieces: "\<forall>c \<in> set chunks. hash_bytes x hid (ch_data c) = ch_hash c \<and> ch_hash c \<in> expected"
    and free: "collision_free x hid chunks (ev # es)"
  shows "on_track chunks es (fst (fetch_progress x lib expected retry deadline q r st)) \<and>
    pt_now (snd (fetch_progress x lib expected retry deadline q r st)) = pt_now (snd st)"
proof -
  let ?f = "fst st" and ?st = "fetch_progress x lib expected retry deadline q r st"
  let ?new = "case r of GetRecordDone (FoundRecord key d) \<Rightarrow> extract_records x expected hid (FoundRecord key d) | _ \<Rightarrow> Map.empty"
  have found: "\<exists>c \<in> set chunks. h = ch_hash c \<and> r = piece_found c" if "(q, h) \<in> set (ft_pending ?f)" for h
    using track that ev unfolding on_track_def by fastforce
  have idle: "retry_query lib retry deadline q st = st" if "r = GetRecordDone FinishedWithNoAdditionalRecord"
  proof -
    have "map_of (ft_pending ?f) q = None"
      using found that by (force simp: map_of_eq_None_iff piece_found_def)
    then show ?thesis by (simp add: retry_query_def case_prod_beta)
  qed
  have pending: "ft_pending (fst ?st) = AList.delete q (ft_pending ?f)" and now: "pt_now (snd ?st) = pt_now (snd st)"
    using idle by (simp_all add: fetch_progress_def Let_def case_prod_beta split: query_result.split get_record_ok.split)
  have store: "ft_store (fst ?st) = ft_store ?f ++ ?new"
    by (simp add: hid split: query_result.split get_record_ok.split)
  have waits: "\<exists>c \<in> set chunks. h = ch_hash c \<and> first_progress p es = Some (piece_found c)"
    if "(p, h) \<in> set (ft_pending (fst ?st))" for p h
  proof -
    have "(p, h) \<in> set (ft_pending ?f)" "p \<noteq> q" using that unfolding pending by (auto simp: AList.delete_eq)
    with track ev show ?thesis unfolding on_track_def by fastforce
  qed
  have new_right: "d = ch_data c" if "?new (ch_hash c) = Some d" "c \<in> set chunks" for c d
  proof -
    have "r = GetRecordDone (FoundRecord (ch_hash c) d)" "hash_bytes x hid d = ch_hash c"
      using that(1) by (auto simp: extract_records_def split: query_result.splits get_record_ok.splits if_splits)
    moreover from this(1) ev have "d \<in> delivered (ev # es)" by (cases ev) (auto simp: delivered_def)
    ultimately show ?thesis using free that(2) unfolding collision_free_def by blast
  qed
  have "ft_store (fst ?st) (ch_hash c) = Some (ch_data c) \<or> ch_hash c \<in> snd ` set (ft_pending (fst ?st))"
    if c: "c \<in> set chunks" for c
  proof (cases "?new (ch_hash c)")
    case (Some d)
    with new_right [OF Some c] show ?thesis unfolding store by simp
  next
    case None
    consider "ft_store ?f (ch_hash c) = Some (ch_data c)" | p where "(p, ch_hash c) \<in> set (ft_pending ?f)"
      using track c unfolding on_track_def by force
    then show ?thesis
    proof cases
      case 1
      with None show ?thesis unfolding store by (simp add: map_add_def)
    next
      case (2 p)
      show ?thesis
      proof (cases "p = q")
        case True
        with found 2 obtain c' where c': "c' \<in> set chunks" "ch_hash c = ch_hash c'" "r = piece_found c'" by blast
        then have "?new (ch_hash c) = Some (ch_data c')" using pieces by (simp add: piece_found_def extract_records_def)
        with None show ?thesis by simp
      next
        case False
        with 2 have "(p, ch_hash c) \<in> set (ft_pending (fst ?st))" unfolding pending by (simp add: AList.delete_eq)
        then show ?thesis by force
      qed
    qed
  qed
  with waits now show ?thesis unfolding on_track_def by blast
qed

lemma fetch_loop_on_track:
  assumes "on_track chunks es (fst st)" "hid = cc_hash_id (tr_chunking (pt_config (snd st)))"
    and pieces: "\<forall>c \<in> set chunks. hash_bytes x hid (ch_data c) = ch_hash c \<and> ch_hash c \<in> expected"
    and "collision_free x hid chunks es" "\<forall>ev \<in> set es. fst ev < deadline" "pt_now (snd st) < deadline"
  shows "\<exists>f t. fetch_loop x lib expected retry deadline (es @ later) st = Some (f, t) \<and> ft_pending f = [] \<and>
    (\<forall>c \<in> set chunks. ft_store f (ch_hash c) = Some (ch_data c)) \<and> pt_config t = pt_config (snd st)"
  using assms(1,2,4-)
proof (induction es arbitrary: st)
  case Nil
  have none: "ft_pending (fst st) = []"
    using Nil(1) by (cases "ft_pending (fst st)") (auto simp: on_track_def)
  then show ?case using Nil(1) by (cases st; cases later) (auto simp: on_track_def)
next
  case (Cons ev es)
  show ?case
  proof (cases "ft_pending (fst st) = []")
    case True
    then show ?thesis using Cons.prems(1) by (cases st) (auto simp: on_track_def)
  next
    case False
    let ?st = "(fst st, (snd st)\<lparr>pt_now := max (pt_now (snd st)) (fst ev), pt_events := es @ later\<rparr>)"
    let ?next = "case snd ev of QueryProgressed q r \<Rightarrow> fetch_progress x lib expected retry deadline q r ?st | _ \<Rightarrow> ?st"
    have free: "collision_free x hid chunks es"
      using Cons.prems(3) unfolding collision_free_def delivered_def by fastforce
    have next_ok: "on_track chunks es (fst ?next) \<and> pt_now (snd ?next) = pt_now (snd ?st) \<and> pt_config (snd ?next) = pt_config (snd st)"
    proof (cases "snd ev")
      case (QueryProgressed q r)
      with progress_on_track [where st = ?st and ev = ev and es = es and chunks = chunks and hid = hid and x = x
          and expected = expected and lib = lib and retry = retry and deadline = deadline]
      show ?thesis using Cons.prems(1-3) pieces by simp
    qed (use on_track_other [OF Cons.prems(1)] in simp_all)
    then obtain f t where "fetch_loop x lib expected retry deadline (es @ later) ?next = Some (f, t)" "ft_pending f = []"
      "\<forall>c \<in> set chunks. ft_store f (ch_hash c) = Some (ch_data c)" "pt_config t = pt_config (snd ?next)"
      using Cons.IH [of ?next] Cons.prems(2,4,5) free by auto
    then show ?thesis using False Cons.prems(5) next_ok by (simp add: Let_def)
  qed
qed

lemma update_fresh: "k \<notin> fst ` set ps \<Longrightarrow> AList.update k v ps = ps @ [(k, v)]"
  by (induction ps) auto

lemma start_queries_pending:
  assumes "\<forall>e \<in> set (ft_pending (fst st)). fst e < pt_next_query (snd st)"
  shows "set (ft_pending (fst (foldl (\<lambda>st d. start_query (cd_hash d) st) st ds))) =
    set (ft_pending (fst st)) \<union> (\<lambda>i. (pt_next_query (snd st) + i, cd_hash (ds ! i))) ` {..<length ds}"
  using assms
proof (induction ds arbitrary: st)
  case (Cons d ds)
  let ?st = "start_query (cd_hash d) st"
  have fresh: "pt_next_query (snd st) \<notin> fst ` set (ft_pending (fst st))" using Cons.prems by fastforce
  have p: "set (ft_pending (fst ?st)) = insert (pt_next_query (snd st), cd_hash d) (set (ft_pending (fst st)))"
    "pt_next_query (snd ?st) = pt_next_query (snd st) + 1"
    using fresh by (auto simp: start_query_def Let_def case_prod_beta update_fresh)
  have "set (ft_pending (fst (foldl (\<lambda>st d. start_query (cd_hash d) st) ?st ds))) =
      set (ft_pending (fst ?st)) \<union> (\<lambda>i. (pt_next_query (snd ?st) + i, cd_hash (ds ! i))) ` {..<length ds}"
    using Cons.prems p by (intro Cons.IH) auto
  also have "\<dots> = set (ft_pending (fst st)) \<union> (\<lambda>i. (pt_next_query (snd st) + i, cd_hash ((d # ds) ! i))) ` {..<length (d # ds)}"
    unfolding p lessThan_Suc_eq_insert_0 length_Cons image_insert image_image by auto
  finally show ?case by simp
qed simp

lemma recover_stored_chunks:
  assumes c: "chunk_data x (tr_chunking config) payload = Some chunks" and d: "distinct (map ch_hash chunks)"
    and s: "\<forall>c \<in> set chunks. store (ch_hash c) = Some (ch_data c)"
  shows "reassemble_payload_from_store x k config (manifest_of chunks payload) store = Inr payload"
proof -
  have "traverse (fetch_chunk x k config store) (cm_chunks (manifest_of chunks payload)) = Inr chunks"
    using chunk_data_well_hashed [OF c] s
    by (intro traverse_descriptors) (simp add: fetch_chunk_def ok_or_def well_hashed_def)
  then show ?thesis
    using validate_published_manifest [OF c] d reassemble_own_chunks [OF c d]
    by (simp add: reassemble_payload_from_store_def recover_chunks_from_store_def)
qed

text \<open>C25. A published payload whose records arrive in time is recovered: when its pieces have distinct hashes, and
  before the query deadline the first progress of each of the queries the fetch starts is the record of its
  piece, the recovery under the manifest returns the payload, whatever other events arrive in between, provided
  that no record among the events collides with a piece.\<close>

theorem available_payload_recovered:
  assumes chunks: "chunk_data x (tr_chunking (pt_config t)) payload = Some chunks" "distinct (map ch_hash chunks)"
    and events: "pt_events t = es @ later" "\<forall>ev \<in> set es. fst ev < pt_now t + fst (snd (tuned_timeouts lib t))"
      "0 < fst (snd (tuned_timeouts lib t))"
    and answers: "\<forall>i < length chunks. first_progress (pt_next_query t + i) es = Some (piece_found (chunks ! i))"
    and free: "collision_free x (cc_hash_id (tr_chunking (pt_config t))) chunks es"
  shows "\<exists>t'. recover_payload_from_manifest x k lib (manifest_of chunks payload) t = Some (t', Inr payload)"
proof -
  let ?m = "manifest_of chunks payload" and ?hid = "cc_hash_id (tr_chunking (pt_config t))"
  let ?s = "foldl (\<lambda>st d. start_query (cd_hash d) st)
    (\<lparr>ft_pending = [], ft_store = Map.empty, ft_retries = (\<lambda>_. 0)\<rparr>, on_metrics (record_attempt QueryOp) t) (cm_chunks ?m)"
  let ?d = "pt_now t + fst (snd (tuned_timeouts lib t))"
  have tt: "tuned_timeouts lib (snd ?s) = tuned_timeouts lib t"
    by (simp add: tuned_timeouts_def connected_peer_count_def Let_def)
  have pending: "set (ft_pending (fst ?s)) = (\<lambda>i. (pt_next_query t + i, ch_hash (chunks ! i))) ` {..<length chunks}"
    by (subst start_queries_pending) (auto simp: manifest_of_def intro!: image_cong)
  have track: "on_track chunks es (fst ?s)"
    unfolding on_track_def pending using answers
    by (auto simp: image_image in_set_conv_nth intro!: bexI [OF _ nth_mem])
  have pieces: "\<forall>c \<in> set chunks. hash_bytes x ?hid (ch_data c) = ch_hash c \<and> ch_hash c \<in> set (map cd_hash (cm_chunks ?m))"
    using chunk_data_well_hashed [OF chunks(1)] by (auto simp: well_hashed_def manifest_of_def)
  have hid: "?hid = cc_hash_id (tr_chunking (pt_config (snd ?s)))" and now: "pt_now (snd ?s) < ?d" using events(3) by simp_all
  from fetch_loop_on_track [OF track hid pieces free events(2) now, of lib "adaptive_retry (pt_node_config t)" later]
  obtain f u where f: "fetch_loop x lib (set (map cd_hash (cm_chunks ?m))) (adaptive_retry (pt_node_config t)) ?d
      (es @ later) ?s = Some (f, u)" "ft_pending f = []" "\<forall>c \<in> set chunks. ft_store f (ch_hash c) = Some (ch_data c)"
      "pt_config u = pt_config t"
    by (elim exE conjE) simp
  then have "fetch_manifest_chunks x lib ?m t = Some (on_metrics (record_success QueryOp (pt_now u - pt_now t)) u, Inr (ft_store f))"
    unfolding fetch_manifest_chunks_def Let_def using tt events(1) by (simp add: case_prod_beta)
  then show ?thesis
    using recover_stored_chunks [OF chunks(1) [folded f(4)] chunks(2) f(3)] by (simp add: recover_payload_from_manifest_def)
qed

theorem available_payload_recovered_witness:
  "\<exists>chunks t'. chunk_data toy_crypto (tr_chunking small_config) [1, 2, 3] = Some chunks \<and>
    recover_payload_from_manifest toy_crypto toy_codec quiet_lib (manifest_of chunks [1, 2, 3]) fed_node = Some (t', Inr [1, 2, 3])"
proof -
  let ?h = "1 # 2 # replicate 30 0" and ?g = "3 # replicate 31 0"
  let ?cs = "[\<lparr>ch_index = 0, ch_hash = ?h, ch_data = [1, 2]\<rparr>, \<lparr>ch_index = 1, ch_hash = ?g, ch_data = [3]\<rparr>] :: Chunk list"
  have cfg: "pt_config fed_node = small_config" by (simp add: fed_node_def blank_node_def)
  have cd: "chunk_data toy_crypto (tr_chunking small_config) [1, 2, 3] = Some ?cs" by code_simp
  have hashes: "hash_bytes toy_crypto Sha256 [1, 2] = ?h" "hash_bytes toy_crypto Sha256 [3] = ?g" by code_simp+
  have tt: "fst (snd (tuned_timeouts quiet_lib fed_node)) = secs 5"
    by (simp add: tuned_timeouts_def tuned_timeout_def connected_peer_count_def quiet_lib_def fed_node_def blank_node_def
        P2pNodeConfig_default_def Let_def)
  have del: "delivered (pt_events fed_node) = {[1, 2], [3]}" by (auto simp: delivered_def fed_node_def)
  have "\<exists>t'. recover_payload_from_manifest toy_crypto toy_codec quiet_lib (manifest_of ?cs [1, 2, 3]) fed_node = Some (t', Inr [1, 2, 3])"
  proof (rule available_payload_recovered [where es = "pt_events fed_node" and later = "[]"])
    show "chunk_data toy_crypto (tr_chunking (pt_config fed_node)) [1, 2, 3] = Some ?cs" using cd by (simp add: cfg)
    show "\<forall>ev \<in> set (pt_events fed_node). fst ev < pt_now fed_node + fst (snd (tuned_timeouts quiet_lib fed_node))"
      unfolding tt by (simp add: fed_node_def blank_node_def secs_def)
    show "0 < fst (snd (tuned_timeouts quiet_lib fed_node))" unfolding tt by (simp add: secs_def)
    show "\<forall>i < length ?cs. first_progress (pt_next_query fed_node + i) (pt_events fed_node) = Some (piece_found (?cs ! i))"
      by (auto simp: fed_node_def blank_node_def piece_found_def less_Suc_eq)
    show "collision_free toy_crypto (cc_hash_id (tr_chunking (pt_config fed_node))) ?cs (pt_events fed_node)"
      unfolding collision_free_def del cfg by (simp add: small_config_def hashes)
  qed simp_all
  with cd show ?thesis by blast
qed

section \<open>Attempts to publish\<close>

definition sends :: "P2pTransport \<Rightarrow> nat" where
  "sends t = length (filter (\<lambda>c. case c of GossipSend _ _ \<Rightarrow> True | _ \<Rightarrow> False) (pt_commands t))"

lemma drive_swarm_simps [simp]:
  "pt_commands (drive_swarm d t) = pt_commands t" "pt_node_config (drive_swarm d t) = pt_node_config t"
  by (simp_all add: drive_swarm_def)

lemma sends_simps [simp]:
  "sends (drive_swarm d t) = sends t" "sends (on_metrics f t) = sends t" "sends (fst (persist_state lib t)) = sends t"
  "sends (issue (Subscribe topic) t) = sends t" "sends (issue (Kad c) t) = sends t"
  "sends (issue (GossipSend topic p) t) = sends t + 1"
  by (simp_all add: sends_def)

lemma sends_wait [simp]: "sends (wait_connected lib deadline t) = sends t"
proof (induction lib deadline t rule: wait_connected.induct)
  case (1 lib deadline t)
  then show ?case by (subst wait_connected.simps) simp
qed

lemma sends_wait_subscribers [simp]: "sends (wait_subscribers lib deadline topic t) = sends t"
proof (induction lib deadline topic t rule: wait_subscribers.induct)
  case (1 lib deadline topic t)
  then show ?case by (subst wait_subscribers.simps) simp
qed

lemma sends_publish_loop:
  "sends (fst (publish_loop lib retry deadline topic payload attempts t)) \<le>
    sends t + (unat (ar_max_retries retry) - unat attempts) + 1"
proof (induction lib retry deadline topic payload attempts t rule: publish_loop.induct)
  case (1 lib retry deadline topic payload attempts t)
  show ?case
  proof (cases "pl_publish lib (pt_now t) topic payload = NoPeersSubscribedToTopic \<and> pt_now t < deadline \<and> attempts < ar_max_retries retry")
    case True
    then have "unat (attempts + 1) = unat attempts + 1" "unat attempts < unat (ar_max_retries retry)"
      using unat_add_one_less [of attempts "ar_max_retries retry"] by (simp_all add: word_less_nat_alt)
    with 1 True show ?thesis by (subst publish_loop.simps) (simp add: Let_def)
  next
    case False
    then show ?thesis
      by (subst publish_loop.simps) (auto simp: Let_def split: publish_outcome.split)
  qed
qed

lemma sends_issue_all [simp]: "sends (issue_all cs t) = sends t"
  unfolding issue_all_def by (induction cs arbitrary: t) simp_all

lemma sends_publish_each:
  assumes "\<And>key t. sends (fst (f key t)) \<le> sends t + n"
  shows "sends (fst (publish_each f keys t)) \<le> sends t + n * length keys"
proof (induction keys arbitrary: t)
  case (Cons key keys)
  have "sends (fst (publish_each f keys (fst (f key t)))) \<le> sends (fst (f key t)) + n * length keys" by (rule Cons)
  with assms [of key t] show ?case by (auto split: prod.split sum.split)
qed simp

lemma sends_publish_topic:
  "sends (fst (publish_to_inbox_topic x k lib (adaptive_retry c) w payload key t)) \<le> sends t + 7"
proof -
  have "sends (fst (publish_loop lib (adaptive_retry c) deadline topic payload 0 t)) \<le> sends t + 7" for deadline topic t
    using sends_publish_loop [of lib "adaptive_retry c" deadline topic payload 0 t] by (simp add: adaptive_retry_def)
  from this [of _ _ "wait_subscribers lib _ _ (issue (Subscribe _) (wait_connected lib (pt_now t + w) t))"] show ?thesis
    by (simp add: publish_to_inbox_topic_def Let_def split: sum.split)
qed

text \<open>C24. Publishing terminates, and offers the manifest to gossipsub at most seven times for each inbox,
  the first time and six retries, whatever the network answers and however long the waits are.\<close>

theorem publish_attempts_bounded:
  "sends (fst (publish_to_inboxes x k lib inbox_keys m chunks t)) \<le> sends t + 7 * length inbox_keys"
proof -
  define c where "c = adaptive_retry (pt_node_config t)"
  define w where "w = fst (tuned_timeouts lib (on_metrics (record_attempt PublishOp) (t\<lparr>pt_known_manifests := pt_known_manifests t @ [m]\<rparr>)))"
  define u where "u = issue_all (publish_chunks (pt_config t) chunks)
    ((on_metrics (record_attempt PublishOp) (t\<lparr>pt_known_manifests := pt_known_manifests t @ [m]\<rparr>))
      \<lparr>pt_known_index_keys := foldl insert_key (pt_known_index_keys t) (map (cx_hex k) inbox_keys)\<rparr>)"
  obtain a b where tt: "tuned_timeouts lib (on_metrics (record_attempt PublishOp) (t\<lparr>pt_known_manifests := pt_known_manifests t @ [m]\<rparr>)) = (w, a, b)"
    unfolding w_def by (metis prod.collapse)
  have su: "sends u = sends t" by (simp add: u_def) (simp add: sends_def)
  define each where "each payload = publish_each (publish_to_inbox_topic x k lib c w payload) inbox_keys (drive_swarm w u)" for payload
  have e: "sends (fst (each payload)) \<le> sends t + 7 * length inbox_keys" for payload
    unfolding each_def c_def using sends_publish_each [where f = "publish_to_inbox_topic x k lib (adaptive_retry (pt_node_config t)) w payload", OF sends_publish_topic]
    by (metis su sends_simps(1))
  have "publish_to_inboxes x k lib inbox_keys m chunks t =
      (case manifest_payload (pl_manifest_json lib) m of
         Inl e \<Rightarrow> (u, Inl e)
       | Inr payload \<Rightarrow>
           (case each payload of
              (v, Inl e) \<Rightarrow> (v, Inl e)
            | (v, Inr _) \<Rightarrow>
                (case persist_state lib (drive_swarm w v) of
                   (t6, Inl e) \<Rightarrow> (t6, Inl e)
                 | (t6, Inr _) \<Rightarrow> (on_metrics (record_success PublishOp (pt_now t6 - pt_now t)) t6, Inr ()))))"
    by (cases "manifest_payload (pl_manifest_json lib) m")
      (simp_all add: publish_to_inboxes_def Let_def tt u_def c_def each_def)
  moreover have "sends t6 = sends v" if "persist_state lib (drive_swarm w v) = (t6, r)" for v t6 r
    using sends_simps(3) [of lib "drive_swarm w v"] by (simp add: that)
  ultimately show ?thesis
    using e su by (auto split: sum.split prod.split) (metis fst_conv)+
qed

end
