(* ===== verification/P2p_Ban.thy ===== *)
theory P2p_Ban
  imports P2p_Flow
begin

text \<open>
  Bans over the life of a node: every public operation of \<open>spex-transport/src/p2p.rs\<close> on a running node as a
  step, and that none of them lifts a ban early or dials a banned peer.

  \<open>load_persisted_state\<close> and \<open>configure_peers\<close> are no steps: they are private, and only \<open>P2pTransport::new\<close> calls
  them, before the node is handed out.  What is dialled are the commands of the node; connections that libp2p opens by
  itself while it serves a query are not among them.
\<close>

section \<open>What an operation that does not report or dial leaves alone\<close>

text \<open>A command that makes the swarm connect to a peer or keep a connection to it.\<close>

definition dials :: "peer_id \<Rightarrow> swarm_command \<Rightarrow> bool" where
  "dials peer c =
    (case c of
       Dial addr \<Rightarrow> (case split_peer_addr addr of Inr (p, _) \<Rightarrow> p = peer | Inl _ \<Rightarrow> False)
     | AddAddress p _ \<Rightarrow> p = peer
     | AddExplicitPeer p \<Rightarrow> p = peer
     | _ \<Rightarrow> False)"

definition calm :: "P2pTransport \<Rightarrow> P2pTransport \<Rightarrow> bool" where
  "calm t t' \<longleftrightarrow> pt_peer_scores t' = pt_peer_scores t \<and> pt_node_config t' = pt_node_config t \<and> pt_now t \<le> pt_now t' \<and>
    (\<exists>cs. pt_commands t' = pt_commands t @ cs \<and> (\<forall>c \<in> set cs. \<forall>peer. \<not> dials peer c))"

named_theorems calm_intros

lemma calm_refl [simp, calm_intros]: "calm t t"
  by (simp add: calm_def)

lemma calm_same:
  "calm t u \<Longrightarrow> pt_peer_scores u' = pt_peer_scores u \<Longrightarrow> pt_node_config u' = pt_node_config u \<Longrightarrow> pt_now u \<le> pt_now u' \<Longrightarrow>
    pt_commands u' = pt_commands u \<Longrightarrow> calm t u'"
  by (auto simp: calm_def)

lemma calm_issue:
  assumes "calm t u" "\<And>peer. \<not> dials peer c"
  shows "calm t (issue c u)"
proof -
  obtain cs where "pt_commands u = pt_commands t @ cs" "\<forall>c \<in> set cs. \<forall>peer. \<not> dials peer c"
    using assms(1) unfolding calm_def by blast
  then have "pt_commands (issue c u) = pt_commands t @ (cs @ [c])" "\<forall>d \<in> set (cs @ [c]). \<forall>peer. \<not> dials peer d"
    using assms(2) by auto
  then show ?thesis using assms(1) unfolding calm_def by (metis issue_simps(1,2,3))
qed

lemma calm_issues [calm_intros]:
  "calm t u \<Longrightarrow> calm t (issue (Kad k) u)"
  "calm t u \<Longrightarrow> calm t (issue (Subscribe topic) u)"
  "calm t u \<Longrightarrow> calm t (issue (GossipSend topic payload) u)"
  by (auto intro!: calm_issue simp: dials_def)

lemma calm_updates [calm_intros]:
  "calm t u \<Longrightarrow> calm t (on_metrics f u)"
  "calm t u \<Longrightarrow> calm t (fst (persist_state lib u))"
  "calm t u \<Longrightarrow> calm t (drive_swarm d u)"
  "calm t u \<Longrightarrow> calm t (u\<lparr>pt_known_manifests := ms\<rparr>)"
  "calm t u \<Longrightarrow> calm t (u\<lparr>pt_known_index_keys := ks\<rparr>)"
  "calm t u \<Longrightarrow> calm t (u\<lparr>pt_next_query := n\<rparr>)"
  "calm t u \<Longrightarrow> pt_now u \<le> now \<Longrightarrow> calm t (u\<lparr>pt_now := now\<rparr>)"
  "calm t u \<Longrightarrow> pt_now u \<le> now \<Longrightarrow> calm t (u\<lparr>pt_now := now, pt_events := es\<rparr>)"
  by (auto elim!: calm_same simp: drive_swarm_def)

lemma calm_persisted: "calm t u \<Longrightarrow> persist_state lib u = (u', r) \<Longrightarrow> calm t u'"
  using calm_updates(2) [of t u lib] by simp

section \<open>Publishing\<close>

lemma calm_issue_all [calm_intros]: "calm t u \<Longrightarrow> calm t (issue_all cs u)"
  unfolding issue_all_def by (induction cs arbitrary: u) (auto intro: calm_intros)

lemma calm_wait_connected [calm_intros]: "calm t u \<Longrightarrow> calm t (wait_connected lib deadline u)"
proof (induction lib deadline u rule: wait_connected.induct)
  case (1 lib deadline u)
  then show ?case by (subst wait_connected.simps) (auto intro: calm_intros)
qed

lemma calm_wait_subscribers [calm_intros]: "calm t u \<Longrightarrow> calm t (wait_subscribers lib deadline topic u)"
proof (induction lib deadline topic u rule: wait_subscribers.induct)
  case (1 lib deadline topic u)
  then show ?case by (subst wait_subscribers.simps) (auto intro: calm_intros)
qed

lemma calm_publish_loop [calm_intros]:
  "calm t u \<Longrightarrow> calm t (fst (publish_loop lib retry deadline topic payload attempts u))"
proof (induction lib retry deadline topic payload attempts u rule: publish_loop.induct)
  case (1 lib retry deadline topic payload attempts u)
  show ?case
  proof (cases "pl_publish lib (pt_now u) topic payload = NoPeersSubscribedToTopic \<and> pt_now u < deadline \<and> attempts < ar_max_retries retry")
    case True
    with 1 show ?thesis by (subst publish_loop.simps) (auto simp: Let_def intro!: calm_intros)
  next
    case False
    with 1 show ?thesis
      by (subst publish_loop.simps) (auto simp: Let_def split: publish_outcome.split intro!: calm_intros)
  qed
qed

lemma calm_publish_topic [calm_intros]:
  "calm t u \<Longrightarrow> calm t (fst (publish_to_inbox_topic x k lib retry w payload key u))"
  by (auto simp: publish_to_inbox_topic_def Let_def split: sum.split intro!: calm_intros)

lemma calm_publish_each:
  assumes "\<And>key u. calm t u \<Longrightarrow> calm t (fst (f key u))"
  shows "calm t u \<Longrightarrow> calm t (fst (publish_each f keys u))"
proof (induction keys arbitrary: u)
  case (Cons key keys)
  have "calm t (fst (f key u))" by (rule assms [OF Cons.prems])
  with Cons.IH show ?case by (auto split: prod.split sum.split)
qed simp

lemmas calm_publish_topics [calm_intros] = calm_publish_each [where f = "publish_to_inbox_topic x k lib retry w payload", OF calm_publish_topic]
  for x k lib retry w payload

lemma calm_publish: "calm t (fst (publish_to_inboxes x k lib inbox_keys m chunks t))"
  by (auto simp: publish_to_inboxes_def Let_def case_prod_beta split: sum.split intro!: calm_intros)

lemma calm_publish_chunks: "calm t (node_publish_chunks lib chunks t)"
  by (auto simp: node_publish_chunks_def Let_def case_prod_beta intro!: calm_intros)

section \<open>Fetching and recovering\<close>

lemma calm_start_query: "calm t (snd st) \<Longrightarrow> calm t (snd (start_query h st))"
  by (auto simp: start_query_def Let_def case_prod_beta intro!: calm_intros)

lemma calm_start_queries: "calm t (snd st) \<Longrightarrow> calm t (snd (foldl (\<lambda>st d. start_query (cd_hash d) st) st ds))"
  by (induction ds arbitrary: st) (simp_all add: calm_start_query)

lemma calm_retry_query: "calm t (snd st) \<Longrightarrow> calm t (snd (retry_query lib retry deadline q st))"
  by (auto simp: retry_query_def Let_def case_prod_beta split: option.split intro!: calm_start_query calm_intros)

lemma calm_fetch_progress: "calm t (snd st) \<Longrightarrow> calm t (snd (fetch_progress x lib expected retry deadline q r st))"
  by (auto simp: fetch_progress_def Let_def case_prod_beta split: query_result.split get_record_ok.split
      intro!: calm_retry_query)

lemma calm_fetch_loop:
  "calm t (snd st) \<Longrightarrow> fetch_loop x lib expected retry deadline es st = Some (f, u) \<Longrightarrow> calm t u"
proof (induction es arbitrary: st)
  case (Cons ev es)
  let ?st = "(fst st, (snd st)\<lparr>pt_now := max (pt_now (snd st)) (fst ev), pt_events := es\<rparr>)"
  let ?next = "case snd ev of QueryProgressed q r \<Rightarrow> fetch_progress x lib expected retry deadline q r ?st | _ \<Rightarrow> ?st"
  have "calm t (snd ?st)" using Cons.prems(1) by (auto intro!: calm_intros)
  then have "calm t (snd ?next)" by (auto split: swarm_event.split intro!: calm_fetch_progress)
  with Cons show ?case by (auto simp: Let_def split: if_splits)
qed (auto split: if_splits)

lemma calm_fetch:
  assumes "calm t u" "fetch_manifest_chunks x lib m u = Some (u', r)"
  shows "calm t u'"
proof -
  let ?s = "foldl (\<lambda>st d. start_query (cd_hash d) st)
    (\<lparr>ft_pending = [], ft_store = Map.empty, ft_retries = (\<lambda>_. 0)\<rparr>, on_metrics (record_attempt QueryOp) u) (cm_chunks m)"
  obtain f v where l: "fetch_loop x lib (set (map cd_hash (cm_chunks m))) (adaptive_retry (pt_node_config (snd ?s)))
      (pt_now (snd ?s) + fst (snd (tuned_timeouts lib (snd ?s)))) (pt_events (snd ?s)) ?s = Some (f, v)"
    and u': "u' = on_metrics (if ft_pending f = [] then record_success QueryOp (pt_now v - pt_now (snd ?s)) else record_timeout QueryOp) v"
    using assms(2) by (auto simp: fetch_manifest_chunks_def Let_def case_prod_beta split: if_splits)
  have "calm t v" by (rule calm_fetch_loop [OF calm_start_queries l]) (simp add: assms(1) calm_intros)
  then show ?thesis unfolding u' by (intro calm_intros)
qed

lemma calm_recover_payload:
  "recover_payload_from_manifest x k lib m t = Some (t', r) \<Longrightarrow> calm t t'"
  by (auto simp: recover_payload_from_manifest_def intro: calm_fetch [OF calm_refl])

lemma calm_collect_gossip:
  "calm t u \<Longrightarrow> calm t (snd (collect_gossip lib retry topic deadline resub attempt payloads u))"
proof (induction lib retry topic deadline resub attempt payloads u rule: collect_gossip.induct)
  case (1 lib retry topic deadline resub attempt payloads u)
  let ?v = "on_metrics (record_retry RecoveryOp) (issue (Subscribe topic) u)"
  have v: "calm t ?v" "pt_now ?v = pt_now u" using 1(4) by (auto intro: calm_intros)
  have wait: "calm t (?v\<lparr>pt_now := pt_now u + millis 200\<rparr>)" "calm t (u\<lparr>pt_now := pt_now u + millis 200\<rparr>)"
    "calm t (?v\<lparr>pt_now := max (pt_now u) at, pt_events := es\<rparr>)" "calm t (u\<lparr>pt_now := max (pt_now u) at, pt_events := es\<rparr>)" for at es
    using v 1(4) by (intro calm_updates(7,8); simp)+
  show ?case
    using 1 wait by (subst collect_gossip.simps) (auto simp: Let_def split: list.split)
qed

lemma calm_recover_message:
  assumes "calm t u" "recover_message x k lib payload u = Some (u', r)"
  shows "calm t u'"
proof (cases "parse_manifest_from_gossip (pl_manifest_unjson lib) payload")
  case (Inl e)
  with assms show ?thesis by (auto simp: recover_message_def intro: calm_intros)
next
  case (Inr m)
  then obtain v q where v: "fetch_manifest_chunks x lib m u = Some (v, q)"
    using assms(2) by (auto simp: recover_message_def)
  have "calm t v" by (rule calm_fetch [OF assms(1) v])
  with assms(2) Inr v show ?thesis
    by (cases q) (auto simp: recover_message_def split: sum.splits intro: calm_intros)
qed

lemma calm_recover_messages:
  "calm t u \<Longrightarrow> recover_messages x k lib ps recovered u = Some (u', r) \<Longrightarrow> calm t u'"
  by (induction x k lib ps recovered u rule: recover_messages.induct)
    (auto simp: Option.bind_eq_Some_conv dest: calm_recover_message)

lemma persisted_result:
  "map_option (\<lambda>z. case snd (f z) of Inl e \<Rightarrow> (fst (f z), Inl e) | Inr _ \<Rightarrow> (fst (f z), Inr (snd z))) m = Some (t', r) \<Longrightarrow>
    \<exists>u recovered. m = Some (u, recovered) \<and> t' = fst (f (u, recovered))"
  by (cases m) (auto split: sum.splits)

lemma calm_recover_inbox:
  assumes "recover_payloads_for_inbox x k lib inbox_key wait t = Some (t', r)"
  shows "calm t t'"
proof -
  let ?topic = "inbox_gossip_topic k (sr_hashed_key (derive_inbox_scan_key x Sha256 inbox_key))"
  let ?t1 = "issue (Subscribe ?topic) (t\<lparr>pt_known_index_keys := insert_key (pt_known_index_keys t) (cx_hex k inbox_key)\<rparr>)"
  have t1: "calm t ?t1" "calm t (on_metrics f ?t1)" for f by (intro calm_intros)+
  show ?thesis
  proof (cases "pl_subscribe lib (pt_now t) ?topic")
    case (Inl e)
    with assms t1 show ?thesis by (simp add: recover_payloads_for_inbox_def)
  next
    case (Inr u)
    let ?t2 = "on_metrics (record_attempt RecoveryOp) ?t1"
    let ?c = "collect_gossip lib (adaptive_retry (pt_node_config ?t2)) ?topic
      (pt_now ?t2 + max (min wait (snd (snd (tuned_timeouts lib ?t2)))) (millis 500)) (pt_now ?t2) 0 [] ?t2"
    have "\<exists>t4 recovered. recover_messages x k lib (fst ?c) [] (snd ?c) = Some (t4, recovered) \<and>
        t' = fst (persist_state lib (if recovered = [] then on_metrics (record_timeout RecoveryOp) t4
          else on_metrics (record_success RecoveryOp (pt_now t4 - pt_now ?t1)) t4))"
      using persisted_result [OF assms [unfolded recover_payloads_for_inbox_def Let_def case_prod_beta Inr sum.case]]
      unfolding fst_conv snd_conv .
    then obtain t4 recovered where messages: "recover_messages x k lib (fst ?c) [] (snd ?c) = Some (t4, recovered)"
      and last: "t' = fst (persist_state lib (if recovered = [] then on_metrics (record_timeout RecoveryOp) t4
        else on_metrics (record_success RecoveryOp (pt_now t4 - pt_now ?t1)) t4))" by blast
    have "calm t t4" by (rule calm_recover_messages [OF calm_collect_gossip [OF t1(2)] messages])
    then show ?thesis unfolding last by (auto intro: calm_intros)
  qed
qed

section \<open>The life of a node\<close>

text \<open>Every public operation of a running node that changes it, and the passing of time, with which the swarm may
  have any events in store.\<close>

inductive node_step :: "crypto \<Rightarrow> codec \<Rightarrow> p2p_lib \<Rightarrow> P2pTransport \<Rightarrow> P2pTransport \<Rightarrow> bool" for x k lib where
  tick: "pt_now t \<le> now \<Longrightarrow> node_step x k lib t (t\<lparr>pt_now := now, pt_events := es\<rparr>)"
| timeout: "node_step x k lib t (report_timeout lib q t)"
| invalid: "node_step x k lib t (report_invalid_payload lib q t)"
| inconsistent: "node_step x k lib t (report_inconsistent_response lib q t)"
| success: "node_step x k lib t (report_successful_interaction lib q t)"
| dial: "node_step x k lib t (fst (dial_peer lib addr t))"
| publish: "node_step x k lib t (fst (publish_to_inboxes x k lib inbox_keys m chunks t))"
| publish_chunks: "node_step x k lib t (node_publish_chunks lib chunks t)"
| recover_inbox: "recover_payloads_for_inbox x k lib inbox_key wait t = Some (t', r) \<Longrightarrow> node_step x k lib t t'"
| recover_payload: "recover_payload_from_manifest x k lib m t = Some (t', r') \<Longrightarrow> node_step x k lib t t'"
| drive: "node_step x k lib t (drive_for d t)"

definition banned_through :: "nat \<Rightarrow> peer_id \<Rightarrow> P2pTransport \<Rightarrow> bool" where
  "banned_through u peer t \<longleftrightarrow>
    (\<exists>s u'. map_of (pt_peer_scores t) peer = Some s \<and> sc_banned_until s = Some u' \<and> u \<le> u') \<and>
    u \<le> pt_now t + nc_peer_ban_duration (pt_node_config t)"

lemma banned_through_penalty:
  assumes "banned_through u peer t" "\<And>s. sc_banned_until (mutate s) = sc_banned_until s"
  shows "banned_through u peer (apply_penalty lib q penalty mutate t)"
  using assms(1) penalize_banned_until [OF assms(2)]
  by (cases "q = peer") (auto simp: banned_through_def score_of_def)

lemma banned_through_calm: "calm t t' \<Longrightarrow> banned_through u peer t \<Longrightarrow> banned_through u peer t'"
  by (auto simp: banned_through_def calm_def)

text \<open>What a step adds to the commands while the peer is banned.\<close>

definition undialled :: "peer_id \<Rightarrow> P2pTransport \<Rightarrow> P2pTransport \<Rightarrow> bool" where
  "undialled peer t t' \<longleftrightarrow> (\<exists>cs. pt_commands t' = pt_commands t @ cs \<and> (\<forall>c \<in> set cs. \<not> dials peer c))"

lemma undialled_trans: "undialled peer t u \<Longrightarrow> undialled peer u v \<Longrightarrow> undialled peer t v"
  unfolding undialled_def by (metis Un_iff append.assoc set_append)

lemma undialled_same: "pt_commands t' = pt_commands t \<Longrightarrow> undialled peer t t'"
  by (simp add: undialled_def)

lemma calm_undialled: "calm t t' \<Longrightarrow> undialled peer t t'"
  unfolding calm_def undialled_def by blast

lemma penalty_undialled: "undialled peer t (apply_penalty lib q penalty mutate t)"
  by (auto simp: apply_penalty_def Let_def undialled_def dials_def)

lemma dial_undialled: "is_peer_banned t peer \<Longrightarrow> undialled peer t (fst (dial_peer lib addr t))"
  by (auto simp: dial_peer_def undialled_def dials_def observe_peer_def Let_def split: sum.split)

lemma calm_step:
  "node_step x k lib t t' \<Longrightarrow> (\<exists>addr. t' = fst (dial_peer lib addr t)) \<or>
    (\<exists>q penalty mutate. t' = apply_penalty lib q penalty mutate t \<and> (\<forall>s. sc_banned_until (mutate s) = sc_banned_until s)) \<or>
    (\<exists>q. t' = report_successful_interaction lib q t) \<or> calm t t'"
proof (induction rule: node_step.induct)
  case (timeout t q)
  then show ?case unfolding report_timeout_def by fastforce
next
  case (invalid t q)
  then show ?case unfolding report_invalid_payload_def by fastforce
next
  case (inconsistent t q)
  then show ?case unfolding report_inconsistent_response_def by fastforce
qed (auto simp: drive_for_def intro: calm_intros calm_publish calm_publish_chunks dest: calm_recover_inbox calm_recover_payload)

lemma node_step_ban:
  assumes "node_step x k lib t t'" "banned_through u peer t"
  shows "banned_through u peer t' \<and> pt_now t \<le> pt_now t' \<and> (pt_now t < u \<longrightarrow> undialled peer t t')"
  using calm_step [OF assms(1)]
proof (elim disjE exE conjE)
  fix addr assume t': "t' = fst (dial_peer lib addr t)"
  have "is_peer_banned t peer" if "pt_now t < u" using assms(2) that by (auto simp: banned_through_def is_peer_banned_def)
  then show ?thesis using assms(2) dial_undialled [of t peer lib addr] unfolding t' by (simp add: banned_through_def)
next
  fix q penalty mutate
  assume t': "t' = apply_penalty lib q penalty mutate t" and m: "\<forall>s. sc_banned_until (mutate s) = sc_banned_until s"
  have "banned_through u peer t'" unfolding t' by (rule banned_through_penalty [OF assms(2)]) (simp add: m)
  then show ?thesis unfolding t' by (simp add: penalty_undialled)
next
  fix q assume t': "t' = report_successful_interaction lib q t"
  obtain s where s: "map_of (pt_peer_scores t') = (map_of (pt_peer_scores t))(q \<mapsto> s)" "sc_banned_until s = sc_banned_until (score_of t q)"
    using report_success_facts(3) unfolding t' by blast
  have "pt_commands t' = pt_commands t" unfolding t' by (simp add: report_successful_interaction_def Let_def)
  moreover have "banned_through u peer t'"
    using assms(2) s t' by (cases "q = peer") (auto simp: banned_through_def score_of_def)
  ultimately show ?thesis unfolding t' by (simp add: undialled_same)
next
  assume calm: "calm t t'"
  then show ?thesis using banned_through_calm [OF calm assms(2)] calm_undialled [OF calm] by (simp add: calm_def)
qed

lemma ban_run:
  assumes "(node_step x k lib)\<^sup>*\<^sup>* t t'" "banned_through u peer t"
  shows "banned_through u peer t' \<and> pt_now t \<le> pt_now t' \<and> (pt_now t' < u \<longrightarrow> undialled peer t t')"
  using assms
proof (induction rule: rtranclp_induct)
  case base
  then show ?case by (simp add: undialled_same)
next
  case (step v w)
  then have v: "banned_through u peer v" "pt_now t \<le> pt_now v" "pt_now v < u \<longrightarrow> undialled peer t v" by auto
  from node_step_ban [OF step.hyps(2) v(1)] v show ?case by (auto intro: undialled_trans)
qed

datatype offence = TimedOut | InvalidData | Inconsistent

fun report :: "p2p_lib \<Rightarrow> offence \<Rightarrow> peer_id \<Rightarrow> P2pTransport \<Rightarrow> P2pTransport" where
  "report lib TimedOut = report_timeout lib"
| "report lib InvalidData = report_invalid_payload lib"
| "report lib Inconsistent = report_inconsistent_response lib"

text \<open>C10. A report that takes a peer to a ban threshold disconnects it.  For the whole ban duration after it, along
  any sequence of public operations of the node, of any arguments and outcomes, and of waits with any events,
  the peer stays banned, no command that dials it or adds it as a peer goes to the swarm, and a dial to it is
  refused.\<close>

theorem ban_enforced:
  assumes "t = report lib offence peer t0"
    and "reached_ban_threshold (pt_node_config t0) (score_of t peer)"
    and "(node_step x k lib)\<^sup>*\<^sup>* t t'" "pt_now t' < pt_now t0 + nc_peer_ban_duration (pt_node_config t0)"
  shows "pt_commands t = pt_commands t0 @ [DisconnectPeer peer, RemoveExplicitPeer peer] \<and> is_peer_banned t' peer \<and>
    (\<exists>cs. pt_commands t' = pt_commands t @ cs \<and> (\<forall>c \<in> set cs. \<not> dials peer c)) \<and>
    (\<forall>addr base. split_peer_addr addr = Inr (peer, base) \<longrightarrow>
      dial_peer lib addr t' = (t', Inl (Libp2p ''peer is temporarily banned'')))"
proof -
  let ?u = "pt_now t0 + nc_peer_ban_duration (pt_node_config t0)"
  obtain penalty mutate where t: "t = apply_penalty lib peer penalty mutate t0"
    and m: "\<And>s. sc_banned_until (mutate s) = sc_banned_until s"
    using assms(1) by (cases offence) (auto simp: report_timeout_def report_invalid_payload_def report_inconsistent_response_def)
  let ?s = "penalize (pt_node_config t0) (pt_now t0) penalty mutate (score_of t0 peer)"
  have s: "score_of t peer = ?s" "reached_ban_threshold (pt_node_config t0) ?s"
    using assms(2) by (simp_all add: t score_of_def)
  then have "banned_through ?u peer t"
    using penalize_banned_until [OF m, of "pt_node_config t0" "pt_now t0" penalty "score_of t0 peer"]
    by (simp add: t banned_through_def)
  from ban_run [OF assms(3) this] have "is_peer_banned t' peer" "undialled peer t t'"
    using assms(4) by (auto simp: banned_through_def is_peer_banned_def)
  with apply_penalty_commands [OF s(2)] show ?thesis
    by (simp add: dial_peer_def t undialled_def)
qed

theorem ban_enforced_witness:
  "let t0 = report_invalid_payload quiet_lib [7] (blank_node P2pNodeConfig_default);
       t = report_invalid_payload quiet_lib [7] t0;
       t1 = node_publish_chunks quiet_lib [] (report_successful_interaction quiet_lib [7] t);
       t' = t1\<lparr>pt_now := secs 29, pt_events := []\<rparr>
   in is_peer_banned t' [7] \<and>
      dial_peer quiet_lib [Ip4 ''10.0.0.1'', P2p [7]] t' = (t', Inl (Libp2p ''peer is temporarily banned''))"
proof -
  let ?c = P2pNodeConfig_default
  let ?once = "report_invalid_payload quiet_lib [7] (blank_node ?c)"
  let ?twice = "report_invalid_payload quiet_lib [7] ?once"
  let ?later = "node_publish_chunks quiet_lib [] (report_successful_interaction quiet_lib [7] ?twice)"
  have n: "pt_now ?once = 0" "pt_node_config ?once = ?c" "pt_now ?later \<le> secs 29"
    by (simp_all add: report_invalid_payload_def blank_node_def node_publish_chunks_def issue_all_def publish_chunks_def
        drive_swarm_def tuned_timeouts_def tuned_timeout_def connected_peer_count_def quiet_lib_def P2pNodeConfig_default_def
        secs_def Let_def)
  have s0: "score_of ?once [7] = \<lparr>sc_score = - 30, sc_timeout_penalties = 0, sc_invalid_payload_penalties = 1,
      sc_inconsistent_response_penalties = 0, sc_probation_until = None, sc_banned_until = None, sc_last_decay_at = 0\<rparr>"
    by (simp add: report_invalid_payload_def score_of_def blank_node_def PeerScore_neutral_def penalize_def
        apply_score_decay_def as_secs_def reached_ban_threshold_def P2pNodeConfig_default_def word_le_nat_alt Let_def)
  have r: "reached_ban_threshold ?c (score_of ?twice [7])"
    by (subst score_of_report, subst n(2), subst n(1), subst s0)
      (simp add: penalize_def apply_score_decay_def as_secs_def reached_ban_threshold_def P2pNodeConfig_default_def Let_def)
  have run: "(node_step toy_crypto toy_codec quiet_lib)\<^sup>*\<^sup>* ?twice (?later\<lparr>pt_now := secs 29, pt_events := []\<rparr>)"
    by (rule converse_rtranclp_into_rtranclp, rule node_step.success, rule converse_rtranclp_into_rtranclp,
        rule node_step.publish_chunks, rule r_into_rtranclp, rule node_step.tick, rule n(3))
  have a: "split_peer_addr [Ip4 ''10.0.0.1'', P2p [7]] = Inr ([7], [Ip4 ''10.0.0.1''])"
    by (simp add: split_peer_addr_def)
  have "?twice = report quiet_lib InvalidData [7] ?once" by simp
  moreover have "reached_ban_threshold (pt_node_config ?once) (score_of ?twice [7])" using r by (simp only: n)
  moreover have "pt_now (?later\<lparr>pt_now := secs 29, pt_events := []\<rparr>) < pt_now ?once + nc_peer_ban_duration (pt_node_config ?once)"
    by (simp only: n P2pTransport.simps) (simp add: secs_def P2pNodeConfig_default_def)
  ultimately have "is_peer_banned (?later\<lparr>pt_now := secs 29, pt_events := []\<rparr>) [7]"
    "dial_peer quiet_lib [Ip4 ''10.0.0.1'', P2p [7]] (?later\<lparr>pt_now := secs 29, pt_events := []\<rparr>) =
        (?later\<lparr>pt_now := secs 29, pt_events := []\<rparr>, Inl (Libp2p ''peer is temporarily banned''))"
    using ban_enforced [where offence = InvalidData and peer = "[7]", OF _ _ run] a by simp_all
  then show ?thesis unfolding Let_def by (rule conjI)
qed

end
