(* ===== verification/Bridge_Store.thy ===== *)
theory Bridge_Store
  imports Inbox
begin

text \<open>
  The storage layer of the HTTP bridge, \<open>spex-bridge/src/lib.rs\<close>: the SQLite tables, the connection pool
  and the functions that run the SQL statements of the source.

  A table is the list, map or set of its rows, and each SQL statement is a function on the tables.  SQLite
  itself is outside: any call may fail, and \<open>flt\<close> says which (call number \<open>n\<close> of the process fails with
  the text \<open>flt n\<close>).  A statement that fails leaves the tables as they were.  The rows of a query are read in
  one call, since an error while reading any of them discards the others.  An \<open>INTEGER\<close> column holds
  an \<open>i64\<close>, kept as an \<^typ>\<open>int\<close>.  A blocking task that panics or is cancelled is not modelled.
\<close>

section \<open>Data\<close>

record RateLimitConfig =
  rl_window_seconds :: u64
  rl_max_requests :: u64
  rl_max_bytes :: u64
  rl_difficulty_step_requests :: u64
  rl_difficulty_step_bytes :: u64
  rl_reputation_step :: int

definition RateLimitConfig_default :: RateLimitConfig where
  "RateLimitConfig_default = \<lparr>rl_window_seconds = 60, rl_max_requests = 120, rl_max_bytes = 1048576,
     rl_difficulty_step_requests = 20, rl_difficulty_step_bytes = 262144, rl_reputation_step = 25\<rparr>"

record RateLimitSnapshot =
  rs_recent_requests :: u64
  rs_recent_bytes :: u64
  rs_reputation_score :: int

datatype RequestKind = Card | Slot | InboxKind

fun RequestKind_as_str :: "RequestKind \<Rightarrow> string" where
  "RequestKind_as_str Card = ''card''"
| "RequestKind_as_str Slot = ''slot''"
| "RequestKind_as_str InboxKind = ''inbox''"

datatype RequestOutcome = Accepted | Rejected

fun RequestOutcome_as_str :: "RequestOutcome \<Rightarrow> string" where
  "RequestOutcome_as_str Accepted = ''accepted''"
| "RequestOutcome_as_str Rejected = ''rejected''"

record AbuseLogFilter =
  af_identity :: "string option"
  af_request_kind :: "string option"
  af_outcome :: "string option"
  af_since_timestamp :: "u64 option"
  af_until_timestamp :: "u64 option"
  af_limit :: "nat option"

record AbuseLogRecord =
  ar_timestamp :: u64
  ar_identity_hash_hex :: string
  ar_ip_prefix :: string
  ar_request_kind :: string
  ar_outcome :: string
  ar_bytes :: u64

record InboxPage =
  ip_items :: "bytes list"
  ip_next_cursor :: "int option"

datatype BridgeError =
    InvalidRequest string
  | PuzzleInvalid
  | BGrantInvalid
  | BGrantExpired
  | HashMismatch
  | Storage string
  | NotFound
  | RateLimited

fun BridgeError_to_string :: "BridgeError \<Rightarrow> string" where
  "BridgeError_to_string (InvalidRequest m) = ''invalid request: '' @ m"
| "BridgeError_to_string PuzzleInvalid = ''puzzle validation failed''"
| "BridgeError_to_string BGrantInvalid = ''grant signature invalid''"
| "BridgeError_to_string BGrantExpired = ''grant expired''"
| "BridgeError_to_string HashMismatch = ''hash mismatch''"
| "BridgeError_to_string (Storage m) = ''storage error: '' @ m"
| "BridgeError_to_string NotFound = ''not found''"
| "BridgeError_to_string RateLimited = ''rate limit exceeded''"

section \<open>Tables\<close>

record inbox_row =
  ir_id :: int
  ir_inbox_key :: string
  ir_item :: bytes
  ir_expires_at :: "int option"

record log_row =
  lg_timestamp :: int
  lg_identity :: string
  lg_ip :: string
  lg_slot_id :: "string option"
  lg_bytes :: int
  lg_request_kind :: string
  lg_outcome :: string

text \<open>\<open>db_inbox_seq\<close> is the largest \<open>id\<close> ever given to an inbox item, which \<open>AUTOINCREMENT\<close> keeps.\<close>

record database =
  db_schema :: "(string \<times> string list) list"
  db_cards :: "string \<Rightarrow> bytes option"
  db_slots :: "string \<Rightarrow> bytes option"
  db_inbox_keys :: "string list"
  db_inbox_items :: "inbox_row list"
  db_inbox_seq :: int
  db_request_logs :: "log_row list"
  db_identity_reputation :: "string \<Rightarrow> int option"

record DbPool =
  dp_path :: string
  dp_connections :: nat
  dp_max_size :: nat

record AppState =
  as_db :: database
  as_pool :: DbPool
  as_limits :: RateLimitConfig
  as_calls :: nat

type_synonym sqlite_faults = "nat \<Rightarrow> string option"

definition sqlite ::
    "sqlite_faults \<Rightarrow> (database \<Rightarrow> database \<times> (string + 'a)) \<Rightarrow> AppState \<Rightarrow> AppState \<times> (string + 'a)" where
  "sqlite flt statement s =
    (let s' = s\<lparr>as_calls := Suc (as_calls s)\<rparr>
     in case flt (as_calls s) of
          Some e \<Rightarrow> (s', Inl e)
        | None \<Rightarrow> (case statement (as_db s) of (d, r) \<Rightarrow> (s'\<lparr>as_db := d\<rparr>, r)))"

text \<open>\<open>u64\<close> and \<open>usize\<close> values are cast to \<open>i64\<close> on the way in and back on the way out.\<close>

definition as_i64 :: "u64 \<Rightarrow> int" where
  "as_i64 w = sint w"

definition usize_as_i64 :: "nat \<Rightarrow> int" where
  "usize_as_i64 n = sint (word_of_nat n :: u64)"

definition i64_as_u64 :: "int \<Rightarrow> u64" where
  "i64_as_u64 i = word_of_int i"

section \<open>Connection pool\<close>

definition DbPool_new :: "string \<Rightarrow> nat \<Rightarrow> DbPool" where
  "DbPool_new path max_size = \<lparr>dp_path = path, dp_connections = 0, dp_max_size = max_size\<rparr>"

definition DbPool_get :: "sqlite_faults \<Rightarrow> AppState \<Rightarrow> AppState \<times> (string + unit)" where
  "DbPool_get flt s =
    (case dp_connections (as_pool s) of
       Suc n \<Rightarrow> (s\<lparr>as_pool := (as_pool s)\<lparr>dp_connections := n\<rparr>\<rparr>, Inr ())
     | 0 \<Rightarrow> sqlite flt (\<lambda>d. (d, Inr ())) s)"

definition DbPool_put :: "AppState \<Rightarrow> AppState" where
  "DbPool_put s =
    (if dp_connections (as_pool s) < dp_max_size (as_pool s)
     then s\<lparr>as_pool := (as_pool s)\<lparr>dp_connections := Suc (dp_connections (as_pool s))\<rparr>\<rparr> else s)"

text \<open>A closure that holds a pooled connection; the guard returns it when the closure is left.\<close>

definition with_conn ::
    "sqlite_faults \<Rightarrow> (AppState \<Rightarrow> AppState \<times> (string + 'a)) \<Rightarrow> AppState \<Rightarrow> AppState \<times> (BridgeError + 'a)" where
  "with_conn flt body s =
    apsnd (map_err Storage)
      (seq_res (DbPool_get flt) (\<lambda>_ s. apfst DbPool_put (body s)) s)"

section \<open>Schema\<close>

definition create_table :: "string \<Rightarrow> string list \<Rightarrow> database \<Rightarrow> database \<times> (string + unit)" where
  "create_table name columns d =
    (if map_of (db_schema d) name = None then d\<lparr>db_schema := (name, columns) # db_schema d\<rparr> else d, Inr ())"

definition inbox_items_has_expires_column :: "database \<Rightarrow> database \<times> (string + bool)" where
  "inbox_items_has_expires_column d =
    (d, Inr (case map_of (db_schema d) ''inbox_items'' of
       Some columns \<Rightarrow> ''expires_at'' \<in> set columns | None \<Rightarrow> False))"

definition add_expires_column :: "database \<Rightarrow> database \<times> (string + unit)" where
  "add_expires_column d =
    (d\<lparr>db_schema := map (\<lambda>(t, c). (t, if t = ''inbox_items'' then c @ [''expires_at''] else c)) (db_schema d)\<rparr>, Inr ())"

definition ensure_inbox_items_expiration_column :: "sqlite_faults \<Rightarrow> AppState \<Rightarrow> AppState \<times> (string + unit)" where
  "ensure_inbox_items_expiration_column flt =
    seq_res (sqlite flt inbox_items_has_expires_column) (\<lambda>has s.
      if has then (s, Inr ()) else sqlite flt add_expires_column s)"

definition init_db :: "sqlite_faults \<Rightarrow> AppState \<Rightarrow> AppState \<times> (string + unit)" where
  "init_db flt =
    seq_res (sqlite flt (\<lambda>d. (d, Inr ()))) (\<lambda>_.
    seq_res (sqlite flt (create_table ''cards'' [''card_hash'', ''data''])) (\<lambda>_.
    seq_res (sqlite flt (create_table ''slots'' [''slot_id'', ''data''])) (\<lambda>_.
    seq_res (sqlite flt (create_table ''inbox_keys'' [''inbox_key''])) (\<lambda>_.
    seq_res (sqlite flt (create_table ''inbox_items'' [''id'', ''inbox_key'', ''item'', ''expires_at''])) (\<lambda>_.
    seq_res (ensure_inbox_items_expiration_column flt) (\<lambda>_.
    seq_res (sqlite flt (create_table ''request_logs''
      [''id'', ''timestamp'', ''identity'', ''ip'', ''slot_id'', ''bytes'', ''request_kind'', ''outcome''])) (\<lambda>_.
    sqlite flt (create_table ''identity_reputation'' [''identity'', ''score'']))))))))"

text \<open>The database file found at the path is \<open>d\<close>.\<close>

definition init_state :: "sqlite_faults \<Rightarrow> string \<Rightarrow> database \<Rightarrow> database \<times> (BridgeError + AppState)" where
  "init_state flt db_path d =
    (case init_db flt \<lparr>as_db = d, as_pool = DbPool_new db_path 10, as_limits = RateLimitConfig_default, as_calls = 0\<rparr> of
       (s, Inl e) \<Rightarrow> (as_db s, Inl (Storage e))
     | (s, Inr _) \<Rightarrow> (as_db s, Inr s))"

section \<open>Cards and slots\<close>

definition upsert_card :: "string \<Rightarrow> bytes \<Rightarrow> database \<Rightarrow> database \<times> (string + unit)" where
  "upsert_card key data d = (d\<lparr>db_cards := (db_cards d)(key \<mapsto> data)\<rparr>, Inr ())"

definition upsert_slot :: "string \<Rightarrow> bytes \<Rightarrow> database \<Rightarrow> database \<times> (string + unit)" where
  "upsert_slot key data d = (d\<lparr>db_slots := (db_slots d)(key \<mapsto> data)\<rparr>, Inr ())"

text \<open>\<open>store_entry\<close> and \<open>load_entry\<close> get the statement for their table, which the source formats from the
  table and column names.\<close>

definition store_entry ::
    "sqlite_faults \<Rightarrow> (string \<Rightarrow> bytes \<Rightarrow> database \<Rightarrow> database \<times> (string + unit)) \<Rightarrow> string \<Rightarrow> bytes \<Rightarrow>
      AppState \<Rightarrow> AppState \<times> (BridgeError + unit)" where
  "store_entry flt upsert key data = with_conn flt (sqlite flt (upsert key data))"

definition load_entry ::
    "sqlite_faults \<Rightarrow> (database \<Rightarrow> string \<Rightarrow> bytes option) \<Rightarrow> string \<Rightarrow> AppState \<Rightarrow> AppState \<times> (BridgeError + bytes option)" where
  "load_entry flt table key = with_conn flt (sqlite flt (\<lambda>d. (d, Inr (table d key))))"

section \<open>Request log and reputation\<close>

definition select_volume :: "string \<Rightarrow> int \<Rightarrow> database \<Rightarrow> database \<times> (string + u64 \<times> u64)" where
  "select_volume ident window_start d =
    (let rows = filter (\<lambda>r. lg_identity r = ident \<and> window_start \<le> lg_timestamp r) (db_request_logs d);
         bytes = sum_list (map lg_bytes rows)
     in (d, if - (2 ^ 63) \<le> bytes \<and> bytes < 2 ^ 63
            then Inr (i64_as_u64 (int (length rows)), i64_as_u64 bytes) else Inl ''integer overflow''))"

definition select_score :: "string \<Rightarrow> database \<Rightarrow> database \<times> (string + int)" where
  "select_score ident d = (d, Inr (case db_identity_reputation d ident of Some score \<Rightarrow> score | None \<Rightarrow> 0))"

definition load_rate_limit_snapshot ::
    "sqlite_faults \<Rightarrow> string \<Rightarrow> u64 \<Rightarrow> RateLimitConfig \<Rightarrow> AppState \<Rightarrow> AppState \<times> (BridgeError + RateLimitSnapshot)" where
  "load_rate_limit_snapshot flt ident now limits = with_conn flt
    (seq_res (sqlite flt (select_volume ident (as_i64 (sat_sub now (rl_window_seconds limits))))) (\<lambda>(count, bytes).
     seq_res (sqlite flt (select_score ident)) (\<lambda>reputation s.
       (s, Inr \<lparr>rs_recent_requests = count, rs_recent_bytes = bytes, rs_reputation_score = reputation\<rparr>))))"

text \<open>No row of the log is ever deleted, so the last \<open>id\<close> is the number of rows.\<close>

definition insert_log :: "log_row \<Rightarrow> database \<Rightarrow> database \<times> (string + unit)" where
  "insert_log r d =
    (if length (db_request_logs d) = 2 ^ 63 - 1 then (d, Inl ''database or disk is full'')
     else (d\<lparr>db_request_logs := db_request_logs d @ [r]\<rparr>, Inr ()))"

definition request_row ::
    "u64 \<Rightarrow> string \<Rightarrow> string \<Rightarrow> string option \<Rightarrow> nat \<Rightarrow> RequestKind \<Rightarrow> RequestOutcome \<Rightarrow> log_row" where
  "request_row timestamp ident ip slot_id bytes kind outcome =
    \<lparr>lg_timestamp = as_i64 timestamp, lg_identity = ident, lg_ip = ip, lg_slot_id = slot_id,
     lg_bytes = usize_as_i64 bytes, lg_request_kind = RequestKind_as_str kind, lg_outcome = RequestOutcome_as_str outcome\<rparr>"

definition record_request_log ::
    "sqlite_faults \<Rightarrow> u64 \<Rightarrow> string \<Rightarrow> string \<Rightarrow> string option \<Rightarrow> nat \<Rightarrow> RequestKind \<Rightarrow> RequestOutcome \<Rightarrow>
      AppState \<Rightarrow> AppState \<times> (BridgeError + unit)" where
  "record_request_log flt timestamp ident ip slot_id bytes kind outcome = with_conn flt
    (sqlite flt (insert_log (request_row timestamp ident ip slot_id bytes kind outcome)))"

definition upsert_score :: "string \<Rightarrow> int \<Rightarrow> database \<Rightarrow> database \<times> (string + unit)" where
  "upsert_score ident score d =
    (d\<lparr>db_identity_reputation := (db_identity_reputation d)(ident \<mapsto> score)\<rparr>, Inr ())"

definition next_score :: "RequestOutcome \<Rightarrow> int \<Rightarrow> int" where
  "next_score outcome current =
    (case outcome of Accepted \<Rightarrow> min (wrap_i32 (current + 1)) 100 | Rejected \<Rightarrow> max (wrap_i32 (current - 1)) (- 20))"

definition update_reputation ::
    "sqlite_faults \<Rightarrow> string \<Rightarrow> RequestOutcome \<Rightarrow> AppState \<Rightarrow> AppState \<times> (BridgeError + unit)" where
  "update_reputation flt ident outcome = with_conn flt
    (seq_res (sqlite flt (select_score ident)) (\<lambda>current.
     sqlite flt (upsert_score ident (next_score outcome current))))"

text \<open>The export opens its own connection, prepares the statement and reads the rows.\<close>

definition log_matches :: "AbuseLogFilter \<Rightarrow> log_row \<Rightarrow> bool" where
  "log_matches f r \<longleftrightarrow>
    (\<forall>expected \<in> set_option (af_identity f). lg_identity r = expected) \<and>
    (\<forall>expected \<in> set_option (af_request_kind f). lg_request_kind r = expected) \<and>
    (\<forall>expected \<in> set_option (af_outcome f). lg_outcome r = expected) \<and>
    (\<forall>since \<in> set_option (af_since_timestamp f). \<not> i64_as_u64 (lg_timestamp r) < since) \<and>
    (\<forall>until \<in> set_option (af_until_timestamp f). \<not> i64_as_u64 (lg_timestamp r) > until)"

definition abuse_record :: "crypto \<Rightarrow> codec \<Rightarrow> log_row \<Rightarrow> AbuseLogRecord" where
  "abuse_record x k r =
    \<lparr>ar_timestamp = i64_as_u64 (lg_timestamp r),
     ar_identity_hash_hex = cx_hex k (hash_bytes x Sha256 (str_bytes (lg_identity r))),
     ar_ip_prefix = lg_ip r, ar_request_kind = lg_request_kind r, ar_outcome = lg_outcome r,
     ar_bytes = i64_as_u64 (lg_bytes r)\<rparr>"

fun export_loop :: "crypto \<Rightarrow> codec \<Rightarrow> AbuseLogFilter \<Rightarrow> log_row list \<Rightarrow> AbuseLogRecord list \<Rightarrow> AbuseLogRecord list" where
  "export_loop x k f [] exported = exported"
| "export_loop x k f (r # rows) exported =
    (if \<not> log_matches f r then export_loop x k f rows exported
     else let exported = exported @ [abuse_record x k r]
          in case af_limit f of
               Some limit \<Rightarrow> if limit \<le> length exported then exported else export_loop x k f rows exported
             | None \<Rightarrow> export_loop x k f rows exported)"

definition export_abuse_logs ::
    "crypto \<Rightarrow> codec \<Rightarrow> sqlite_faults \<Rightarrow> AbuseLogFilter \<Rightarrow> AppState \<Rightarrow> AppState \<times> (BridgeError + AbuseLogRecord list)" where
  "export_abuse_logs x k flt f s =
    apsnd (map_err Storage)
     (seq_res (sqlite flt (\<lambda>d. (d, Inr ()))) (\<lambda>_.
      seq_res (sqlite flt (\<lambda>d. (d, Inr ()))) (\<lambda>_.
      seq_res (sqlite flt (\<lambda>d. (d, Inr (db_request_logs d)))) (\<lambda>rows s.
        (s, Inr (export_loop x k f rows []))))) s)"

section \<open>Inboxes\<close>

definition DEFAULT_INBOX_PAGE_LIMIT :: nat where "DEFAULT_INBOX_PAGE_LIMIT = 100"
definition MAX_INBOX_PAGE_LIMIT :: nat where "MAX_INBOX_PAGE_LIMIT = 500"
definition DEFAULT_INBOX_TTL_SECONDS :: u64 where "DEFAULT_INBOX_TTL_SECONDS = 86400"
definition MAX_INBOX_TTL_SECONDS :: u64 where "MAX_INBOX_TTL_SECONDS = 604800"
definition MAX_INBOX_ITEM_BYTES :: nat where "MAX_INBOX_ITEM_BYTES = 262144"

definition normalize_inbox_limit :: "nat option \<Rightarrow> nat" where
  "normalize_inbox_limit limit =
    (case limit of
       Some v \<Rightarrow> if 0 < v then min v MAX_INBOX_PAGE_LIMIT else DEFAULT_INBOX_PAGE_LIMIT
     | None \<Rightarrow> DEFAULT_INBOX_PAGE_LIMIT)"

definition normalize_inbox_max_bytes :: "nat option \<Rightarrow> u64 \<Rightarrow> nat" where
  "normalize_inbox_max_bytes max_bytes max_allowed =
    (case max_bytes of
       Some v \<Rightarrow> if 0 < v then min v (unat max_allowed) else unat max_allowed
     | None \<Rightarrow> unat max_allowed)"

definition live_item :: "string \<Rightarrow> int \<Rightarrow> inbox_row \<Rightarrow> bool" where
  "live_item inbox_key now r \<longleftrightarrow>
    ir_inbox_key r = inbox_key \<and> (case ir_expires_at r of None \<Rightarrow> True | Some e \<Rightarrow> now < e)"

definition select_items ::
    "string \<Rightarrow> int \<Rightarrow> int \<Rightarrow> nat \<Rightarrow> database \<Rightarrow> database \<times> (string + (int \<times> bytes) list)" where
  "select_items inbox_key now cursor fetch_limit d =
    (d, Inr (map (\<lambda>r. (ir_id r, ir_item r)) (take fetch_limit (sort_key ir_id
      (filter (\<lambda>r. live_item inbox_key now r \<and> cursor < ir_id r) (db_inbox_items d))))))"

fun page_loop ::
    "nat \<Rightarrow> nat \<Rightarrow> (int \<times> bytes) list \<Rightarrow> bytes list \<Rightarrow> nat \<Rightarrow> int option \<Rightarrow> bytes list \<times> int option \<times> bool" where
  "page_loop limit max_bytes [] items total_bytes last_id = (items, last_id, False)"
| "page_loop limit max_bytes ((i, item) # rows) items total_bytes last_id =
    (if limit \<le> length items then (items, last_id, True)
     else if max_bytes < total_bytes + length item then (items, last_id, True)
     else page_loop limit max_bytes rows (items @ [item]) (total_bytes + length item) (Some i))"

definition inbox_page :: "nat \<Rightarrow> nat \<Rightarrow> (int \<times> bytes) list \<Rightarrow> InboxPage" where
  "inbox_page limit max_bytes rows =
    (case page_loop limit max_bytes rows [] 0 None of
       (items, last_id, has_more) \<Rightarrow> \<lparr>ip_items = items, ip_next_cursor = (if has_more then last_id else None)\<rparr>)"

definition load_inbox_items ::
    "sqlite_faults \<Rightarrow> string \<Rightarrow> u64 \<Rightarrow> int option \<Rightarrow> nat \<Rightarrow> nat \<Rightarrow> AppState \<Rightarrow> AppState \<times> (BridgeError + InboxPage option)" where
  "load_inbox_items flt inbox_key now cursor limit max_bytes = with_conn flt
    (seq_res (sqlite flt (\<lambda>d. (d, Inr (inbox_key \<in> set (db_inbox_keys d))))) (\<lambda>exists s.
       if \<not> exists then (s, Inr None)
       else seq_res (sqlite flt (select_items inbox_key (as_i64 now) (case cursor of Some c \<Rightarrow> c | None \<Rightarrow> 0) (limit + 1)))
         (\<lambda>rows s. (s, Inr (Some (inbox_page limit max_bytes rows)))) s))"

definition insert_inbox_key :: "string \<Rightarrow> database \<Rightarrow> database \<times> (string + unit)" where
  "insert_inbox_key inbox_key d = (d\<lparr>db_inbox_keys := List.insert inbox_key (db_inbox_keys d)\<rparr>, Inr ())"

definition insert_inbox_item :: "string \<Rightarrow> bytes \<Rightarrow> int \<Rightarrow> database \<Rightarrow> database \<times> (string + unit)" where
  "insert_inbox_item inbox_key item expires_at d =
    (if db_inbox_seq d = 2 ^ 63 - 1 then (d, Inl ''database or disk is full'')
     else (d\<lparr>db_inbox_seq := db_inbox_seq d + 1, db_inbox_items := db_inbox_items d @
            [\<lparr>ir_id = db_inbox_seq d + 1, ir_inbox_key = inbox_key, ir_item = item, ir_expires_at = Some expires_at\<rparr>]\<rparr>, Inr ()))"

definition store_inbox_item ::
    "sqlite_faults \<Rightarrow> string \<Rightarrow> bytes \<Rightarrow> u64 \<Rightarrow> AppState \<Rightarrow> AppState \<times> (BridgeError + unit)" where
  "store_inbox_item flt inbox_key item expires_at = with_conn flt
    (seq_res (sqlite flt (insert_inbox_key inbox_key)) (\<lambda>_.
     sqlite flt (insert_inbox_item inbox_key item (as_i64 expires_at))))"

section \<open>What the storage operations keep\<close>

text \<open>A property of the tables, together with the bound of the pool and the fixed limits.\<close>

definition app_inv :: "(database \<Rightarrow> bool) \<Rightarrow> AppState \<Rightarrow> bool" where
  "app_inv Q s \<longleftrightarrow> Q (as_db s) \<and> dp_connections (as_pool s) \<le> dp_max_size (as_pool s) \<and>
    dp_max_size (as_pool s) = 10 \<and> as_limits s = RateLimitConfig_default"

lemma carries_sqlite:
  assumes "\<And>d. Q d \<Longrightarrow> R (fst (statement d))" "\<And>d. Q d \<Longrightarrow> R d"
  shows "carries (app_inv Q) (sqlite flt statement) (app_inv R)"
  using assms by (auto simp: carries_def sqlite_def app_inv_def Let_def split: option.splits prod.splits) (metis fst_conv)+

lemma keeps_sqlite [intro]: "(\<And>d. Q d \<Longrightarrow> Q (fst (statement d))) \<Longrightarrow> keeps (app_inv Q) (sqlite flt statement)"
  unfolding keeps_carries by (rule carries_sqlite)

lemma keeps_get [intro]: "keeps (app_inv Q) (DbPool_get flt)"
  by (auto simp: keeps_def DbPool_get_def app_inv_def sqlite_def Let_def split: nat.splits option.splits)

lemma app_inv_put [simp]: "app_inv Q s \<Longrightarrow> app_inv Q (DbPool_put s)"
  by (simp add: DbPool_put_def app_inv_def)

lemma carries_with_conn:
  assumes "carries (app_inv Q) body (app_inv R)" "\<And>d. Q d \<Longrightarrow> R d"
  shows "carries (app_inv Q) (with_conn flt body) (app_inv R)"
proof -
  have "carries (app_inv Q) (seq_res (DbPool_get flt) (\<lambda>_ s. apfst DbPool_put (body s))) (app_inv R)"
  proof (rule carries_seq)
    show "carries (app_inv Q) (DbPool_get flt) (app_inv Q)" by (simp add: keeps_carries [symmetric] keeps_get)
  qed (use assms in \<open>auto simp: carries_def app_inv_def DbPool_put_def\<close>)
  then show ?thesis by (simp add: carries_def with_conn_def)
qed

lemma keeps_with_conn [intro]: "keeps (app_inv Q) body \<Longrightarrow> keeps (app_inv Q) (with_conn flt body)"
  unfolding keeps_carries by (rule carries_with_conn)

lemma keeps_load_rate_limit_snapshot [intro]:
  "keeps (app_inv Q) (load_rate_limit_snapshot flt ident now limits)"
  unfolding load_rate_limit_snapshot_def
  by (intro keeps_with_conn keeps_seq keeps_sqlite)
    (auto simp: select_volume_def select_score_def Let_def intro!: keeps_seq keeps_sqlite)

lemma keeps_load_entry [intro]: "keeps (app_inv Q) (load_entry flt table key)"
  by (auto simp: load_entry_def intro!: keeps_with_conn keeps_sqlite)

lemma keeps_store_entry [intro]:
  "(\<And>d. Q d \<Longrightarrow> Q (fst (upsert key data d))) \<Longrightarrow> keeps (app_inv Q) (store_entry flt upsert key data)"
  by (auto simp: store_entry_def)

lemma keeps_record_request_log [intro]:
  "(\<And>d. Q d \<Longrightarrow> Q (fst (insert_log (request_row now ident ip slot_id bytes kind outcome) d))) \<Longrightarrow>
    keeps (app_inv Q) (record_request_log flt now ident ip slot_id bytes kind outcome)"
  unfolding record_request_log_def by (intro keeps_with_conn keeps_sqlite)

definition score_in :: "database \<Rightarrow> string \<Rightarrow> int" where
  "score_in d ident = (case db_identity_reputation d ident of Some score \<Rightarrow> score | None \<Rightarrow> 0)"

lemma keeps_update_reputation [intro]:
  assumes "\<And>d. Q d \<Longrightarrow> Q (fst (upsert_score ident (next_score outcome (score_in d ident)) d))"
  shows "keeps (app_inv Q) (update_reputation flt ident outcome)"
proof -
  have "keeps (app_inv Q) (seq_res (sqlite flt (select_score ident)) (\<lambda>current.
      sqlite flt (upsert_score ident (next_score outcome current))))"
    using assms unfolding keeps_def
    by (auto simp: seq_res_def sqlite_def select_score_def upsert_score_def score_in_def app_inv_def Let_def
        split: option.splits)
  then show ?thesis unfolding update_reputation_def by (rule keeps_with_conn)
qed

lemma keeps_load_inbox_items [intro]: "keeps (app_inv Q) (load_inbox_items flt inbox_key now cursor limit max_bytes)"
  unfolding load_inbox_items_def
  by (intro keeps_with_conn keeps_seq keeps_if keeps_sqlite)
    (auto simp: select_items_def intro!: keeps_seq keeps_sqlite)

lemma keeps_store_inbox_item [intro]:
  assumes "\<And>d. Q d \<Longrightarrow> Q (fst (insert_inbox_key inbox_key d))"
    and "\<And>d. Q d \<Longrightarrow> Q (fst (insert_inbox_item inbox_key item (as_i64 expires_at) d))"
  shows "keeps (app_inv Q) (store_inbox_item flt inbox_key item expires_at)"
  using assms unfolding store_inbox_item_def by (intro keeps_with_conn keeps_seq keeps_sqlite) auto

text \<open>The tables behind a result that was returned.\<close>

lemma sqlite_Inr:
  "sqlite flt statement s = (t, Inr a) \<Longrightarrow> statement (as_db s) = (as_db t, Inr a) \<and> as_limits t = as_limits s"
  by (auto simp: sqlite_def Let_def split: option.splits prod.splits)

lemma with_conn_Inr:
  assumes "with_conn flt body s = (t, Inr a)"
  obtains u v where "body u = (v, Inr a)" "as_db u = as_db s" "as_limits u = as_limits s"
    "as_db t = as_db v" "as_limits t = as_limits v"
proof -
  obtain u where get: "DbPool_get flt s = (u, Inr ())" and rest: "apsnd (map_err Storage) (apfst DbPool_put (body u)) = (t, Inr a)"
    using assms by (auto simp: with_conn_def seq_res_def split: prod.splits sum.splits)
  have "as_db u = as_db s" "as_limits u = as_limits s"
    using get by (auto simp: DbPool_get_def sqlite_def Let_def split: nat.splits option.splits)
  moreover obtain v where "body u = (v, Inr a)" "t = DbPool_put v"
    using rest by (cases "body u") auto
  moreover have "as_db (DbPool_put v) = as_db v" "as_limits (DbPool_put v) = as_limits v"
    by (simp_all add: DbPool_put_def)
  ultimately show ?thesis using that by simp
qed

end
