(* ===== verification/Bridge.thy ===== *)
theory Bridge
  imports Bridge_Store
begin

text \<open>
  The request handlers of the HTTP bridge, \<open>spex-bridge/src/lib.rs\<close>: decoding and validation of requests,
  rate limits and adaptive proof of work, and the six routes.

  The JSON bodies and the path and query parameters are the values that axum and serde extract from a
  request.  A handler that reads the clock twice takes both readings.  Here a handler
  runs alone from its first to its last statement; \<open>Bridge_Tasks\<close> has the same handlers cut into steps.
\<close>

section \<open>Requests\<close>

record GrantTokenPayload =
  gp_user_id :: string
  gp_role :: u64
  gp_flags :: "u64 option"
  gp_expires_at :: "u64 option"
  gp_verifying_key :: string
  gp_signature :: string

record bridge_PowParamsPayload =
  wp_memory_kib :: u32
  wp_iterations :: u32
  wp_parallelism :: u32
  wp_output_len :: nat

record PuzzlePayload =
  pp_recipient_key :: string
  pp_puzzle_input :: string
  pp_puzzle_output :: string
  pp_params :: "bridge_PowParamsPayload option"

record StorageRequest =
  sq_data :: string
  sq_grant :: GrantTokenPayload
  sq_puzzle :: PuzzlePayload

record InboxStoreRequest =
  iq_data :: string
  iq_grant :: GrantTokenPayload
  iq_puzzle :: PuzzlePayload
  iq_ttl_seconds :: "u64 option"

record StoredResponse =
  sp_data :: string

record InboxResponse =
  np_items :: "string list"
  np_next_cursor :: "int option"

record InboxQuery =
  nq_limit :: "nat option"
  nq_cursor :: "int option"
  nq_max_bytes :: "nat option"

section \<open>Decoding\<close>

definition bridge_decode_base64 :: "codec \<Rightarrow> string \<Rightarrow> BridgeError + bytes" where
  "bridge_decode_base64 k v = map_err InvalidRequest (cx_unb64 k v)"

definition bridge_decode_fixed_bytes :: "codec \<Rightarrow> nat \<Rightarrow> string \<Rightarrow> BridgeError + bytes" where
  "bridge_decode_fixed_bytes k n v =
    bind_res (bridge_decode_base64 k v) (\<lambda>bytes. if length bytes = n then Inr bytes else Inl (InvalidRequest ''invalid length''))"

definition bridge_decode_signature :: "codec \<Rightarrow> string \<Rightarrow> BridgeError + bytes" where
  "bridge_decode_signature k v = bridge_decode_fixed_bytes k 64 v"

definition bridge_decode_verifying_key :: "codec \<Rightarrow> string \<Rightarrow> BridgeError + bytes" where
  "bridge_decode_verifying_key k v =
    bind_res (bridge_decode_fixed_bytes k 32 v) (\<lambda>bytes. map_err InvalidRequest (map_res (\<lambda>_. bytes) (cx_verifying_key k bytes)))"

definition identity_from_grant :: "codec \<Rightarrow> GrantTokenPayload \<Rightarrow> BridgeError + string" where
  "identity_from_grant k grant = bind_res (bridge_decode_base64 k (gp_user_id grant)) (\<lambda>user_id. Inr (cx_hex k user_id))"

text \<open>The parsers of the fuzzing boundary; reading the JSON text is \<open>serde_json\<close>'s.\<close>

definition StorageRequest_from_bytes :: "(bytes \<Rightarrow> string + StorageRequest) \<Rightarrow> bytes \<Rightarrow> BridgeError + StorageRequest" where
  "StorageRequest_from_bytes json bs = map_err (\<lambda>e. InvalidRequest (''invalid storage payload: '' @ e)) (json bs)"

definition InboxStoreRequest_from_bytes ::
    "(bytes \<Rightarrow> string + InboxStoreRequest) \<Rightarrow> bytes \<Rightarrow> BridgeError + InboxStoreRequest" where
  "InboxStoreRequest_from_bytes json bs = map_err (\<lambda>e. InvalidRequest (''invalid inbox payload: '' @ e)) (json bs)"

definition parse_storage_request_bytes ::
    "codec \<Rightarrow> (bytes \<Rightarrow> string + StorageRequest) \<Rightarrow> bytes \<Rightarrow> BridgeError + unit" where
  "parse_storage_request_bytes k json bs =
    bind_res (StorageRequest_from_bytes json bs) (\<lambda>request.
    bind_res (bridge_decode_base64 k (sq_data request)) (\<lambda>_.
    bind_res (identity_from_grant k (sq_grant request)) (\<lambda>_.
    bind_res (bridge_decode_base64 k (pp_recipient_key (sq_puzzle request))) (\<lambda>_.
    bind_res (bridge_decode_base64 k (pp_puzzle_input (sq_puzzle request))) (\<lambda>_.
    bind_res (bridge_decode_base64 k (pp_puzzle_output (sq_puzzle request))) (\<lambda>_. Inr ()))))))"

definition parse_inbox_store_request_bytes ::
    "codec \<Rightarrow> (bytes \<Rightarrow> string + InboxStoreRequest) \<Rightarrow> bytes \<Rightarrow> BridgeError + unit" where
  "parse_inbox_store_request_bytes k json bs =
    bind_res (InboxStoreRequest_from_bytes json bs) (\<lambda>request.
    bind_res (bridge_decode_base64 k (iq_data request)) (\<lambda>_.
    bind_res (identity_from_grant k (iq_grant request)) (\<lambda>_.
    bind_res (bridge_decode_base64 k (pp_recipient_key (iq_puzzle request))) (\<lambda>_.
    bind_res (bridge_decode_base64 k (pp_puzzle_input (iq_puzzle request))) (\<lambda>_.
    bind_res (bridge_decode_base64 k (pp_puzzle_output (iq_puzzle request))) (\<lambda>_. Inr ()))))))"

section \<open>Client addresses\<close>

datatype IpAddr = V4 u8 u8 u8 u8 | V6 u16 u16 u16 u16 u16 u16 u16 u16

fun mask_ip :: "IpAddr \<Rightarrow> string" where
  "mask_ip (V4 a b c d) = show_nat (unat a) @ ''.'' @ show_nat (unat b) @ ''.'' @ show_nat (unat c) @ ''.0''"
| "mask_ip (V6 a b c d e f g h) =
    show_hex (unat a) @ '':'' @ show_hex (unat b) @ '':'' @ show_hex (unat c) @ '':0:0:0:0:0''"

definition extract_ip :: "IpAddr option \<Rightarrow> string" where
  "extract_ip client_addr = (case client_addr of Some ip \<Rightarrow> mask_ip ip | None \<Rightarrow> ''unknown'')"

section \<open>Validation\<close>

definition grant_of_payload :: "bytes \<Rightarrow> GrantTokenPayload \<Rightarrow> GrantToken" where
  "grant_of_payload user_id grant = \<lparr>gt_user_id = user_id, gt_role = gp_role grant, gt_flags = gp_flags grant,
     gt_expires_at = gp_expires_at grant, gt_extensions = []\<rparr>"

definition validate_grant :: "crypto \<Rightarrow> codec \<Rightarrow> u64 \<Rightarrow> GrantTokenPayload \<Rightarrow> BridgeError + unit" where
  "validate_grant x k now grant =
    bind_res (bridge_decode_base64 k (gp_user_id grant)) (\<lambda>user_id.
    bind_res (bridge_decode_verifying_key k (gp_verifying_key grant)) (\<lambda>verify_key.
    bind_res (bridge_decode_signature k (gp_signature grant)) (\<lambda>signature.
    map_err (\<lambda>e. case e of
        GrantExpired \<Rightarrow> BGrantExpired
      | GrantInvalid \<Rightarrow> BGrantInvalid
      | _ \<Rightarrow> InvalidRequest (GrantPowValidationError_to_string e))
      (validate_grant_token x now (grant_of_payload user_id grant) verify_key signature))))"

definition puzzle_params :: "PuzzlePayload \<Rightarrow> PowParams" where
  "puzzle_params payload =
    (case pp_params payload of
       Some custom \<Rightarrow> \<lparr>pow_memory_kib = wp_memory_kib custom, pow_iterations = wp_iterations custom,
         pow_parallelism = wp_parallelism custom, pow_output_len = wp_output_len custom\<rparr>
     | None \<Rightarrow> pow_minimum)"

definition validate_puzzle :: "crypto \<Rightarrow> codec \<Rightarrow> PuzzlePayload \<Rightarrow> PowParams \<Rightarrow> BridgeError + unit" where
  "validate_puzzle x k payload minimum =
    bind_res (bridge_decode_base64 k (pp_recipient_key payload)) (\<lambda>recipient_key.
    bind_res (bridge_decode_base64 k (pp_puzzle_input payload)) (\<lambda>puzzle_input.
    bind_res (bridge_decode_base64 k (pp_puzzle_output payload)) (\<lambda>puzzle_output.
    map_err (\<lambda>e. case e of
        PowTooWeak \<Rightarrow> PuzzleInvalid
      | PowInvalid \<Rightarrow> PuzzleInvalid
      | _ \<Rightarrow> InvalidRequest (GrantPowValidationError_to_string e))
      (validate_pow_puzzle x recipient_key puzzle_input puzzle_output (puzzle_params payload) minimum))))"

definition validate_grant_and_puzzle ::
    "crypto \<Rightarrow> codec \<Rightarrow> u64 \<Rightarrow> GrantTokenPayload \<Rightarrow> PuzzlePayload \<Rightarrow> PowParams \<Rightarrow> bool \<Rightarrow> BridgeError + unit" where
  "validate_grant_and_puzzle x k now grant puzzle minimum_pow check_grant =
    bind_res (if check_grant then validate_grant x k now grant else Inr ()) (\<lambda>_.
    validate_puzzle x k puzzle minimum_pow)"

definition validate_hash :: "crypto \<Rightarrow> codec \<Rightarrow> string \<Rightarrow> bytes \<Rightarrow> BridgeError + unit" where
  "validate_hash x k card_hash data =
    (if cx_hex k (hash_bytes x Sha256 data) \<noteq> card_hash then Inl HashMismatch else Inr ())"

definition validate_inbox_item_size :: "nat \<Rightarrow> BridgeError + unit" where
  "validate_inbox_item_size data_len =
    (if MAX_INBOX_ITEM_BYTES < data_len then Inl (InvalidRequest ''inbox item too large'') else Inr ())"

definition compute_inbox_expiration :: "u64 \<Rightarrow> u64 option \<Rightarrow> BridgeError + u64" where
  "compute_inbox_expiration now ttl_seconds =
    (let ttl = (case ttl_seconds of Some t \<Rightarrow> t | None \<Rightarrow> DEFAULT_INBOX_TTL_SECONDS)
     in if ttl = 0 \<or> MAX_INBOX_TTL_SECONDS < ttl then Inl (InvalidRequest ''invalid inbox ttl'')
        else ok_or (InvalidRequest ''invalid inbox ttl'') (checked_add now ttl))"

section \<open>Rate limits and adaptive proof of work\<close>

definition enforce_rate_limits :: "RateLimitSnapshot \<Rightarrow> RateLimitConfig \<Rightarrow> nat \<Rightarrow> BridgeError + unit" where
  "enforce_rate_limits snapshot limits incoming_bytes =
    (if rl_max_requests limits < rs_recent_requests snapshot + 1 then Inl RateLimited
     else if rl_max_bytes limits < rs_recent_bytes snapshot + word_of_nat incoming_bytes then Inl RateLimited
     else Inr ())"

definition required_pow_params :: "RateLimitSnapshot \<Rightarrow> RateLimitConfig \<Rightarrow> PowParams" where
  "required_pow_params snapshot limits =
    (let base = pow_minimum;
         request_steps = rs_recent_requests snapshot div rl_difficulty_step_requests limits;
         byte_steps = rs_recent_bytes snapshot div rl_difficulty_step_bytes limits;
         volume_steps = max request_steps byte_steps;
         reputation_bonus = i64_as_u64 (max (rs_reputation_score snapshot) 0) div i64_as_u64 (rl_reputation_step limits);
         steps = sat_sub volume_steps reputation_bonus
     in \<lparr>pow_memory_kib = sat_mul (pow_memory_kib base) (sat_add (ucast steps) 1),
         pow_iterations = sat_add (pow_iterations base) (ucast steps),
         pow_parallelism = pow_parallelism base,
         pow_output_len = pow_output_len base\<rparr>)"

section \<open>Handlers\<close>

text \<open>The end every \<open>PUT\<close> handler shares: an accepted request is stored, then logged, then raises the
  reputation of its identity; a refused one is logged and lowers it, and the error is returned.\<close>

definition settle ::
    "sqlite_faults \<Rightarrow> u64 \<Rightarrow> string \<Rightarrow> string \<Rightarrow> string option \<Rightarrow> nat \<Rightarrow> RequestKind \<Rightarrow>
      ('a \<Rightarrow> AppState \<Rightarrow> AppState \<times> (BridgeError + unit)) \<Rightarrow> BridgeError + 'a \<Rightarrow> AppState \<Rightarrow> AppState \<times> (BridgeError + unit)" where
  "settle flt now ident ip slot_id data_len kind store result =
    (case result of
       Inr a \<Rightarrow>
         seq_res (store a) (\<lambda>_.
         seq_res (record_request_log flt now ident ip slot_id data_len kind Accepted) (\<lambda>_.
         update_reputation flt ident Accepted))
     | Inl err \<Rightarrow>
         seq_res (record_request_log flt now ident ip slot_id data_len kind Rejected) (\<lambda>_.
         seq_res (update_reputation flt ident Rejected) (\<lambda>_ s. (s, Inl err))))"

definition put_card ::
    "crypto \<Rightarrow> codec \<Rightarrow> sqlite_faults \<Rightarrow> u64 \<times> u64 \<Rightarrow> IpAddr option \<Rightarrow> string \<Rightarrow> StorageRequest \<Rightarrow>
      AppState \<Rightarrow> AppState \<times> (BridgeError + unit)" where
  "put_card x k flt clock client_addr card_hash payload s =
    (case bind_res (bridge_decode_base64 k (sq_data payload)) (\<lambda>data.
          bind_res (identity_from_grant k (sq_grant payload)) (\<lambda>ident. Inr (data, ident))) of
       Inl e \<Rightarrow> (s, Inl e)
     | Inr (data, ident) \<Rightarrow>
         seq_res (load_rate_limit_snapshot flt ident (fst clock) (as_limits s)) (\<lambda>snapshot s.
           settle flt (fst clock) ident (extract_ip client_addr) None (length data) Card
             (\<lambda>_. store_entry flt upsert_card card_hash data)
             (bind_res (enforce_rate_limits snapshot (as_limits s) (length data)) (\<lambda>_.
              bind_res (validate_grant_and_puzzle x k (snd clock) (sq_grant payload) (sq_puzzle payload)
                (required_pow_params snapshot (as_limits s)) True) (\<lambda>_.
              validate_hash x k card_hash data))) s) s)"

definition get_card :: "codec \<Rightarrow> sqlite_faults \<Rightarrow> string \<Rightarrow> AppState \<Rightarrow> AppState \<times> (BridgeError + StoredResponse)" where
  "get_card k flt card_hash =
    seq_res (load_entry flt db_cards card_hash) (\<lambda>entry s.
      (s, map_res (\<lambda>data. \<lparr>sp_data = cx_b64 k data\<rparr>) (ok_or NotFound entry)))"

definition put_slot ::
    "crypto \<Rightarrow> codec \<Rightarrow> sqlite_faults \<Rightarrow> u64 \<times> u64 \<Rightarrow> IpAddr option \<Rightarrow> string \<Rightarrow> StorageRequest \<Rightarrow>
      AppState \<Rightarrow> AppState \<times> (BridgeError + unit)" where
  "put_slot x k flt clock client_addr slot_id payload s =
    (case bridge_decode_base64 k (sq_data payload) of
       Inl e \<Rightarrow> (s, Inl e)
     | Inr data \<Rightarrow>
         let now = fst clock;
             ip = extract_ip client_addr;
             ident = (case identity_from_grant k (sq_grant payload) of Inr i \<Rightarrow> i | Inl _ \<Rightarrow> ''unknown'');
             finish = settle flt now ident ip (Some slot_id) (length data) Slot
               (\<lambda>_. store_entry flt upsert_slot slot_id data)
         in case validate_grant x k now (sq_grant payload) of
              Inl err \<Rightarrow> finish (Inl err) s
            | Inr _ \<Rightarrow>
                seq_res (load_rate_limit_snapshot flt ident now (as_limits s)) (\<lambda>snapshot s.
                  finish (bind_res (enforce_rate_limits snapshot (as_limits s) (length data)) (\<lambda>_.
                    bind_res (validate_grant_and_puzzle x k (snd clock) (sq_grant payload) (sq_puzzle payload)
                      (required_pow_params snapshot (as_limits s)) False) (\<lambda>_.
                    validate_hash x k slot_id data))) s) s)"

definition get_slot :: "codec \<Rightarrow> sqlite_faults \<Rightarrow> string \<Rightarrow> AppState \<Rightarrow> AppState \<times> (BridgeError + StoredResponse)" where
  "get_slot k flt slot_id =
    seq_res (load_entry flt db_slots slot_id) (\<lambda>entry s.
      (s, map_res (\<lambda>data. \<lparr>sp_data = cx_b64 k data\<rparr>) (ok_or NotFound entry)))"

definition put_inbox ::
    "crypto \<Rightarrow> codec \<Rightarrow> sqlite_faults \<Rightarrow> u64 \<times> u64 \<Rightarrow> IpAddr option \<Rightarrow> string \<Rightarrow> InboxStoreRequest \<Rightarrow>
      AppState \<Rightarrow> AppState \<times> (BridgeError + unit)" where
  "put_inbox x k flt clock client_addr inbox_key payload s =
    (case bind_res (bridge_decode_base64 k (iq_data payload)) (\<lambda>data.
          bind_res (identity_from_grant k (iq_grant payload)) (\<lambda>ident. Inr (data, ident))) of
       Inl e \<Rightarrow> (s, Inl e)
     | Inr (data, ident) \<Rightarrow>
         seq_res (load_rate_limit_snapshot flt ident (fst clock) (as_limits s)) (\<lambda>snapshot s.
           settle flt (fst clock) ident (extract_ip client_addr) None (length data) InboxKind
             (store_inbox_item flt inbox_key data)
             (bind_res (validate_inbox_item_size (length data)) (\<lambda>_.
              bind_res (enforce_rate_limits snapshot (as_limits s) (length data)) (\<lambda>_.
              bind_res (validate_grant_and_puzzle x k (snd clock) (iq_grant payload) (iq_puzzle payload)
                (required_pow_params snapshot (as_limits s)) True) (\<lambda>_.
              compute_inbox_expiration (fst clock) (iq_ttl_seconds payload))))) s) s)"

definition get_inbox ::
    "codec \<Rightarrow> sqlite_faults \<Rightarrow> u64 \<Rightarrow> string \<Rightarrow> InboxQuery \<Rightarrow> AppState \<Rightarrow> AppState \<times> (BridgeError + InboxResponse)" where
  "get_inbox k flt now inbox_key query s =
    seq_res (load_inbox_items flt inbox_key now (nq_cursor query) (normalize_inbox_limit (nq_limit query))
        (normalize_inbox_max_bytes (nq_max_bytes query) (rl_max_bytes (as_limits s))))
      (\<lambda>page s. (s, map_res (\<lambda>p. \<lparr>np_items = map (cx_b64 k) (ip_items p), np_next_cursor = ip_next_cursor p\<rparr>)
        (ok_or NotFound page))) s"

section \<open>Routes\<close>

fun error_status :: "BridgeError \<Rightarrow> nat" where
  "error_status (InvalidRequest _) = 400"
| "error_status PuzzleInvalid = 401"
| "error_status BGrantInvalid = 401"
| "error_status BGrantExpired = 401"
| "error_status HashMismatch = 400"
| "error_status (Storage _) = 500"
| "error_status NotFound = 404"
| "error_status RateLimited = 429"

datatype reply =
    NoContent
  | StoredReply StoredResponse
  | InboxReply InboxResponse
  | ErrorReply nat string

definition into_response :: "('a \<Rightarrow> reply) \<Rightarrow> BridgeError + 'a \<Rightarrow> reply" where
  "into_response ok r = (case r of Inr a \<Rightarrow> ok a | Inl e \<Rightarrow> ErrorReply (error_status e) (BridgeError_to_string e))"

datatype call =
    PutCard string StorageRequest
  | GetCard string
  | PutSlot string StorageRequest
  | GetSlot string
  | PutInbox string InboxStoreRequest
  | GetInbox string InboxQuery

fun app ::
    "crypto \<Rightarrow> codec \<Rightarrow> sqlite_faults \<Rightarrow> u64 \<times> u64 \<Rightarrow> IpAddr option \<Rightarrow> call \<Rightarrow> AppState \<Rightarrow> AppState \<times> reply" where
  "app x k flt clock addr (PutCard h p) s = apsnd (into_response (\<lambda>_. NoContent)) (put_card x k flt clock addr h p s)"
| "app x k flt clock addr (GetCard h) s = apsnd (into_response StoredReply) (get_card k flt h s)"
| "app x k flt clock addr (PutSlot i p) s = apsnd (into_response (\<lambda>_. NoContent)) (put_slot x k flt clock addr i p s)"
| "app x k flt clock addr (GetSlot i) s = apsnd (into_response StoredReply) (get_slot k flt i s)"
| "app x k flt clock addr (PutInbox i p) s = apsnd (into_response (\<lambda>_. NoContent)) (put_inbox x k flt clock addr i p s)"
| "app x k flt clock addr (GetInbox i q) s = apsnd (into_response InboxReply) (get_inbox k flt (fst clock) i q s)"

section \<open>The invariant of the stored data\<close>

text \<open>Cards and slots are filed under the hash of their content.  Reputation stays in its range.  Inbox items
  have increasing identifiers, a known inbox and a bounded size.\<close>

definition content_addressed :: "crypto \<Rightarrow> codec \<Rightarrow> (string \<Rightarrow> bytes option) \<Rightarrow> bool" where
  "content_addressed x k m \<longleftrightarrow> (\<forall>h data. m h = Some data \<longrightarrow> h = cx_hex k (hash_bytes x Sha256 data))"

definition inbox_ok :: "database \<Rightarrow> bool" where
  "inbox_ok d \<longleftrightarrow> sorted_wrt (<) (map ir_id (db_inbox_items d)) \<and> 0 \<le> db_inbox_seq d \<and>
    (\<forall>r \<in> set (db_inbox_items d). 0 < ir_id r \<and> ir_id r \<le> db_inbox_seq d \<and>
      length (ir_item r) \<le> MAX_INBOX_ITEM_BYTES \<and> ir_inbox_key r \<in> set (db_inbox_keys d))"

definition db_ok :: "crypto \<Rightarrow> codec \<Rightarrow> database \<Rightarrow> bool" where
  "db_ok x k d \<longleftrightarrow> content_addressed x k (db_cards d) \<and> content_addressed x k (db_slots d) \<and> inbox_ok d \<and>
    length (db_request_logs d) < 2 ^ 63 \<and> (\<forall>i v. db_identity_reputation d i = Some v \<longrightarrow> - 20 \<le> v \<and> v \<le> 100)"

text \<open>Scores are read back as \<open>i32\<close>, and one step from any of them stays in the range.\<close>

lemma next_score_range:
  assumes "- 20 \<le> v" "v \<le> 100"
  shows "- 20 \<le> next_score outcome v \<and> next_score outcome v \<le> 100"
  using assms by (cases outcome) (simp_all add: next_score_def)

definition empty_db :: database where
  "empty_db = \<lparr>db_schema = [], db_cards = Map.empty, db_slots = Map.empty, db_inbox_keys = [], db_inbox_items = [],
     db_inbox_seq = 0, db_request_logs = [], db_identity_reputation = Map.empty\<rparr>"

inductive bridge_reachable :: "crypto \<Rightarrow> codec \<Rightarrow> AppState \<Rightarrow> bool" for x k where
  start: "snd (init_state flt path empty_db) = Inr s \<Longrightarrow> bridge_reachable x k s"
| restart: "bridge_reachable x k s \<Longrightarrow> snd (init_state flt path (as_db s)) = Inr s' \<Longrightarrow> bridge_reachable x k s'"
| serve: "bridge_reachable x k s \<Longrightarrow> bridge_reachable x k (fst (app x k flt clock addr c s))"

lemma content_addressed_upsert:
  "content_addressed x k m \<Longrightarrow> validate_hash x k h data = Inr u \<Longrightarrow> content_addressed x k (m(h \<mapsto> data))"
  by (auto simp: content_addressed_def validate_hash_def split: if_splits)

lemma inbox_ok_cong:
  "db_inbox_items d' = db_inbox_items d \<Longrightarrow> db_inbox_keys d' = db_inbox_keys d \<Longrightarrow> db_inbox_seq d' = db_inbox_seq d \<Longrightarrow>
    inbox_ok d' = inbox_ok d"
  by (simp add: inbox_ok_def)

lemma inbox_ok_insert_key: "inbox_ok d \<Longrightarrow> inbox_ok (fst (insert_inbox_key inbox_key d))"
  by (auto simp: inbox_ok_def insert_inbox_key_def)

lemma inbox_ok_insert_item:
  "inbox_ok d \<Longrightarrow> inbox_key \<in> set (db_inbox_keys d) \<Longrightarrow> length item \<le> MAX_INBOX_ITEM_BYTES \<Longrightarrow>
    inbox_ok (fst (insert_inbox_item inbox_key item e d))"
  by (auto simp: inbox_ok_def insert_inbox_item_def sorted_wrt_append)

lemma db_ok_log [simp]: "db_ok x k d \<Longrightarrow> db_ok x k (fst (insert_log r d))"
  by (auto simp: db_ok_def insert_log_def inbox_ok_def)

lemma db_ok_score [simp]: "db_ok x k d \<Longrightarrow> db_ok x k (fst (upsert_score i (next_score outcome (score_in d i)) d))"
proof -
  assume ok: "db_ok x k d"
  then have "- 20 \<le> score_in d i \<and> score_in d i \<le> 100"
    by (cases "db_identity_reputation d i") (auto simp: db_ok_def score_in_def)
  then show "db_ok x k (fst (upsert_score i (next_score outcome (score_in d i)) d))"
    using ok next_score_range [of "score_in d i" outcome] by (auto simp: db_ok_def upsert_score_def inbox_ok_def)
qed

lemma keeps_settle:
  assumes "\<And>a. result = Inr a \<Longrightarrow> keeps (app_inv Q) (store a)"
    and "\<And>d i outcome. Q d \<Longrightarrow> Q (fst (upsert_score i (next_score outcome (score_in d i)) d))"
    and "\<And>d r. Q d \<Longrightarrow> Q (fst (insert_log r d))"
  shows "keeps (app_inv Q) (settle flt now ident ip slot_id data_len kind store result)"
  using assms by (cases result) (auto simp: settle_def intro!: keeps_seq)

lemma keeps_store_item_ok:
  assumes "length item \<le> MAX_INBOX_ITEM_BYTES"
  shows "keeps (app_inv (db_ok x k)) (store_inbox_item flt inbox_key item expires_at)"
proof -
  have "keeps (app_inv (db_ok x k)) (seq_res (sqlite flt (insert_inbox_key inbox_key)) (\<lambda>_.
      sqlite flt (insert_inbox_item inbox_key item (as_i64 expires_at))))"
    using assms unfolding keeps_def
    by (auto simp: seq_res_def sqlite_def app_inv_def db_ok_def insert_inbox_key_def insert_inbox_item_def
        inbox_ok_def sorted_wrt_append Let_def split: option.splits if_splits)
  then show ?thesis unfolding store_inbox_item_def by (rule keeps_with_conn)
qed

lemma keeps_validated:
  assumes "\<And>snapshot s a. result snapshot s = Inr a \<Longrightarrow> keeps (app_inv (db_ok x k)) (store a)"
  shows "keeps (app_inv (db_ok x k)) (seq_res (load_rate_limit_snapshot flt ident now limits) (\<lambda>snapshot s.
    settle flt now ident ip slot_id data_len kind store (result snapshot s) s))"
proof (rule keeps_seq)
  show "keeps (app_inv (db_ok x k)) (\<lambda>s. settle flt now ident ip slot_id data_len kind store (result snapshot s) s)"
    for snapshot
    unfolding keeps_def by (intro allI impI keepsD [OF keeps_settle]) (auto dest: assms)
qed auto

lemma keeps_put_card: "keeps (app_inv (db_ok x k)) (put_card x k flt clock addr h p)"
proof -
  have store: "keeps (app_inv (db_ok x k)) (store_entry flt upsert_card h data)" if "validate_hash x k h data = Inr u" for data u
    using that by (auto simp: db_ok_def upsert_card_def content_addressed_upsert inbox_ok_def)
  show ?thesis
    unfolding keeps_def put_card_def
    by (auto split: sum.split intro!: keepsD [OF keeps_validated] dest: store simp del: bind_res_eq_Inr)
      (auto dest: store)
qed

lemma keeps_put_slot: "keeps (app_inv (db_ok x k)) (put_slot x k flt clock addr h p)"
proof -
  have store: "keeps (app_inv (db_ok x k)) (store_entry flt upsert_slot h data)" if "validate_hash x k h data = Inr u" for data u
    using that by (auto simp: db_ok_def upsert_slot_def content_addressed_upsert inbox_ok_def)
  show ?thesis
    unfolding keeps_def put_slot_def Let_def
    by (auto split: sum.split intro!: keepsD [OF keeps_validated] keepsD [OF keeps_settle] dest: store
        simp del: bind_res_eq_Inr)
      (auto dest: store)
qed

lemma keeps_put_inbox: "keeps (app_inv (db_ok x k)) (put_inbox x k flt clock addr i p)"
  unfolding keeps_def put_inbox_def
  by (auto split: sum.split intro!: keepsD [OF keeps_validated] keeps_store_item_ok simp del: bind_res_eq_Inr)
    (auto simp: validate_inbox_item_size_def split: if_splits)

fun call_grant :: "call \<Rightarrow> (GrantTokenPayload \<times> PuzzlePayload) option" where
  "call_grant (PutCard _ p) = Some (sq_grant p, sq_puzzle p)"
| "call_grant (PutSlot _ p) = Some (sq_grant p, sq_puzzle p)"
| "call_grant (PutInbox _ p) = Some (iq_grant p, iq_puzzle p)"
| "call_grant _ = None"

lemma keeps_app_get:
  assumes "call_grant c = None"
  shows "keeps (app_inv Q) (app x k flt clock addr c)"
proof (cases c)
  case (GetCard h)
  have "keeps (app_inv Q) (get_card k flt h)" unfolding get_card_def by auto
  with GetCard show ?thesis by (simp add: keeps_def)
next
  case (GetSlot h)
  have "keeps (app_inv Q) (get_slot k flt h)" unfolding get_slot_def by auto
  with GetSlot show ?thesis by (simp add: keeps_def)
next
  case (GetInbox i q)
  have "app_inv Q s \<Longrightarrow> app_inv Q (fst (get_inbox k flt now i q s))" for now s
    unfolding get_inbox_def by (rule keepsD [OF keeps_seq]) auto
  with GetInbox show ?thesis by (simp add: keeps_def)
qed (use assms in simp_all)

lemma keeps_app: "keeps (app_inv (db_ok x k)) (app x k flt clock addr c)"
proof (cases c)
  case (PutCard h p)
  with keeps_put_card [of x k flt clock addr h p] show ?thesis by (simp add: keeps_def)
next
  case (PutSlot h p)
  with keeps_put_slot [of x k flt clock addr h p] show ?thesis by (simp add: keeps_def)
next
  case (PutInbox i p)
  with keeps_put_inbox [of x k flt clock addr i p] show ?thesis by (simp add: keeps_def)
qed (simp_all add: keeps_app_get)

lemma keeps_init_db:
  assumes "\<And>d schema. Q d \<Longrightarrow> Q (d\<lparr>db_schema := schema\<rparr>)"
  shows "keeps (app_inv Q) (init_db flt)"
  using assms unfolding init_db_def ensure_inbox_items_expiration_column_def
  by (intro keeps_seq keeps_if keeps_sqlite keeps_return)
    (simp_all add: create_table_def inbox_items_has_expires_column_def add_expires_column_def)

lemma init_state_inv:
  assumes "Q d" "\<And>d schema. Q d \<Longrightarrow> Q (d\<lparr>db_schema := schema\<rparr>)" and "snd (init_state flt path d) = Inr s"
  shows "app_inv Q s"
proof -
  let ?s = "\<lparr>as_db = d, as_pool = DbPool_new path 10, as_limits = RateLimitConfig_default, as_calls = 0\<rparr>"
  have "app_inv Q ?s" using assms(1) by (simp add: app_inv_def DbPool_new_def)
  then have "app_inv Q (fst (init_db flt ?s))" using keeps_init_db [of Q flt] assms(2) by (blast intro: keepsD)
  then show ?thesis
    using assms(3) by (auto simp: init_state_def split: prod.splits sum.splits)
qed

lemma reachable_app_inv: "bridge_reachable x k s \<Longrightarrow> app_inv (db_ok x k) s"
proof (induction rule: bridge_reachable.induct)
  case (start flt path s)
  have "db_ok x k empty_db" by (simp add: db_ok_def empty_db_def content_addressed_def inbox_ok_def)
  then show ?case by (rule init_state_inv [OF _ _ start]) (simp add: db_ok_def inbox_ok_def)
next
  case (restart s flt path s')
  then have "db_ok x k (as_db s)" by (simp add: app_inv_def)
  then show ?case by (rule init_state_inv [OF _ _ restart.hyps(2)]) (simp add: db_ok_def inbox_ok_def)
next
  case (serve s flt clock addr c)
  show ?case by (rule keepsD [OF keeps_app serve.IH])
qed

text \<open>A bridge that has started on an empty file, and a request it accepts.\<close>

definition fresh_bridge :: AppState where
  "fresh_bridge = fst (init_db (\<lambda>_. None)
     \<lparr>as_db = empty_db, as_pool = DbPool_new ''bridge.db'' 10, as_limits = RateLimitConfig_default, as_calls = 0\<rparr>)"

lemma fresh_bridge_init: "snd (init_state (\<lambda>_. None) ''bridge.db'' empty_db) = Inr fresh_bridge"
  by (simp add: init_state_def fresh_bridge_def init_db_def seq_res_def sqlite_def Let_def create_table_def
      ensure_inbox_items_expiration_column_def inbox_items_has_expires_column_def empty_db_def)

lemma fresh_bridge_reachable: "bridge_reachable x k fresh_bridge"
  by (rule bridge_reachable.start [OF fresh_bridge_init])

definition sample_grant :: GrantTokenPayload where
  "sample_grant = \<lparr>gp_user_id = bytes_str [1], gp_role = 2, gp_flags = None, gp_expires_at = Some 9,
     gp_verifying_key = bytes_str (replicate 32 7),
     gp_signature = bytes_str (replicate 32 7 @ [0xa3, 0x00, 0x41, 0x01, 0x01, 0x02, 0x03, 0x09] @ replicate 24 0)\<rparr>"

definition sample_puzzle :: PuzzlePayload where
  "sample_puzzle = \<lparr>pp_recipient_key = '''', pp_puzzle_input = bytes_str (replicate 32 5),
     pp_puzzle_output = bytes_str (replicate 32 5), pp_params = None\<rparr>"

lemma sample_grant_valid: "now < 9 \<Longrightarrow> validate_grant toy_crypto toy_codec now sample_grant = Inr ()"
proof -
  assume now: "now < 9"
  have b: "ctap2_canonical_value_bytes (GrantToken_to_cbor (grant_of_payload [1] sample_grant)) =
      Inr [0xa3, 0x00, 0x41, 0x01, 0x01, 0x02, 0x03, 0x09]"
    by code_simp
  have "validate_grant_token toy_crypto now (grant_of_payload [1] sample_grant) (replicate 32 7)
      (replicate 32 7 @ [0xa3, 0x00, 0x41, 0x01, 0x01, 0x02, 0x03, 0x09] @ replicate 24 0) = Inr ()"
    unfolding validate_grant_token_eq_Inr b using now
    by (simp add: grant_of_payload_def sample_grant_def toy_crypto_def numeral_eq_Suc)
  then show ?thesis
    by (simp add: validate_grant_def bridge_decode_base64_def bridge_decode_verifying_key_def
        bridge_decode_signature_def bridge_decode_fixed_bytes_def toy_codec_def sample_grant_def)
qed

lemma sample_puzzle_valid: "validate_puzzle toy_crypto toy_codec sample_puzzle pow_minimum = Inr ()"
proof -
  have "validate_pow_puzzle toy_crypto [] (replicate 32 5) (replicate 32 5) pow_minimum pow_minimum = Inr ()"
    by (simp add: validate_pow_puzzle_def verify_puzzle_output_def generate_puzzle_output_def to_argon2_def
        toy_crypto_def pow_minimum_def meets_minimum_def)
  then show ?thesis
    by (simp add: validate_puzzle_def bridge_decode_base64_def puzzle_params_def toy_codec_def sample_puzzle_def)
qed

text \<open>C14. Whatever requests a bridge serves, whichever SQLite calls fail and however often it is restarted:
  every card and slot is filed under the hex SHA-256 of its content, every reputation lies between -20 and
  100, inbox items have strictly increasing identifiers, belong to a known inbox and have at most 262144
  bytes, and the pool never holds more than ten idle connections.\<close>

theorem reachable_bridge_ok:
  assumes "bridge_reachable x k s"
  shows "db_ok x k (as_db s) \<and> dp_connections (as_pool s) \<le> 10"
  using reachable_app_inv [OF assms] by (simp add: app_inv_def)

theorem reachable_bridge_ok_witness:
  "db_ok toy_crypto toy_codec (as_db (fst (app toy_crypto toy_codec (\<lambda>_. None) (4, 5) None
     (PutSlot ''x'' \<lparr>sq_data = ''spex'', sq_grant = sample_grant, sq_puzzle = sample_puzzle\<rparr>) fresh_bridge)))"
  using reachable_bridge_ok [OF bridge_reachable.serve [OF fresh_bridge_reachable]] by blast

end
