(* ===== verification/Bridge_Safety.thy ===== *)
theory Bridge_Safety
  imports Bridge
begin

text \<open>
  What the bridge guarantees about its users: only authorised requests change the stored content, and what
  the quota does not protect against.
\<close>

section \<open>Authorisation\<close>

definition contents :: "database \<Rightarrow> (string \<Rightarrow> bytes option) \<times> (string \<Rightarrow> bytes option) \<times> inbox_row list" where
  "contents d = (db_cards d, db_slots d, db_inbox_items d)"

lemma contents_simps [simp]:
  "contents (fst (insert_log r d)) = contents d"
  "contents (fst (upsert_score i v d)) = contents d"
  by (simp_all add: contents_def insert_log_def upsert_score_def)

lemma keeps_refused:
  assumes "\<And>snapshot s a. as_limits s = RateLimitConfig_default \<Longrightarrow> result snapshot s \<noteq> Inr a"
  shows "keeps (app_inv (\<lambda>d. contents d = c)) (seq_res (load_rate_limit_snapshot flt ident now limits) (\<lambda>snapshot s.
    settle flt now ident ip slot_id data_len kind store (result snapshot s) s))"
proof (rule keeps_seq)
  show "keeps (app_inv (\<lambda>d. contents d = c)) (\<lambda>s. settle flt now ident ip slot_id data_len kind store (result snapshot s) s)"
    for snapshot
    unfolding keeps_def
  proof (intro allI impI)
    fix s
    assume s: "app_inv (\<lambda>d. contents d = c) s"
    then have "result snapshot s \<noteq> Inr a" for a using assms by (simp add: app_inv_def)
    then have "keeps (app_inv (\<lambda>d. contents d = c)) (settle flt now ident ip slot_id data_len kind store (result snapshot s))"
      by (intro keeps_settle) (blast, simp_all)
    then show "app_inv (\<lambda>d. contents d = c) (fst (settle flt now ident ip slot_id data_len kind store (result snapshot s) s))"
      using s by (rule keepsD)
  qed
qed auto

lemma required_pow_at_least: "pow_at_least (required_pow_params snapshot limits) pow_minimum"
proof -
  have "unat (65536 :: u32) \<le> unat (sat_mul 65536 (sat_add w 1) :: u32)"
    and "unat (3 :: u32) \<le> unat (sat_add 3 w :: u32)" for w
    by (simp_all add: unat_sat_mul unat_sat_add)
  then show ?thesis
    by (simp add: pow_at_least_def required_pow_params_def Let_def pow_minimum_def word_le_nat_alt)
qed

definition validated :: "crypto \<Rightarrow> codec \<Rightarrow> u64 \<times> u64 \<Rightarrow> GrantTokenPayload \<Rightarrow> PuzzlePayload \<Rightarrow> bool" where
  "validated x k clock grant puzzle \<longleftrightarrow>
    (\<exists>now \<in> {fst clock, snd clock}. validate_grant x k now grant = Inr ()) \<and>
    (\<exists>minimum. pow_at_least minimum pow_minimum \<and> validate_puzzle x k puzzle minimum = Inr ())"

lemma validate_grant_facts:
  assumes "validate_grant x k now grant = Inr ()"
  obtains user_id vk sig b where "cx_unb64 k (gp_user_id grant) = Inr user_id"
    "cx_unb64 k (gp_verifying_key grant) = Inr vk" "cx_unb64 k (gp_signature grant) = Inr sig"
    "ctap2_canonical_value_bytes (GrantToken_to_cbor (grant_of_payload user_id grant)) = Inr b"
    "x_verify_strict x vk (x_sha256 x b) sig" "\<forall>e. gp_expires_at grant = Some e \<longrightarrow> now < e"
  using assms
  by (auto simp: validate_grant_def bridge_decode_base64_def bridge_decode_verifying_key_def
      bridge_decode_signature_def bridge_decode_fixed_bytes_def validate_grant_token_eq_Inr grant_of_payload_def
      split: if_splits)

lemma validate_puzzle_facts:
  assumes "argon2_len x" "validate_puzzle x k puzzle minimum = Inr ()"
  obtains recipient pin pout where "cx_unb64 k (pp_recipient_key puzzle) = Inr recipient"
    "cx_unb64 k (pp_puzzle_input puzzle) = Inr pin" "cx_unb64 k (pp_puzzle_output puzzle) = Inr pout"
    "meets_minimum (puzzle_params puzzle)"
    "generate_puzzle_output x recipient pin (puzzle_params puzzle) = Inr pout"
  using assms
  by (auto simp: validate_puzzle_def bridge_decode_base64_def pow_accepted)

lemma app_unchanged:
  assumes inv: "app_inv (\<lambda>d. contents d = c) s"
    and no: "\<And>grant puzzle. call_grant q = Some (grant, puzzle) \<Longrightarrow> \<not> validated x k clock grant puzzle"
  shows "contents (as_db (fst (app x k flt clock addr q s))) = c"
proof -
  have no_grant: "validate_grant_and_puzzle x k (snd clock) g p (required_pow_params sn l) True \<noteq> Inr u"
    if "call_grant q = Some (g, p)" for g p sn l u
    using no [OF that] required_pow_at_least by (auto simp: validate_grant_and_puzzle_def validated_def)
  have "app_inv (\<lambda>d. contents d = c) (fst (app x k flt clock addr q s))"
  proof (cases q)
    case (PutCard h p)
    then show ?thesis
      using inv no_grant [of "sq_grant p" "sq_puzzle p"]
      by (auto simp: put_card_def split: sum.split intro!: keepsD [OF keeps_refused])
  next
    case (PutSlot h p)
    have "validate_grant_and_puzzle x k (snd clock) (sq_grant p) (sq_puzzle p) (required_pow_params sn l) False \<noteq> Inr u"
      if "validate_grant x k (fst clock) (sq_grant p) = Inr ()" for sn l u
      using no [of "sq_grant p" "sq_puzzle p"] PutSlot that required_pow_at_least
      by (auto simp: validate_grant_and_puzzle_def validated_def)
    then show ?thesis
      using inv PutSlot
      by (auto simp: put_slot_def Let_def split: sum.split intro!: keepsD [OF keeps_refused] keepsD [OF keeps_settle])
  next
    case (PutInbox h p)
    then show ?thesis
      using inv no_grant [of "iq_grant p" "iq_puzzle p"]
      by (auto simp: put_inbox_def split: sum.split intro!: keepsD [OF keeps_refused])
  qed (rule keepsD [OF keeps_app_get inv]; simp)+
  then show ?thesis by (simp add: app_inv_def)
qed

text \<open>C2. Stored content changes only for a request whose grant carries a signature that verifies over its
  canonical bytes and has not expired, and whose puzzle solution is the Argon2id output for the request's
  input and recipient with at least the built-in cost.\<close>

theorem stored_content_authorised:
  assumes "argon2_len x" "bridge_reachable x k s"
    and "contents (as_db (fst (app x k flt clock addr q s))) \<noteq> contents (as_db s)"
  shows "\<exists>grant puzzle user_id vk sig b recipient pin pout.
    call_grant q = Some (grant, puzzle) \<and>
    cx_unb64 k (gp_user_id grant) = Inr user_id \<and> cx_unb64 k (gp_verifying_key grant) = Inr vk \<and>
    cx_unb64 k (gp_signature grant) = Inr sig \<and>
    ctap2_canonical_value_bytes (GrantToken_to_cbor (grant_of_payload user_id grant)) = Inr b \<and>
    x_verify_strict x vk (x_sha256 x b) sig \<and>
    (\<forall>e. gp_expires_at grant = Some e \<longrightarrow> fst clock < e \<or> snd clock < e) \<and>
    cx_unb64 k (pp_recipient_key puzzle) = Inr recipient \<and> cx_unb64 k (pp_puzzle_input puzzle) = Inr pin \<and>
    cx_unb64 k (pp_puzzle_output puzzle) = Inr pout \<and> meets_minimum (puzzle_params puzzle) \<and>
    generate_puzzle_output x recipient pin (puzzle_params puzzle) = Inr pout"
proof -
  have "app_inv (\<lambda>d. contents d = contents (as_db s)) s"
    using reachable_app_inv [OF assms(2)] by (simp add: app_inv_def)
  then obtain grant puzzle where q: "call_grant q = Some (grant, puzzle)" and ok: "validated x k clock grant puzzle"
    using assms(3) app_unchanged by blast
  from ok obtain now minimum where now: "now \<in> {fst clock, snd clock}" and grant: "validate_grant x k now grant = Inr ()"
    and puzzle: "validate_puzzle x k puzzle minimum = Inr ()"
    by (auto simp: validated_def)
  obtain user_id vk sig b where g: "cx_unb64 k (gp_user_id grant) = Inr user_id"
    "cx_unb64 k (gp_verifying_key grant) = Inr vk" "cx_unb64 k (gp_signature grant) = Inr sig"
    "ctap2_canonical_value_bytes (GrantToken_to_cbor (grant_of_payload user_id grant)) = Inr b"
    "x_verify_strict x vk (x_sha256 x b) sig" "\<forall>e. gp_expires_at grant = Some e \<longrightarrow> now < e"
    using grant by (rule validate_grant_facts)
  moreover have "fst clock < e \<or> snd clock < e" if "gp_expires_at grant = Some e" for e
    using g(6) that now by auto
  moreover obtain recipient pin pout where "cx_unb64 k (pp_recipient_key puzzle) = Inr recipient"
    "cx_unb64 k (pp_puzzle_input puzzle) = Inr pin" "cx_unb64 k (pp_puzzle_output puzzle) = Inr pout"
    "meets_minimum (puzzle_params puzzle)"
    "generate_puzzle_output x recipient pin (puzzle_params puzzle) = Inr pout"
    using assms(1) puzzle by (rule validate_puzzle_facts)
  ultimately show ?thesis using q by blast
qed

section \<open>Runs without storage faults\<close>

text \<open>The result of an operation and the tables it leaves.\<close>

definition leads :: "(AppState \<Rightarrow> AppState \<times> 'r) \<Rightarrow> AppState \<Rightarrow> database \<Rightarrow> 'r \<Rightarrow> bool" where
  "leads m s d r \<longleftrightarrow> snd (m s) = r \<and> as_db (fst (m s)) = d \<and> as_limits (fst (m s)) = as_limits s"

abbreviation no_faults :: sqlite_faults where
  "no_faults \<equiv> \<lambda>_. None"

lemma leads_return: "leads (\<lambda>s. (s, r)) s (as_db s) r"
  by (simp add: leads_def)

lemma leads_sqlite: "statement (as_db s) = (d, r) \<Longrightarrow> leads (sqlite no_faults statement) s d r"
  by (simp add: leads_def sqlite_def)

lemma leads_seq:
  assumes "leads m s d (Inr a)"
    and "\<And>t. as_db t = d \<Longrightarrow> as_limits t = as_limits s \<Longrightarrow> leads (f a) t d' r"
  shows "leads (seq_res m f) s d' r"
proof -
  obtain t where "m s = (t, Inr a)" "as_db t = d" "as_limits t = as_limits s"
    using assms(1) by (cases "m s") (auto simp: leads_def)
  then show ?thesis using assms(2) [of t] by (simp add: leads_def seq_res_def)
qed

lemma leads_with_conn:
  assumes "\<And>t. as_db t = as_db s \<Longrightarrow> as_limits t = as_limits s \<Longrightarrow> leads body t d (Inr r)"
  shows "leads (with_conn no_faults body) s d (Inr r)"
proof -
  obtain t where t: "DbPool_get no_faults s = (t, Inr ())" "as_db t = as_db s" "as_limits t = as_limits s"
    by (cases "dp_connections (as_pool s)") (auto simp: DbPool_get_def sqlite_def)
  then have "leads body t d (Inr r)" using assms by blast
  then show ?thesis
    using t by (simp add: leads_def with_conn_def seq_res_def DbPool_put_def apsnd_def map_prod_def split_beta)
qed

definition window_rows :: "database \<Rightarrow> string \<Rightarrow> int \<Rightarrow> log_row list" where
  "window_rows d ident start = filter (\<lambda>r. lg_identity r = ident \<and> start \<le> lg_timestamp r) (db_request_logs d)"

definition snapshot_in :: "database \<Rightarrow> string \<Rightarrow> u64 \<Rightarrow> RateLimitSnapshot" where
  "snapshot_in d ident now =
    (let rows = window_rows d ident (as_i64 (sat_sub now 60))
     in \<lparr>rs_recent_requests = i64_as_u64 (int (length rows)), rs_recent_bytes = i64_as_u64 (sum_list (map lg_bytes rows)),
         rs_reputation_score = score_in d ident\<rparr>)"

text \<open>The byte counts of the log are not negative and their sum is an \<open>i64\<close>.\<close>

definition log_fits :: "database \<Rightarrow> bool" where
  "log_fits d \<longleftrightarrow> (\<forall>r \<in> set (db_request_logs d). 0 \<le> lg_bytes r) \<and> sum_list (map lg_bytes (db_request_logs d)) < 2 ^ 63"

lemma sum_list_filter_bounds:
  assumes "\<forall>r \<in> set rs. 0 \<le> (f r :: int)"
  shows "0 \<le> sum_list (map f (filter P rs)) \<and> sum_list (map f (filter P rs)) \<le> sum_list (map f rs)"
  using assms by (induction rs) auto

lemma leads_snapshot:
  assumes "log_fits (as_db s)" "rl_window_seconds limits = 60"
  shows "leads (load_rate_limit_snapshot no_faults ident now limits) s (as_db s) (Inr (snapshot_in (as_db s) ident now))"
proof -
  let ?rows = "window_rows (as_db s) ident (as_i64 (sat_sub now 60))"
  have "0 \<le> sum_list (map lg_bytes ?rows)" "sum_list (map lg_bytes ?rows) < 2 ^ 63"
    using assms(1) sum_list_filter_bounds [of "db_request_logs (as_db s)" lg_bytes]
    unfolding log_fits_def window_rows_def by (blast, meson le_less_trans)
  then have "select_volume ident (as_i64 (sat_sub now 60)) (as_db s) = (as_db s,
      Inr (rs_recent_requests (snapshot_in (as_db s) ident now), rs_recent_bytes (snapshot_in (as_db s) ident now)))"
    by (simp add: select_volume_def snapshot_in_def window_rows_def Let_def)
  then show ?thesis
    unfolding load_rate_limit_snapshot_def assms(2)
    by (auto intro!: leads_with_conn leads_seq [OF leads_sqlite] simp: select_score_def)
      (auto simp: leads_def snapshot_in_def score_in_def Let_def)
qed

definition logged :: "log_row \<Rightarrow> string \<Rightarrow> RequestOutcome \<Rightarrow> database \<Rightarrow> database" where
  "logged r ident outcome d =
    d\<lparr>db_request_logs := db_request_logs d @ [r],
      db_identity_reputation := (db_identity_reputation d)(ident \<mapsto> next_score outcome (score_in d ident))\<rparr>"

lemma leads_log:
  assumes "length (db_request_logs (as_db s)) < 2 ^ 63 - 1"
  shows "leads (seq_res (record_request_log no_faults now ident ip slot_id bytes kind outcome)
      (\<lambda>_. update_reputation no_faults ident outcome)) s
    (logged (request_row now ident ip slot_id bytes kind outcome) ident outcome (as_db s)) (Inr ())"
proof (rule leads_seq)
  let ?row = "request_row now ident ip slot_id bytes kind outcome"
  let ?d = "(as_db s)\<lparr>db_request_logs := db_request_logs (as_db s) @ [?row]\<rparr>"
  show "leads (record_request_log no_faults now ident ip slot_id bytes kind outcome) s ?d (Inr ())"
    using assms unfolding record_request_log_def
    by (intro leads_with_conn leads_sqlite) (simp add: insert_log_def)
  fix t :: AppState
  assume "as_db t = ?d" "as_limits t = as_limits s"
  then show "leads (update_reputation no_faults ident outcome) t (logged ?row ident outcome (as_db s)) (Inr ())"
    unfolding update_reputation_def
    by (intro leads_with_conn leads_seq [OF leads_sqlite] leads_sqlite)
      (auto simp: select_score_def upsert_score_def logged_def score_in_def)
qed

definition room :: "database \<Rightarrow> bool" where
  "room d \<longleftrightarrow> log_fits d \<and> length (db_request_logs d) < 2 ^ 63 - 1"

lemma leads_refused:
  assumes "room (as_db s)" "rl_window_seconds limits = 60"
    and "\<And>t. as_limits t = as_limits s \<Longrightarrow> result (snapshot_in (as_db s) ident now) t = Inl e"
  shows "leads (seq_res (load_rate_limit_snapshot no_faults ident now limits) (\<lambda>snapshot s.
      settle no_faults now ident ip slot_id len kind store (result snapshot s) s)) s
    (logged (request_row now ident ip slot_id len kind Rejected) ident Rejected (as_db s)) (Inl e)"
proof (rule leads_seq [OF leads_snapshot])
  fix t :: AppState
  assume t: "as_db t = as_db s" "as_limits t = as_limits s"
  then have "length (db_request_logs (as_db t)) < 2 ^ 63 - 1" using assms(1) by (simp add: room_def)
  note log = leads_log [OF this, of now ident ip slot_id len kind Rejected]
  show "leads (\<lambda>s'. settle no_faults now ident ip slot_id len kind store (result (snapshot_in (as_db s) ident now) s') s') t
    (logged (request_row now ident ip slot_id len kind Rejected) ident Rejected (as_db s)) (Inl e)"
    using log assms(3) [OF t(2)] t
    by (auto simp: leads_def settle_def seq_res_assoc [symmetric] seq_res_def split: prod.splits)
qed (use assms in \<open>simp_all add: room_def\<close>)

lemma leads_accepted:
  assumes "room (as_db s)" "rl_window_seconds limits = 60"
    and "\<And>t. as_limits t = as_limits s \<Longrightarrow> result (snapshot_in (as_db s) ident now) t = Inr a"
    and "\<And>t. as_db t = as_db s \<Longrightarrow> leads (store a) t d (Inr ())" and "db_request_logs d = db_request_logs (as_db s)"
  shows "leads (seq_res (load_rate_limit_snapshot no_faults ident now limits) (\<lambda>snapshot s.
      settle no_faults now ident ip slot_id len kind store (result snapshot s) s)) s
    (logged (request_row now ident ip slot_id len kind Accepted) ident Accepted d) (Inr ())"
proof (rule leads_seq [OF leads_snapshot])
  fix t :: AppState
  assume t: "as_db t = as_db s" "as_limits t = as_limits s"
  have "leads (seq_res (store a) (\<lambda>_. seq_res (record_request_log no_faults now ident ip slot_id len kind Accepted)
      (\<lambda>_. update_reputation no_faults ident Accepted))) t
    (logged (request_row now ident ip slot_id len kind Accepted) ident Accepted d) (Inr ())"
  proof (rule leads_seq [OF assms(4) [OF t(1)]])
    fix u :: AppState
    assume "as_db u = d" "as_limits u = as_limits t"
    then have "length (db_request_logs (as_db u)) < 2 ^ 63 - 1" using assms(1,5) by (simp add: room_def)
    from leads_log [OF this, of now ident ip slot_id len kind Accepted] \<open>as_db u = d\<close>
    show "leads (seq_res (record_request_log no_faults now ident ip slot_id len kind Accepted)
        (\<lambda>_. update_reputation no_faults ident Accepted)) u
      (logged (request_row now ident ip slot_id len kind Accepted) ident Accepted d) (Inr ())" by simp
  qed
  then show "leads (\<lambda>s'. settle no_faults now ident ip slot_id len kind store (result (snapshot_in (as_db s) ident now) s') s') t
    (logged (request_row now ident ip slot_id len kind Accepted) ident Accepted d) (Inr ())"
    using assms(3) [OF t(2)] by (simp add: leads_def settle_def)
qed (use assms in \<open>simp_all add: room_def\<close>)

section \<open>Who spends a quota\<close>

lemma as_i64_uint: "uint w < 2 ^ 63 \<Longrightarrow> as_i64 w = uint w"
proof -
  assume "uint w < 2 ^ 63"
  moreover have "- (2 ^ 63) \<le> uint w" by (rule order_trans [OF _ uint_ge_0]) simp
  ultimately have "signed_take_bit 63 (uint w) = uint w" by (simp only: signed_take_bit_int_eq_self)
  then show ?thesis by (simp add: as_i64_def sint_uint)
qed

lemma as_i64_small: "unat w < 2 ^ 63 \<Longrightarrow> as_i64 w = int (unat w)"
  using as_i64_uint [of w] by (simp only: uint_nat of_nat_less_numeral_power_cancel_iff)

lemma as_i64_mono: "unat v \<le> unat w \<Longrightarrow> unat w < 2 ^ 63 \<Longrightarrow> as_i64 v \<le> as_i64 w"
  by (simp only: as_i64_small order_le_less_trans zle_int)

lemma unat_i64_as_u64: "0 \<le> i \<Longrightarrow> i < 2 ^ 63 \<Longrightarrow> unat (i64_as_u64 i) = nat i"
  by (simp add: i64_as_u64_def unat_eq_nat_uint uint_word_of_int)

lemma usize_as_i64_small: "n < 2 ^ 63 \<Longrightarrow> usize_as_i64 n = int n"
  using as_i64_small [of "word_of_nat n"] by (simp add: usize_as_i64_def as_i64_def unat_of_nat)

lemma put_card_logs:
  assumes "room (as_db s)" "as_limits s = RateLimitConfig_default"
    and "cx_unb64 k (sq_data p) = Inr data" "identity_from_grant k (sq_grant p) = Inr ident"
  shows "\<exists>outcome d r. leads (put_card x k no_faults clock addr h p) s d r \<and>
    db_request_logs d = db_request_logs (as_db s) @ [request_row (fst clock) ident (extract_ip addr) None (length data) Card outcome]"
proof -
  let ?result = "\<lambda>snapshot s. bind_res (enforce_rate_limits snapshot (as_limits s) (length data)) (\<lambda>_.
      bind_res (validate_grant_and_puzzle x k (snd clock) (sq_grant p) (sq_puzzle p)
        (required_pow_params snapshot (as_limits s)) True) (\<lambda>_. validate_hash x k h data))"
  let ?m = "seq_res (load_rate_limit_snapshot no_faults ident (fst clock) (as_limits s)) (\<lambda>snapshot s.
      settle no_faults (fst clock) ident (extract_ip addr) None (length data) Card
        (\<lambda>_. store_entry no_faults upsert_card h data) (?result snapshot s) s)"
  have m: "leads (put_card x k no_faults clock addr h p) s d r \<longleftrightarrow> leads ?m s d r" for d r
    using assms(3,4) by (simp add: put_card_def leads_def bridge_decode_base64_def)
  have store: "leads (store_entry no_faults upsert_card h data) t (fst (upsert_card h data (as_db s))) (Inr ())"
    if "as_db t = as_db s" for t
    using that unfolding store_entry_def by (intro leads_with_conn leads_sqlite) (simp add: upsert_card_def)
  show ?thesis
  proof (cases "?result (snapshot_in (as_db s) ident (fst clock)) s")
    case (Inl e)
    have "leads ?m s (logged (request_row (fst clock) ident (extract_ip addr) None (length data) Card Rejected) ident
        Rejected (as_db s)) (Inl e)"
      by (rule leads_refused) (use assms(1,2) Inl in \<open>simp_all add: RateLimitConfig_default_def\<close>)
    then show ?thesis unfolding m by (intro exI conjI) (assumption, simp add: logged_def)
  next
    case (Inr a)
    have "leads ?m s (logged (request_row (fst clock) ident (extract_ip addr) None (length data) Card Accepted) ident
        Accepted (fst (upsert_card h data (as_db s)))) (Inr ())"
      by (rule leads_accepted [where a = a])
        (use assms(1,2) Inr store in \<open>simp_all add: RateLimitConfig_default_def upsert_card_def\<close>)
    then show ?thesis unfolding m by (intro exI conjI) (assumption, simp add: logged_def upsert_card_def)
  qed
qed

fun serve_cards ::
    "crypto \<Rightarrow> codec \<Rightarrow> u64 \<times> u64 \<Rightarrow> (IpAddr option \<times> string \<times> StorageRequest) list \<Rightarrow> AppState \<Rightarrow> AppState" where
  "serve_cards x k clock [] s = s"
| "serve_cards x k clock ((addr, h, p) # ps) s =
    serve_cards x k clock ps (fst (put_card x k no_faults clock addr h p s))"

lemma serve_cards_logs:
  assumes "log_fits (as_db s)" "length (db_request_logs (as_db s)) + length ps < 2 ^ 63"
    and "as_limits s = RateLimitConfig_default"
    and "\<forall>(addr, h, p) \<in> set ps. cx_unb64 k (sq_data p) = Inr [] \<and> identity_from_grant k (sq_grant p) = Inr ident"
  shows "\<exists>rows. db_request_logs (as_db (serve_cards x k clock ps s)) = db_request_logs (as_db s) @ rows \<and>
    length rows = length ps \<and> as_limits (serve_cards x k clock ps s) = RateLimitConfig_default \<and>
    (\<forall>r \<in> set rows. lg_identity r = ident \<and> lg_timestamp r = as_i64 (fst clock) \<and> lg_bytes r = 0)"
  using assms
proof (induction ps arbitrary: s)
  case (Cons q ps)
  obtain addr h p where q: "q = (addr, h, p)" by (cases q) auto
  have "room (as_db s)" using Cons.prems(1,2) by (simp add: room_def)
  then obtain outcome d r where d: "leads (put_card x k no_faults clock addr h p) s d r"
    "db_request_logs d = db_request_logs (as_db s) @ [request_row (fst clock) ident (extract_ip addr) None 0 Card outcome]"
    using put_card_logs [of s k p "[]" ident x clock addr h] Cons.prems(3,4) q by auto
  let ?s = "fst (put_card x k no_faults clock addr h p s)"
  have s: "as_db ?s = d" "as_limits ?s = RateLimitConfig_default" using d(1) Cons.prems(3) by (simp_all add: leads_def)
  have zero: "usize_as_i64 0 = 0" by (simp add: usize_as_i64_small)
  then have "log_fits (as_db ?s)" using Cons.prems(1) d(2) s(1) by (simp add: log_fits_def request_row_def)
  moreover have "length (db_request_logs (as_db ?s)) + length ps < 2 ^ 63" using Cons.prems(2) d(2) s(1) by simp
  ultimately obtain rows where "db_request_logs (as_db (serve_cards x k clock ps ?s)) = db_request_logs (as_db ?s) @ rows"
    "length rows = length ps" "as_limits (serve_cards x k clock ps ?s) = RateLimitConfig_default"
    "\<forall>r \<in> set rows. lg_identity r = ident \<and> lg_timestamp r = as_i64 (fst clock) \<and> lg_bytes r = 0"
    using Cons.IH [of ?s] s(2) Cons.prems(4) by auto
  then show ?case
    using d(2) s(1) q zero
    by (intro exI [of _ "request_row (fst clock) ident (extract_ip addr) None 0 Card outcome # rows"])
      (auto simp: request_row_def)
qed simp

lemma refused_when_spent:
  assumes "room (as_db s)" "as_limits s = RateLimitConfig_default"
    and "120 \<le> length (window_rows (as_db s) ident (as_i64 (sat_sub (fst clock) 60)))"
    and "cx_unb64 k (iq_data p) = Inr data" "length data \<le> MAX_INBOX_ITEM_BYTES"
    and "identity_from_grant k (iq_grant p) = Inr ident"
  shows "snd (put_inbox x k no_faults clock addr i p s) = Inl RateLimited"
proof -
  let ?n = "length (window_rows (as_db s) ident (as_i64 (sat_sub (fst clock) 60)))"
  let ?sn = "snapshot_in (as_db s) ident (fst clock)"
  have "?n \<le> length (db_request_logs (as_db s))" by (simp add: window_rows_def)
  with assms(1) have n: "?n + 1 < 2 ^ 63" unfolding room_def by linarith
  have "unat (rs_recent_requests ?sn) = ?n" using n by (simp add: snapshot_in_def unat_i64_as_u64 Let_def)
  then have "unat (rs_recent_requests ?sn + 1) = ?n + 1" using n by (simp add: unat_word_ariths)
  then have limited: "enforce_rate_limits ?sn RateLimitConfig_default len = Inl RateLimited" for len
    using assms(3) by (simp add: enforce_rate_limits_def RateLimitConfig_default_def word_less_nat_alt)
  have size: "validate_inbox_item_size (length data) = Inr ()" using assms(5) by (simp add: validate_inbox_item_size_def)
  have "leads (seq_res (load_rate_limit_snapshot no_faults ident (fst clock) (as_limits s)) (\<lambda>snapshot s.
      settle no_faults (fst clock) ident (extract_ip addr) None (length data) InboxKind
        (store_inbox_item no_faults i data)
        (bind_res (validate_inbox_item_size (length data)) (\<lambda>_.
          bind_res (enforce_rate_limits snapshot (as_limits s) (length data)) (\<lambda>_.
          bind_res (validate_grant_and_puzzle x k (snd clock) (iq_grant p) (iq_puzzle p)
            (required_pow_params snapshot (as_limits s)) True) (\<lambda>_.
          compute_inbox_expiration (fst clock) (iq_ttl_seconds p))))) s)) s
      (logged (request_row (fst clock) ident (extract_ip addr) None (length data) InboxKind Rejected) ident Rejected (as_db s))
      (Inl RateLimited)"
    by (rule leads_refused) (use assms(1,2) limited size in \<open>simp_all add: RateLimitConfig_default_def\<close>)
  then show ?thesis
    using assms(4,6) by (simp add: put_inbox_def leads_def bridge_decode_base64_def)
qed

text \<open>C37. The quota of an identity can be spent by anyone: after 120 card requests that merely name the
  identity in their grant, whatever their signatures and puzzles, every inbox request of that identity in the
  following 60 seconds is refused as rate limited.\<close>

theorem quota_spent_by_others:
  assumes "log_fits (as_db s)" "length (db_request_logs (as_db s)) + length ps < 2 ^ 63 - 1"
    and "as_limits s = RateLimitConfig_default" "120 \<le> length ps"
    and "\<forall>(addr, h, p) \<in> set ps. cx_unb64 k (sq_data p) = Inr [] \<and> identity_from_grant k (sq_grant p) = Inr ident"
    and "unat (fst clock) \<le> unat (fst clock')" "unat (fst clock') \<le> unat (fst clock) + 60" "unat (fst clock') < 2 ^ 63"
    and "cx_unb64 k (iq_data p) = Inr data" "length data \<le> MAX_INBOX_ITEM_BYTES"
    and "identity_from_grant k (iq_grant p) = Inr ident"
  shows "snd (put_inbox x k no_faults clock' addr i p (serve_cards x k clock ps s)) = Inl RateLimited"
proof -
  let ?s = "serve_cards x k clock ps s"
  have len: "length (db_request_logs (as_db s)) + length ps < 2 ^ 63" using assms(2) by linarith
  obtain rows where rows: "db_request_logs (as_db ?s) = db_request_logs (as_db s) @ rows" "length rows = length ps"
    "as_limits ?s = RateLimitConfig_default"
    "\<forall>r \<in> set rows. lg_identity r = ident \<and> lg_timestamp r = as_i64 (fst clock) \<and> lg_bytes r = 0"
    using serve_cards_logs [OF assms(1) len assms(3,5)] by blast
  have zero: "\<forall>r \<in> set rows. lg_bytes r = 0" using rows(4) by blast
  then have "sum_list (map lg_bytes rows) = 0" by (simp cong: map_cong)
  then have "log_fits (as_db ?s)" using assms(1) rows(1,4) by (auto simp: log_fits_def)
  then have "room (as_db ?s)" using assms(2) rows(1,2) unfolding room_def by simp
  moreover have "as_i64 (sat_sub (fst clock') 60) \<le> as_i64 (fst clock)"
    using assms(6-8) by (intro as_i64_mono) (simp_all add: unat_sat_sub)
  then have "filter (\<lambda>r. lg_identity r = ident \<and> as_i64 (sat_sub (fst clock') 60) \<le> lg_timestamp r) rows = rows"
    using rows(4) by (simp add: filter_id_conv)
  then have "120 \<le> length (window_rows (as_db ?s) ident (as_i64 (sat_sub (fst clock') 60)))"
    using rows(1,2) assms(4) by (simp add: window_rows_def)
  ultimately show ?thesis by (rule refused_when_spent [OF _ rows(3) _ assms(9-11)])
qed

section \<open>Accepted inbox requests\<close>

definition inbox_stored :: "string \<Rightarrow> bytes \<Rightarrow> u64 \<Rightarrow> database \<Rightarrow> database" where
  "inbox_stored i item e d = fst (insert_inbox_item i item (as_i64 e) (fst (insert_inbox_key i d)))"

lemma leads_store_inbox_item:
  assumes "db_inbox_seq (as_db s) < 2 ^ 63 - 1"
  shows "leads (store_inbox_item no_faults i item e) s (inbox_stored i item e (as_db s)) (Inr ())"
  unfolding store_inbox_item_def
proof (rule leads_with_conn)
  fix t :: AppState
  assume t: "as_db t = as_db s"
  show "leads (seq_res (sqlite no_faults (insert_inbox_key i)) (\<lambda>_. sqlite no_faults (insert_inbox_item i item (as_i64 e)))) t
    (inbox_stored i item e (as_db s)) (Inr ())"
  proof (rule leads_seq [OF leads_sqlite])
    show "insert_inbox_key i (as_db t) = (fst (insert_inbox_key i (as_db t)), Inr ())" by (simp add: insert_inbox_key_def)
    fix u :: AppState
    assume "as_db u = fst (insert_inbox_key i (as_db t))"
    then show "leads (sqlite no_faults (insert_inbox_item i item (as_i64 e))) u (inbox_stored i item e (as_db s)) (Inr ())"
      using t assms by (intro leads_sqlite) (simp add: inbox_stored_def insert_inbox_item_def insert_inbox_key_def)
  qed
qed

lemma put_inbox_accepted:
  assumes "room (as_db s)" "as_limits s = RateLimitConfig_default" "db_inbox_seq (as_db s) < 2 ^ 63 - 1"
    and "cx_unb64 k (iq_data p) = Inr data" "length data \<le> MAX_INBOX_ITEM_BYTES"
    and "identity_from_grant k (iq_grant p) = Inr ident"
    and "enforce_rate_limits (snapshot_in (as_db s) ident (fst clock)) RateLimitConfig_default (length data) = Inr ()"
    and "validate_grant x k (snd clock) (iq_grant p) = Inr ()"
    and "validate_puzzle x k (iq_puzzle p)
      (required_pow_params (snapshot_in (as_db s) ident (fst clock)) RateLimitConfig_default) = Inr ()"
    and "compute_inbox_expiration (fst clock) (iq_ttl_seconds p) = Inr e"
  shows "leads (put_inbox x k no_faults clock addr i p) s
    (logged (request_row (fst clock) ident (extract_ip addr) None (length data) InboxKind Accepted) ident Accepted
      (inbox_stored i data e (as_db s))) (Inr ())"
proof -
  have size: "validate_inbox_item_size (length data) = Inr ()" using assms(5) by (simp add: validate_inbox_item_size_def)
  have "leads (seq_res (load_rate_limit_snapshot no_faults ident (fst clock) (as_limits s)) (\<lambda>snapshot s.
      settle no_faults (fst clock) ident (extract_ip addr) None (length data) InboxKind
        (store_inbox_item no_faults i data)
        (bind_res (validate_inbox_item_size (length data)) (\<lambda>_.
          bind_res (enforce_rate_limits snapshot (as_limits s) (length data)) (\<lambda>_.
          bind_res (validate_grant_and_puzzle x k (snd clock) (iq_grant p) (iq_puzzle p)
            (required_pow_params snapshot (as_limits s)) True) (\<lambda>_.
          compute_inbox_expiration (fst clock) (iq_ttl_seconds p))))) s)) s
    (logged (request_row (fst clock) ident (extract_ip addr) None (length data) InboxKind Accepted) ident Accepted
      (inbox_stored i data e (as_db s))) (Inr ())"
  proof (rule leads_accepted [where a = e])
    show "rl_window_seconds (as_limits s) = 60" using assms(2) by (simp add: RateLimitConfig_default_def)
    show "leads (store_inbox_item no_faults i data e) t (inbox_stored i data e (as_db s)) (Inr ())"
      if "as_db t = as_db s" for t
      using leads_store_inbox_item [of t i data e] assms(3) that by simp
    show "db_request_logs (inbox_stored i data e (as_db s)) = db_request_logs (as_db s)"
      by (simp add: inbox_stored_def insert_inbox_item_def insert_inbox_key_def)
  qed (use assms size in \<open>simp_all add: validate_grant_and_puzzle_def\<close>)
  then show ?thesis using assms(4,6) by (simp add: put_inbox_def leads_def bridge_decode_base64_def)
qed

text \<open>An identity without requests in the last minute pays the base price.\<close>

lemma idle_identity:
  assumes "window_rows d ident (as_i64 (sat_sub now 60)) = []"
  shows "len \<le> 1048576 \<Longrightarrow> enforce_rate_limits (snapshot_in d ident now) RateLimitConfig_default len = Inr ()"
    and "required_pow_params (snapshot_in d ident now) RateLimitConfig_default = pow_minimum"
proof -
  assume len: "len \<le> 1048576"
  then have "unat (word_of_nat len :: u64) = len" by (simp add: unat_of_nat)
  then show "enforce_rate_limits (snapshot_in d ident now) RateLimitConfig_default len = Inr ()"
    using assms len by (simp add: enforce_rate_limits_def snapshot_in_def RateLimitConfig_default_def i64_as_u64_def
        word_less_nat_alt)
next
  show "required_pow_params (snapshot_in d ident now) RateLimitConfig_default = pow_minimum"
    using assms by (simp add: required_pow_params_def snapshot_in_def RateLimitConfig_default_def i64_as_u64_def
        pow_minimum_def sat_sub_def sat_add_def sat_mul_def Let_def)
qed

section \<open>Witnesses\<close>

lemma fresh_bridge_tables [simp]:
  "db_request_logs (as_db fresh_bridge) = []" "db_inbox_items (as_db fresh_bridge) = []"
  "db_inbox_seq (as_db fresh_bridge) = 0" "db_inbox_keys (as_db fresh_bridge) = []" "as_limits fresh_bridge = RateLimitConfig_default"
  by (simp_all add: fresh_bridge_def init_db_def seq_res_def sqlite_def Let_def create_table_def
      ensure_inbox_items_expiration_column_def inbox_items_has_expires_column_def empty_db_def)

definition sample_item :: InboxStoreRequest where
  "sample_item = \<lparr>iq_data = ''spex'', iq_grant = sample_grant, iq_puzzle = sample_puzzle, iq_ttl_seconds = None\<rparr>"

lemma sample_item_accepted:
  "\<exists>row ident. leads (put_inbox toy_crypto toy_codec no_faults (4, 5) None ''i'' sample_item) fresh_bridge
    (logged row ident Accepted (inbox_stored ''i'' (str_bytes ''spex'') 86404 (as_db fresh_bridge))) (Inr ())"
proof -
  have "identity_from_grant toy_codec sample_grant = Inr (bytes_str [1])"
    by (simp add: identity_from_grant_def bridge_decode_base64_def toy_codec_def sample_grant_def)
  moreover have "window_rows (as_db fresh_bridge) i w = []" for i w by (simp add: window_rows_def)
  moreover have "compute_inbox_expiration 4 None = Inr 86404"
    by (simp add: compute_inbox_expiration_def DEFAULT_INBOX_TTL_SECONDS_def MAX_INBOX_TTL_SECONDS_def checked_add_def)
  moreover have "room (as_db fresh_bridge)" by (simp add: room_def log_fits_def)
  moreover have "cx_unb64 toy_codec ''spex'' = Inr (str_bytes ''spex'')" by (simp add: toy_codec_def)
  ultimately show ?thesis
    using put_inbox_accepted [of fresh_bridge toy_codec sample_item "str_bytes ''spex''" "bytes_str [1]" "(4, 5)"
        toy_crypto 86404 None "''i''"] sample_grant_valid [of 5] sample_puzzle_valid
    by (auto simp: idle_identity sample_item_def MAX_INBOX_ITEM_BYTES_def)
qed

theorem stored_content_authorised_witness:
  "\<exists>b. x_verify_strict toy_crypto (replicate 32 7) (x_sha256 toy_crypto b)
      (replicate 32 7 @ [0xa3, 0x00, 0x41, 0x01, 0x01, 0x02, 0x03, 0x09] @ replicate 24 0)"
proof -
  have "contents (as_db (fst (app toy_crypto toy_codec no_faults (4, 5) None (PutInbox ''i'' sample_item) fresh_bridge))) \<noteq>
      contents (as_db fresh_bridge)"
    using sample_item_accepted
    by (auto simp: leads_def contents_def logged_def inbox_stored_def insert_inbox_item_def insert_inbox_key_def)
  from stored_content_authorised [OF toy_crypto_laws(3) fresh_bridge_reachable this]
  show ?thesis by (auto simp: sample_item_def sample_grant_def toy_codec_def)
qed

theorem quota_spent_by_others_witness:
  "snd (put_inbox toy_crypto toy_codec no_faults (50, 50) None ''i'' sample_item
     (serve_cards toy_crypto toy_codec (4, 4)
       (replicate 120 (None, ''h'', \<lparr>sq_data = '''', sq_grant = sample_grant\<lparr>gp_signature := ''forged''\<rparr>,
          sq_puzzle = sample_puzzle\<rparr>)) fresh_bridge)) = Inl RateLimited"
  by (rule quota_spent_by_others [where ident = "bytes_str [1]" and data = "str_bytes ''spex''"])
    (simp_all add: log_fits_def identity_from_grant_def bridge_decode_base64_def toy_codec_def sample_grant_def
      sample_item_def MAX_INBOX_ITEM_BYTES_def)

end
