(* ===== verification/Bridge_Tasks.thy ===== *)
theory Bridge_Tasks
  imports Bridge
begin

text \<open>
  The handlers of \<open>spex-bridge/src/lib.rs\<close> as they run beside each other: each SQL statement, and each taking and
  returning of a pooled connection, is a step, and between two steps of a handler the server may run steps of others.
  No handler holds a transaction or a lock across its statements.

  A handler that runs without the others is the handler of \<open>Bridge\<close>, which the \<open>run_\<close> lemmas show.
\<close>

section \<open>Tasks\<close>

datatype 'a task = Return 'a | Step "AppState \<Rightarrow> AppState \<times> 'a task"

primrec run_task :: "'a task \<Rightarrow> AppState \<Rightarrow> AppState \<times> 'a" where
  "run_task (Return a) = (\<lambda>s. (s, a))"
| "run_task (Step g) = (\<lambda>s. case (map_prod id run_task \<circ> g) s of (s', rest) \<Rightarrow> rest s')"

primrec bind_task :: "'a task \<Rightarrow> ('a \<Rightarrow> 'b task) \<Rightarrow> 'b task" where
  "bind_task (Return a) = (\<lambda>f. f a)"
| "bind_task (Step g) = (\<lambda>f. Step (\<lambda>s. apsnd (\<lambda>rest. rest f) ((map_prod id bind_task \<circ> g) s)))"

definition atomic :: "(AppState \<Rightarrow> AppState \<times> 'a) \<Rightarrow> 'a task" where
  "atomic m = Step (\<lambda>s. apsnd Return (m s))"

definition seq_task :: "('e + 'a) task \<Rightarrow> ('a \<Rightarrow> ('e + 'b) task) \<Rightarrow> ('e + 'b) task" where
  "seq_task m f = bind_task m (\<lambda>r. case r of Inl e \<Rightarrow> Return (Inl e) | Inr a \<Rightarrow> f a)"

definition sqlite_task :: "sqlite_faults \<Rightarrow> (database \<Rightarrow> database \<times> (string + 'a)) \<Rightarrow> (string + 'a) task" where
  "sqlite_task flt statement = atomic (sqlite flt statement)"

definition with_conn_task :: "sqlite_faults \<Rightarrow> (string + 'a) task \<Rightarrow> (BridgeError + 'a) task" where
  "with_conn_task flt body =
    bind_task (seq_task (atomic (DbPool_get flt)) (\<lambda>_.
      bind_task body (\<lambda>r. bind_task (atomic (\<lambda>s. (DbPool_put s, ()))) (\<lambda>_. Return r)))) (\<lambda>r. Return (map_err Storage r))"

lemma run_step [simp]: "run_task (Step g) s = run_task (snd (g s)) (fst (g s))"
  by (simp add: case_prod_beta)

lemma bind_step [simp]: "bind_task (Step g) f = Step (\<lambda>s. apsnd (\<lambda>t. bind_task t f) (g s))"
  by (simp add: fun_eq_iff apsnd_def prod.map_comp comp_def id_def)

lemma run_bind [simp]: "run_task (bind_task m f) s = (case run_task m s of (s', a) \<Rightarrow> run_task (f a) s')"
proof (induction m arbitrary: s)
  case (Step g)
  have "snd (g s) \<in> Basic_BNFs.snds (g s)" by (cases "g s") (simp add: snds.intros)
  from Step [OF rangeI this] show ?case by (simp del: run_task.simps bind_task.simps)
qed simp

lemma bind_assoc: "bind_task (bind_task m f) g = bind_task m (\<lambda>a. bind_task (f a) g)"
proof (induction m)
  case (Step h)
  have "bind_task (bind_task (snd (h s)) f) g = bind_task (snd (h s)) (\<lambda>a. bind_task (f a) g)" for s
  proof -
    have "snd (h s) \<in> Basic_BNFs.snds (h s)" by (cases "h s") (simp add: snds.intros)
    from Step [OF rangeI this] show ?thesis .
  qed
  then show ?case by (simp add: apsnd_def map_prod_def case_prod_beta del: bind_task.simps)
qed simp

lemma run_atomic [simp]: "run_task (atomic m) = m"
  by (simp add: atomic_def fun_eq_iff del: run_task.simps) (simp add: apsnd_def map_prod_def case_prod_beta)

lemma run_seq: "run_task (seq_task m f) = seq_res (run_task m) (\<lambda>a. run_task (f a))"
  by (simp add: seq_task_def seq_res_def fun_eq_iff split: prod.split sum.split)

lemma run_with_conn: "run_task (with_conn_task flt body) = with_conn flt (run_task body)"
  by (simp add: with_conn_task_def with_conn_def run_seq seq_res_def fun_eq_iff split: prod.split sum.split)

lemma run_sqlite [simp]: "run_task (sqlite_task flt statement) = sqlite flt statement"
  by (simp add: sqlite_task_def)

section \<open>Storage\<close>

definition store_entry_task ::
    "sqlite_faults \<Rightarrow> (string \<Rightarrow> bytes \<Rightarrow> database \<Rightarrow> database \<times> (string + unit)) \<Rightarrow> string \<Rightarrow> bytes \<Rightarrow> (BridgeError + unit) task" where
  "store_entry_task flt upsert key data = with_conn_task flt (sqlite_task flt (upsert key data))"

definition load_entry_task ::
    "sqlite_faults \<Rightarrow> (database \<Rightarrow> string \<Rightarrow> bytes option) \<Rightarrow> string \<Rightarrow> (BridgeError + bytes option) task" where
  "load_entry_task flt table key = with_conn_task flt (sqlite_task flt (\<lambda>d. (d, Inr (table d key))))"

definition load_rate_limit_snapshot_task ::
    "sqlite_faults \<Rightarrow> string \<Rightarrow> u64 \<Rightarrow> RateLimitConfig \<Rightarrow> (BridgeError + RateLimitSnapshot) task" where
  "load_rate_limit_snapshot_task flt ident now limits = with_conn_task flt
    (seq_task (sqlite_task flt (select_volume ident (as_i64 (sat_sub now (rl_window_seconds limits))))) (\<lambda>(count, bytes).
     seq_task (sqlite_task flt (select_score ident)) (\<lambda>reputation.
       Return (Inr \<lparr>rs_recent_requests = count, rs_recent_bytes = bytes, rs_reputation_score = reputation\<rparr>))))"

definition record_request_log_task ::
    "sqlite_faults \<Rightarrow> u64 \<Rightarrow> string \<Rightarrow> string \<Rightarrow> string option \<Rightarrow> nat \<Rightarrow> RequestKind \<Rightarrow> RequestOutcome \<Rightarrow> (BridgeError + unit) task" where
  "record_request_log_task flt timestamp ident ip slot_id bytes kind outcome = with_conn_task flt
    (sqlite_task flt (insert_log (request_row timestamp ident ip slot_id bytes kind outcome)))"

definition update_reputation_task :: "sqlite_faults \<Rightarrow> string \<Rightarrow> RequestOutcome \<Rightarrow> (BridgeError + unit) task" where
  "update_reputation_task flt ident outcome = with_conn_task flt
    (seq_task (sqlite_task flt (select_score ident)) (\<lambda>current.
     sqlite_task flt (upsert_score ident (next_score outcome current))))"

definition store_inbox_item_task :: "sqlite_faults \<Rightarrow> string \<Rightarrow> bytes \<Rightarrow> u64 \<Rightarrow> (BridgeError + unit) task" where
  "store_inbox_item_task flt inbox_key item expires_at = with_conn_task flt
    (seq_task (sqlite_task flt (insert_inbox_key inbox_key)) (\<lambda>_.
     sqlite_task flt (insert_inbox_item inbox_key item (as_i64 expires_at))))"

definition load_inbox_items_task ::
    "sqlite_faults \<Rightarrow> string \<Rightarrow> u64 \<Rightarrow> int option \<Rightarrow> nat \<Rightarrow> nat \<Rightarrow> (BridgeError + InboxPage option) task" where
  "load_inbox_items_task flt inbox_key now cursor limit max_bytes = with_conn_task flt
    (seq_task (sqlite_task flt (\<lambda>d. (d, Inr (inbox_key \<in> set (db_inbox_keys d))))) (\<lambda>exists.
       if \<not> exists then Return (Inr None)
       else seq_task (sqlite_task flt (select_items inbox_key (as_i64 now) (case cursor of Some c \<Rightarrow> c | None \<Rightarrow> 0) (limit + 1)))
         (\<lambda>rows. Return (Inr (Some (inbox_page limit max_bytes rows))))))"

named_theorems task_run

lemma run_storage [task_run]:
  "run_task (store_entry_task flt upsert key data) = store_entry flt upsert key data"
  "run_task (load_entry_task flt table key) = load_entry flt table key"
  "run_task (record_request_log_task flt now ident ip slot_id len kind outcome) = record_request_log flt now ident ip slot_id len kind outcome"
  "run_task (update_reputation_task flt ident outcome) = update_reputation flt ident outcome"
  "run_task (store_inbox_item_task flt i item e) = store_inbox_item flt i item e"
  by (simp_all add: store_entry_task_def store_entry_def load_entry_task_def load_entry_def record_request_log_task_def
      record_request_log_def update_reputation_task_def update_reputation_def store_inbox_item_task_def
      store_inbox_item_def run_with_conn run_seq)

lemma run_loads [task_run]:
  "run_task (load_rate_limit_snapshot_task flt ident now limits) = load_rate_limit_snapshot flt ident now limits"
  "run_task (load_inbox_items_task flt i now cursor limit max_bytes) = load_inbox_items flt i now cursor limit max_bytes"
  by (auto simp: load_rate_limit_snapshot_task_def load_rate_limit_snapshot_def load_inbox_items_task_def
      load_inbox_items_def run_with_conn run_seq case_prod_beta fun_eq_iff intro!: arg_cong [of _ _ "\<lambda>b. with_conn flt b _"]
      arg_cong [of _ _ "seq_res _"])

section \<open>Handlers\<close>

definition limits_task :: "RateLimitConfig task" where
  "limits_task = atomic (\<lambda>s. (s, as_limits s))"

definition settle_task ::
    "sqlite_faults \<Rightarrow> u64 \<Rightarrow> string \<Rightarrow> string \<Rightarrow> string option \<Rightarrow> nat \<Rightarrow> RequestKind \<Rightarrow>
      ('a \<Rightarrow> (BridgeError + unit) task) \<Rightarrow> BridgeError + 'a \<Rightarrow> (BridgeError + unit) task" where
  "settle_task flt now ident ip slot_id data_len kind store result =
    (case result of
       Inr a \<Rightarrow>
         seq_task (store a) (\<lambda>_.
         seq_task (record_request_log_task flt now ident ip slot_id data_len kind Accepted) (\<lambda>_.
         update_reputation_task flt ident Accepted))
     | Inl err \<Rightarrow>
         seq_task (record_request_log_task flt now ident ip slot_id data_len kind Rejected) (\<lambda>_.
         seq_task (update_reputation_task flt ident Rejected) (\<lambda>_. Return (Inl err))))"

text \<open>What is between the snapshot and the end of a request: the checks on a blocking thread, which read
  neither tables nor pool.\<close>

definition checked_task ::
    "sqlite_faults \<Rightarrow> u64 \<Rightarrow> string \<Rightarrow> string \<Rightarrow> string option \<Rightarrow> nat \<Rightarrow> RequestKind \<Rightarrow> ('a \<Rightarrow> (BridgeError + unit) task) \<Rightarrow>
      (RateLimitSnapshot \<Rightarrow> RateLimitConfig \<Rightarrow> BridgeError + 'a) \<Rightarrow> (BridgeError + unit) task" where
  "checked_task flt now ident ip slot_id data_len kind store result =
    bind_task limits_task (\<lambda>limits.
    seq_task (load_rate_limit_snapshot_task flt ident now limits) (\<lambda>snapshot.
    bind_task limits_task (\<lambda>limits.
    settle_task flt now ident ip slot_id data_len kind store (result snapshot limits))))"

definition put_card_task ::
    "crypto \<Rightarrow> codec \<Rightarrow> sqlite_faults \<Rightarrow> u64 \<times> u64 \<Rightarrow> IpAddr option \<Rightarrow> string \<Rightarrow> StorageRequest \<Rightarrow> (BridgeError + unit) task" where
  "put_card_task x k flt clock client_addr card_hash payload =
    (case bind_res (bridge_decode_base64 k (sq_data payload)) (\<lambda>data.
          bind_res (identity_from_grant k (sq_grant payload)) (\<lambda>ident. Inr (data, ident))) of
       Inl e \<Rightarrow> Return (Inl e)
     | Inr (data, ident) \<Rightarrow>
         checked_task flt (fst clock) ident (extract_ip client_addr) None (length data) Card
           (\<lambda>_. store_entry_task flt upsert_card card_hash data)
           (\<lambda>snapshot limits. bind_res (enforce_rate_limits snapshot limits (length data)) (\<lambda>_.
             bind_res (validate_grant_and_puzzle x k (snd clock) (sq_grant payload) (sq_puzzle payload)
               (required_pow_params snapshot limits) True) (\<lambda>_.
             validate_hash x k card_hash data))))"

definition put_slot_task ::
    "crypto \<Rightarrow> codec \<Rightarrow> sqlite_faults \<Rightarrow> u64 \<times> u64 \<Rightarrow> IpAddr option \<Rightarrow> string \<Rightarrow> StorageRequest \<Rightarrow> (BridgeError + unit) task" where
  "put_slot_task x k flt clock client_addr slot_id payload =
    (case bridge_decode_base64 k (sq_data payload) of
       Inl e \<Rightarrow> Return (Inl e)
     | Inr data \<Rightarrow>
         let now = fst clock;
             ip = extract_ip client_addr;
             ident = (case identity_from_grant k (sq_grant payload) of Inr i \<Rightarrow> i | Inl _ \<Rightarrow> ''unknown'');
             store = (\<lambda>_. store_entry_task flt upsert_slot slot_id data)
         in case validate_grant x k now (sq_grant payload) of
              Inl err \<Rightarrow> settle_task flt now ident ip (Some slot_id) (length data) Slot store (Inl err)
            | Inr _ \<Rightarrow>
                checked_task flt now ident ip (Some slot_id) (length data) Slot store
                  (\<lambda>snapshot limits. bind_res (enforce_rate_limits snapshot limits (length data)) (\<lambda>_.
                    bind_res (validate_grant_and_puzzle x k (snd clock) (sq_grant payload) (sq_puzzle payload)
                      (required_pow_params snapshot limits) False) (\<lambda>_.
                    validate_hash x k slot_id data))))"

definition put_inbox_task ::
    "crypto \<Rightarrow> codec \<Rightarrow> sqlite_faults \<Rightarrow> u64 \<times> u64 \<Rightarrow> IpAddr option \<Rightarrow> string \<Rightarrow> InboxStoreRequest \<Rightarrow> (BridgeError + unit) task" where
  "put_inbox_task x k flt clock client_addr inbox_key payload =
    (case bind_res (bridge_decode_base64 k (iq_data payload)) (\<lambda>data.
          bind_res (identity_from_grant k (iq_grant payload)) (\<lambda>ident. Inr (data, ident))) of
       Inl e \<Rightarrow> Return (Inl e)
     | Inr (data, ident) \<Rightarrow>
         checked_task flt (fst clock) ident (extract_ip client_addr) None (length data) InboxKind
           (store_inbox_item_task flt inbox_key data)
           (\<lambda>snapshot limits. bind_res (validate_inbox_item_size (length data)) (\<lambda>_.
             bind_res (enforce_rate_limits snapshot limits (length data)) (\<lambda>_.
             bind_res (validate_grant_and_puzzle x k (snd clock) (iq_grant payload) (iq_puzzle payload)
               (required_pow_params snapshot limits) True) (\<lambda>_.
             compute_inbox_expiration (fst clock) (iq_ttl_seconds payload))))))"

definition get_entry_task ::
    "codec \<Rightarrow> sqlite_faults \<Rightarrow> (database \<Rightarrow> string \<Rightarrow> bytes option) \<Rightarrow> string \<Rightarrow> (BridgeError + StoredResponse) task" where
  "get_entry_task k flt table key =
    seq_task (load_entry_task flt table key) (\<lambda>entry.
      Return (map_res (\<lambda>data. \<lparr>sp_data = cx_b64 k data\<rparr>) (ok_or NotFound entry)))"

definition get_inbox_task ::
    "codec \<Rightarrow> sqlite_faults \<Rightarrow> u64 \<Rightarrow> string \<Rightarrow> InboxQuery \<Rightarrow> (BridgeError + InboxResponse) task" where
  "get_inbox_task k flt now inbox_key query =
    bind_task limits_task (\<lambda>limits.
    seq_task (load_inbox_items_task flt inbox_key now (nq_cursor query) (normalize_inbox_limit (nq_limit query))
        (normalize_inbox_max_bytes (nq_max_bytes query) (rl_max_bytes limits))) (\<lambda>page.
      Return (map_res (\<lambda>p. \<lparr>np_items = map (cx_b64 k) (ip_items p), np_next_cursor = ip_next_cursor p\<rparr>)
        (ok_or NotFound page))))"

fun app_task ::
    "crypto \<Rightarrow> codec \<Rightarrow> sqlite_faults \<Rightarrow> u64 \<times> u64 \<Rightarrow> IpAddr option \<Rightarrow> call \<Rightarrow> reply task" where
  "app_task x k flt clock addr (PutCard h p) =
    bind_task (put_card_task x k flt clock addr h p) (\<lambda>r. Return (into_response (\<lambda>_. NoContent) r))"
| "app_task x k flt clock addr (GetCard h) =
    bind_task (get_entry_task k flt db_cards h) (\<lambda>r. Return (into_response StoredReply r))"
| "app_task x k flt clock addr (PutSlot i p) =
    bind_task (put_slot_task x k flt clock addr i p) (\<lambda>r. Return (into_response (\<lambda>_. NoContent) r))"
| "app_task x k flt clock addr (GetSlot i) =
    bind_task (get_entry_task k flt db_slots i) (\<lambda>r. Return (into_response StoredReply r))"
| "app_task x k flt clock addr (PutInbox i p) =
    bind_task (put_inbox_task x k flt clock addr i p) (\<lambda>r. Return (into_response (\<lambda>_. NoContent) r))"
| "app_task x k flt clock addr (GetInbox i q) =
    bind_task (get_inbox_task k flt (fst clock) i q) (\<lambda>r. Return (into_response InboxReply r))"

lemma run_limits [simp]: "run_task limits_task s = (s, as_limits s)"
  by (simp add: limits_task_def)

lemma run_settle [task_run]:
  assumes "\<And>a. run_task (store_t a) = store a"
  shows "run_task (settle_task flt now ident ip slot_id len kind store_t r) = settle flt now ident ip slot_id len kind store r"
  by (simp add: settle_task_def settle_def run_seq run_storage assms fun_eq_iff split: sum.split)

lemma run_checked [task_run]:
  assumes "\<And>a. run_task (store_t a) = store a"
  shows "run_task (checked_task flt now ident ip slot_id len kind store_t result) s =
    seq_res (load_rate_limit_snapshot flt ident now (as_limits s))
      (\<lambda>sn s. settle flt now ident ip slot_id len kind store (result sn (as_limits s)) s) s"
  by (simp add: checked_task_def run_seq run_loads run_settle [OF assms] seq_res_def split: prod.split sum.split)

lemma run_put_card: "run_task (put_card_task x k flt clock addr h p) s = put_card x k flt clock addr h p s"
  by (auto simp: put_card_task_def put_card_def task_run split: sum.split prod.split)

lemma run_put_slot: "run_task (put_slot_task x k flt clock addr h p) s = put_slot x k flt clock addr h p s"
  by (auto simp: put_slot_task_def put_slot_def task_run Let_def split: sum.split prod.split)

lemma run_put_inbox: "run_task (put_inbox_task x k flt clock addr h p) s = put_inbox x k flt clock addr h p s"
  by (auto simp: put_inbox_task_def put_inbox_def task_run split: sum.split prod.split)

lemma run_get: "run_task (get_entry_task k flt db_cards h) s = get_card k flt h s"
  "run_task (get_entry_task k flt db_slots h) s = get_slot k flt h s"
  "run_task (get_inbox_task k flt now h q) s = get_inbox k flt now h q s"
  by (simp_all add: get_entry_task_def get_card_def get_slot_def get_inbox_task_def get_inbox_def run_seq task_run seq_res_def
      split: prod.split sum.split)

text \<open>A request that no other overtakes is answered by \<open>app\<close>.\<close>

lemma run_app: "run_task (app_task x k flt clock addr c) s = app x k flt clock addr c s"
  by (cases c) (simp_all add: run_put_card run_put_slot run_put_inbox run_get apsnd_def map_prod_def case_prod_beta)

end
