(* ===== verification/Bridge_Quota.thy ===== *)
theory Bridge_Quota
  imports Bridge_Safety Bridge_Tasks
begin

text \<open>
  The quota of the bridge as a property of its request log, on a server that interleaves the steps of its handlers.
  The check reads the log before a request is in it, so requests that are under way together do not count for each
  other: with at most \<open>c\<close> of them at a time an identity gets up to \<open>c - 1\<close> requests more than the limit allows.
\<close>

section \<open>Steps and the log\<close>

definition accepted :: "AppState \<Rightarrow> log_row list" where
  "accepted s = filter (\<lambda>r. lg_outcome r = ''accepted'') (db_request_logs (as_db s))"

definition log_sound :: "log_row list \<Rightarrow> bool" where
  "log_sound l \<longleftrightarrow> length l < 2 ^ 63 \<and> (\<forall>r \<in> set l. 0 \<le> lg_timestamp r \<and> 0 \<le> lg_bytes r)"

definition sound :: "AppState \<Rightarrow> bool" where
  "sound s \<longleftrightarrow> as_limits s = RateLimitConfig_default \<and> log_sound (db_request_logs (as_db s))"

text \<open>A task that leaves the accepted requests as they are, whatever happens between its steps.\<close>

inductive quiet :: "'a task \<Rightarrow> bool" where
  ret: "quiet (Return a)"
| step: "(\<And>s. sound s \<Longrightarrow> sound (fst (g s)) \<and> accepted (fst (g s)) = accepted s \<and> quiet (snd (g s))) \<Longrightarrow> quiet (Step g)"

text \<open>A task that may still log the accepted request \<open>r\<close>, once.\<close>

inductive appends :: "log_row \<Rightarrow> 'a task \<Rightarrow> bool" for r where
  quiet: "quiet t \<Longrightarrow> appends r t"
| step: "(\<And>s. sound s \<Longrightarrow> sound (fst (g s)) \<and>
      (accepted (fst (g s)) = accepted s \<and> appends r (snd (g s)) \<or>
       accepted (fst (g s)) = accepted s @ [r] \<and> quiet (snd (g s)))) \<Longrightarrow> appends r (Step g)"

text \<open>A request the limits allow, given the log.\<close>

definition allowed :: "AppState \<Rightarrow> log_row \<Rightarrow> bool" where
  "allowed s r \<longleftrightarrow>
    (let rows = filter (\<lambda>q. lg_identity q = lg_identity r \<and> lg_timestamp r - 60 \<le> lg_timestamp q) (accepted s)
     in 0 \<le> lg_bytes r \<and> length rows < 120 \<and> sum_list (map lg_bytes rows) + lg_bytes r \<le> 1048576)"

text \<open>A task that logs an accepted request only if, at a step of it, the limits allowed that request.\<close>

inductive asks :: "'a task \<Rightarrow> bool" where
  quiet: "quiet t \<Longrightarrow> asks t"
| step: "(\<And>s. sound s \<Longrightarrow> sound (fst (g s)) \<and> accepted (fst (g s)) = accepted s \<and>
      (asks (snd (g s)) \<or> (\<exists>r. allowed s r \<and> appends r (snd (g s))))) \<Longrightarrow> asks (Step g)"

inductive_cases quiet_StepE: "quiet (Step g)"
inductive_cases appends_StepE: "appends r (Step g)"
inductive_cases asks_StepE: "asks (Step g)"

lemma quiet_StepD: "quiet (Step g) \<Longrightarrow> sound s \<Longrightarrow> sound (fst (g s)) \<and> accepted (fst (g s)) = accepted s \<and> quiet (snd (g s))"
  by (blast elim: quiet_StepE)

lemma appends_StepD:
  "appends r (Step g) \<Longrightarrow> sound s \<Longrightarrow> sound (fst (g s)) \<and>
    (accepted (fst (g s)) = accepted s \<and> appends r (snd (g s)) \<or> accepted (fst (g s)) = accepted s @ [r] \<and> quiet (snd (g s)))"
  by (blast elim: appends_StepE dest: quiet_StepD intro: appends.quiet)

lemma asks_StepD:
  "asks (Step g) \<Longrightarrow> sound s \<Longrightarrow> sound (fst (g s)) \<and> accepted (fst (g s)) = accepted s \<and>
    (asks (snd (g s)) \<or> (\<exists>r. allowed s r \<and> appends r (snd (g s))))"
  by (blast elim: asks_StepE dest: quiet_StepD intro: asks.quiet)

section \<open>Composition\<close>

lemma quiet_bind: "quiet m \<Longrightarrow> (\<And>a. quiet (f a)) \<Longrightarrow> quiet (bind_task m f)"
  by (induction rule: quiet.induct) (auto simp del: bind_task.simps(2) intro!: quiet.step)

lemma quiet_appends_bind: "quiet m \<Longrightarrow> (\<And>a. appends r (f a)) \<Longrightarrow> appends r (bind_task m f)"
  by (induction rule: quiet.induct) (auto simp del: bind_task.simps(2) intro!: appends.step)

lemma appends_quiet_bind: "appends r m \<Longrightarrow> (\<And>a. quiet (f a)) \<Longrightarrow> appends r (bind_task m f)"
proof (induction rule: appends.induct)
  case (step g)
  show ?case unfolding bind_step
  proof (rule appends.step)
    fix s :: AppState
    assume "sound s"
    from step(1) [OF this] step.prems show "sound (fst (apsnd (\<lambda>t. bind_task t f) (g s))) \<and>
        (accepted (fst (apsnd (\<lambda>t. bind_task t f) (g s))) = accepted s \<and> appends r (snd (apsnd (\<lambda>t. bind_task t f) (g s))) \<or>
         accepted (fst (apsnd (\<lambda>t. bind_task t f) (g s))) = accepted s @ [r] \<and> quiet (snd (apsnd (\<lambda>t. bind_task t f) (g s))))"
      by (auto intro: quiet_bind)
  qed
qed (blast intro: appends.quiet quiet_bind)

lemma quiet_asks_bind: "quiet m \<Longrightarrow> (\<And>a. asks (f a)) \<Longrightarrow> asks (bind_task m f)"
  by (induction rule: quiet.induct) (auto simp del: bind_task.simps(2) intro!: asks.step)

lemma asks_quiet_bind: "asks m \<Longrightarrow> (\<And>a. quiet (f a)) \<Longrightarrow> asks (bind_task m f)"
proof (induction rule: asks.induct)
  case (step g)
  show ?case unfolding bind_step
  proof (rule asks.step)
    fix s :: AppState
    assume "sound s"
    from step(1) [OF this] step.prems show "sound (fst (apsnd (\<lambda>t. bind_task t f) (g s))) \<and>
        accepted (fst (apsnd (\<lambda>t. bind_task t f) (g s))) = accepted s \<and> (asks (snd (apsnd (\<lambda>t. bind_task t f) (g s))) \<or>
        (\<exists>r. allowed s r \<and> appends r (snd (apsnd (\<lambda>t. bind_task t f) (g s)))))"
      by (auto intro: appends_quiet_bind)
  qed
qed (blast intro: asks.quiet quiet_bind)

lemma quiet_atomic: "(\<And>s. sound s \<Longrightarrow> sound (fst (m s)) \<and> accepted (fst (m s)) = accepted s) \<Longrightarrow> quiet (atomic m)"
  unfolding atomic_def by (auto intro!: quiet.intros)

lemma asks_atomic_bind:
  "(\<And>s. sound s \<Longrightarrow> sound (fst (m s)) \<and> accepted (fst (m s)) = accepted s \<and>
      (asks (f (snd (m s))) \<or> (\<exists>r. allowed s r \<and> appends r (f (snd (m s)))))) \<Longrightarrow> asks (bind_task (atomic m) f)"
  unfolding atomic_def bind_step by (rule asks.step) simp

lemma quiet_sqlite:
  assumes "\<And>d. db_request_logs (fst (statement d)) = db_request_logs d"
  shows "quiet (sqlite_task flt statement)"
  unfolding sqlite_task_def
  by (rule quiet_atomic) (simp add: sqlite_def sound_def accepted_def Let_def assms case_prod_beta split: option.split)

lemma quiet_seq: "quiet m \<Longrightarrow> (\<And>a. quiet (f a)) \<Longrightarrow> quiet (seq_task m f)"
  unfolding seq_task_def by (rule quiet_bind) (auto intro: quiet.ret split: sum.split)

lemma quiet_get: "quiet (atomic (DbPool_get flt))"
  by (rule quiet_atomic)
    (auto simp: DbPool_get_def sqlite_def sound_def accepted_def Let_def split: nat.split option.split)

lemma quiet_put: "quiet (atomic (\<lambda>s. (DbPool_put s, ())))"
  by (rule quiet_atomic) (simp add: DbPool_put_def sound_def accepted_def)

lemma quiet_with_conn: "quiet body \<Longrightarrow> quiet (with_conn_task flt body)"
  unfolding with_conn_task_def by (intro quiet_bind quiet_seq quiet_get quiet_put quiet.ret)

lemma appends_with_conn: "appends r body \<Longrightarrow> appends r (with_conn_task flt body)"
  unfolding with_conn_task_def seq_task_def
  by (intro appends_quiet_bind quiet_appends_bind quiet_get quiet.ret)
    (auto split: sum.split intro: appends.quiet quiet.ret intro!: appends_quiet_bind quiet_bind quiet_put)

lemma quiet_seq_appends: "quiet m \<Longrightarrow> (\<And>a. appends r (f a)) \<Longrightarrow> appends r (seq_task m f)"
  unfolding seq_task_def by (rule quiet_appends_bind) (auto intro: appends.quiet quiet.ret split: sum.split)

lemma appends_seq_quiet: "appends r m \<Longrightarrow> (\<And>a. quiet (f a)) \<Longrightarrow> appends r (seq_task m f)"
  unfolding seq_task_def by (rule appends_quiet_bind) (auto intro: quiet.ret split: sum.split)

lemmas quiet_intros = quiet_with_conn quiet_seq quiet_sqlite quiet.ret

section \<open>Handlers\<close>

lemma quiet_stores:
  "quiet (store_entry_task flt upsert_card h data)" "quiet (store_entry_task flt upsert_slot h data)"
  "quiet (store_inbox_item_task flt i item e)" "quiet (update_reputation_task flt ident outcome)"
  "quiet (get_entry_task k flt table h)"
  unfolding store_entry_task_def store_inbox_item_task_def update_reputation_task_def get_entry_task_def load_entry_task_def
  by (auto simp: upsert_card_def upsert_slot_def insert_inbox_key_def insert_inbox_item_def select_score_def upsert_score_def
      intro!: quiet_intros)

lemma quiet_get_inbox: "quiet (get_inbox_task k flt now i q)"
  unfolding get_inbox_task_def load_inbox_items_task_def limits_task_def
  by (auto simp: select_items_def intro!: quiet_intros quiet_bind quiet_atomic)

lemma sound_insert_log:
  assumes "sound s" "db_request_logs d = db_request_logs (as_db s)" "0 \<le> lg_timestamp r" "0 \<le> lg_bytes r"
  shows "log_sound (db_request_logs (fst (insert_log r d)))"
  using assms by (auto simp: sound_def log_sound_def insert_log_def)

definition row_sound :: "log_row \<Rightarrow> bool" where
  "row_sound r \<longleftrightarrow> 0 \<le> lg_timestamp r \<and> 0 \<le> lg_bytes r"

lemma quiet_log:
  assumes "row_sound (request_row now ident ip slot_id len kind Rejected)"
  shows "quiet (record_request_log_task flt now ident ip slot_id len kind Rejected)"
  unfolding record_request_log_task_def sqlite_task_def
  by (intro quiet_with_conn quiet_atomic)
    (use assms in \<open>auto simp: sqlite_def sound_def accepted_def insert_log_def log_sound_def row_sound_def request_row_def Let_def
       split: option.split\<close>)

lemma appends_log:
  assumes "row_sound (request_row now ident ip slot_id len kind Accepted)"
  shows "appends (request_row now ident ip slot_id len kind Accepted)
    (record_request_log_task flt now ident ip slot_id len kind Accepted)"
  unfolding record_request_log_task_def sqlite_task_def atomic_def
  by (intro appends_with_conn appends.step)
    (use assms in \<open>auto simp: sqlite_def sound_def accepted_def insert_log_def log_sound_def row_sound_def request_row_def Let_def
       intro: appends.quiet quiet.ret split: option.split\<close>)

lemma quiet_settle:
  assumes "row_sound (request_row now ident ip slot_id len kind Rejected)"
  shows "quiet (settle_task flt now ident ip slot_id len kind store (Inl e))"
  unfolding settle_task_def by (auto intro!: quiet_seq quiet_log [OF assms] quiet_stores quiet.ret)

lemma appends_settle:
  assumes "row_sound (request_row now ident ip slot_id len kind Accepted)" "\<And>a. quiet (store a)"
  shows "appends (request_row now ident ip slot_id len kind Accepted) (settle_task flt now ident ip slot_id len kind store (Inr a))"
  unfolding settle_task_def
  by (simp, rule quiet_seq_appends [OF assms(2)], rule appends_seq_quiet [OF appends_log [OF assms(1)] quiet_stores(4)])

lemma uint_sat_sub: "uint (sat_sub a b) = max 0 (uint a - uint b)" for a b :: "'a::len word"
proof (cases "b \<le> a")
  case True
  then have "uint (a - b) = uint a - uint b" by (simp add: uint_sub_lem [symmetric] word_le_def)
  with True show ?thesis by (simp add: sat_sub_def word_le_def)
qed (simp add: sat_sub_def word_le_def)

text \<open>What the counts that \<open>select_volume\<close> returns say about the log it read.\<close>

lemma volume_allows:
  assumes s: "sound s" and now: "uint now < 2 ^ 63" and len: "len < 2 ^ 63"
    and volume: "select_volume ident (as_i64 (sat_sub now 60)) (as_db s) = (d, Inr (n, m))"
    and ok: "enforce_rate_limits \<lparr>rs_recent_requests = n, rs_recent_bytes = m, rs_reputation_score = score\<rparr>
      RateLimitConfig_default len = Inr ()"
  shows "allowed s (request_row now ident ip slot_id len kind Accepted)"
proof -
  let ?log = "db_request_logs (as_db s)" and ?start = "max 0 (uint now - 60)"
  have start: "as_i64 (sat_sub now 60) = ?start"
    using now by (subst as_i64_uint) (simp_all add: uint_sat_sub)
  let ?rows = "filter (\<lambda>r. lg_identity r = ident \<and> ?start \<le> lg_timestamp r) ?log"
  have log: "length ?log < 2 ^ 63" "\<forall>r \<in> set ?log. 0 \<le> lg_timestamp r \<and> 0 \<le> lg_bytes r"
    using s by (simp_all add: sound_def log_sound_def)
  have few: "length ?rows < 2 ^ 63" using log(1) length_filter_le le_less_trans by blast
  have pos: "0 \<le> sum_list (map lg_bytes ?rows)" using sum_list_filter_bounds [of ?log lg_bytes] log(2) by blast
  have counts: "n = i64_as_u64 (int (length ?rows))" "m = i64_as_u64 (sum_list (map lg_bytes ?rows))"
    and max: "sum_list (map lg_bytes ?rows) < 2 ^ 63"
    using volume unfolding start by (auto simp: select_volume_def Let_def split: if_splits)
  have "unat (n + 1) = length ?rows + 1" using few by (simp add: unat_word_ariths counts unat_i64_as_u64)
  moreover have "unat (m + word_of_nat len) = nat (sum_list (map lg_bytes ?rows)) + len"
    using pos max len by (simp add: unat_word_ariths counts unat_i64_as_u64 unat_of_nat nat_less_iff)
  ultimately have fits: "length ?rows < 120" "sum_list (map lg_bytes ?rows) + int len \<le> 1048576"
    using ok pos by (auto simp: enforce_rate_limits_def RateLimitConfig_default_def word_less_nat_alt split: if_splits)
  let ?A = "\<lambda>r. lg_outcome r = ''accepted''"
  have "filter (\<lambda>q. lg_identity q = ident \<and> uint now - 60 \<le> lg_timestamp q) (accepted s) = filter ?A ?rows"
    using log(2) unfolding accepted_def by (auto simp: conj_commute intro!: filter_cong)
  moreover have "length (filter ?A ?rows) \<le> length ?rows" by (rule length_filter_le)
  moreover have "sum_list (map lg_bytes (filter ?A ?rows)) \<le> sum_list (map lg_bytes ?rows)"
    using sum_list_filter_bounds [of ?rows lg_bytes] log(2) by simp
  ultimately show ?thesis
    using fits now len by (simp add: allowed_def request_row_def as_i64_uint usize_as_i64_small)
qed

lemma bind_seq:
  "bind_task (seq_task m f) g = bind_task m (\<lambda>r. bind_task (case r of Inl e \<Rightarrow> Return (Inl e) | Inr a \<Rightarrow> f a) g)"
  by (simp add: seq_task_def bind_assoc)

lemma bind_with_conn:
  "bind_task (with_conn_task flt body) f = bind_task (atomic (DbPool_get flt)) (\<lambda>g. case g of
      Inl e \<Rightarrow> f (Inl (Storage e))
    | Inr _ \<Rightarrow> bind_task body (\<lambda>r. bind_task (atomic (\<lambda>s. (DbPool_put s, ()))) (\<lambda>_. f (map_err Storage r))))"
  unfolding with_conn_task_def seq_task_def bind_assoc
  by (intro arg_cong [of _ _ "bind_task _"] ext) (simp add: bind_assoc split: sum.split)

text \<open>From the statement that reads the volume on, the task logs an accepted request only if the limits allow it
  there.\<close>

lemma asks_snapshot:
  assumes now: "uint now < 2 ^ 63" and len: "len < 2 ^ 63"
    and no: "\<And>e. quiet (f (Inl e))" "\<And>sn. enforce_rate_limits sn RateLimitConfig_default len \<noteq> Inr () \<Longrightarrow> quiet (f (Inr sn))"
    and yes: "\<And>sn. appends (request_row now ident ip slot_id len kind Accepted) (f (Inr sn))"
  shows "asks (bind_task (load_rate_limit_snapshot_task flt ident now RateLimitConfig_default) f)"
proof -
  let ?row = "request_row now ident ip slot_id len kind Accepted"
  let ?volume = "select_volume ident (as_i64 (sat_sub now 60))"
  let ?rest = "\<lambda>v. seq_task (sqlite_task flt (select_score ident)) (\<lambda>reputation.
       Return (Inr \<lparr>rs_recent_requests = fst v, rs_recent_bytes = snd v, rs_reputation_score = reputation\<rparr>))"
  let ?fin = "\<lambda>r. bind_task (atomic (\<lambda>s. (DbPool_put s, ()))) (\<lambda>_. f (map_err Storage r))"
  have score: "quiet (sqlite_task flt (select_score ident))" by (rule quiet_sqlite) (simp add: select_score_def)
  let ?k = "\<lambda>r. bind_task (case r of Inl e \<Rightarrow> Return (Inl e) | Inr v \<Rightarrow> ?rest v) ?fin"
  have error: "quiet (?fin (Inl e))" for e by (rule quiet_bind [OF quiet_put]) (simp add: no(1))
  have accept: "appends ?row (bind_task (?rest v) ?fin)" for v
    unfolding bind_seq
  proof (rule quiet_appends_bind [OF score])
    show "appends ?row (bind_task (case r of Inl e \<Rightarrow> Return (Inl e) | Inr reputation \<Rightarrow> Return (Inr
        \<lparr>rs_recent_requests = fst v, rs_recent_bytes = snd v, rs_reputation_score = reputation\<rparr>)) ?fin)" for r
      using appends.quiet [OF error] quiet_appends_bind [OF quiet_put yes] by (cases r) simp_all
  qed
  have refuse: "quiet (bind_task (?rest v) ?fin)"
    if v: "\<And>score. enforce_rate_limits \<lparr>rs_recent_requests = fst v, rs_recent_bytes = snd v, rs_reputation_score = score\<rparr>
      RateLimitConfig_default len \<noteq> Inr ()" for v
    unfolding bind_seq
  proof (rule quiet_bind [OF score])
    show "quiet (bind_task (case r of Inl e \<Rightarrow> Return (Inl e) | Inr reputation \<Rightarrow> Return (Inr
        \<lparr>rs_recent_requests = fst v, rs_recent_bytes = snd v, rs_reputation_score = reputation\<rparr>)) ?fin)" for r
      using error quiet_bind [OF quiet_put no(2) [OF v]] by (cases r) simp_all
  qed
  have body: "asks (bind_task (seq_task (sqlite_task flt ?volume) ?rest) ?fin)"
    unfolding sqlite_task_def [of flt ?volume] bind_seq [of "atomic (sqlite flt ?volume)" ?rest ?fin]
  proof (rule asks_atomic_bind)
    fix s :: AppState
    assume s: "sound s"
    have same: "sound (fst (sqlite flt ?volume s)) \<and> accepted (fst (sqlite flt ?volume s)) = accepted s"
      using s by (auto simp: sqlite_def select_volume_def sound_def accepted_def Let_def split: option.split)
    have "asks (?k r) \<or> (\<exists>q. allowed s q \<and> appends q (?k r))" if r: "snd (sqlite flt ?volume s) = r" for r
    proof (cases r)
      case (Inl e)
      have "asks (?k r)" unfolding Inl using asks.quiet [OF error] by simp
      then show ?thesis ..
    next
      case (Inr v)
      then have volume: "?volume (as_db s) = (as_db s, Inr (fst v, snd v))"
        using r by (auto simp: sqlite_def select_volume_def Let_def split: option.splits if_splits)
      show ?thesis
      proof (cases "\<exists>score. enforce_rate_limits \<lparr>rs_recent_requests = fst v, rs_recent_bytes = snd v, rs_reputation_score = score\<rparr>
          RateLimitConfig_default len = Inr ()")
        case True
        then have "allowed s ?row" using volume_allows [OF s now len volume] by blast
        with accept [of v] show ?thesis unfolding Inr sum.case by blast
      next
        case False
        then have "quiet (bind_task (?rest v) ?fin)" by (intro refuse) blast
        then show ?thesis unfolding Inr sum.case by (blast intro: asks.quiet)
      qed
    qed
    then have "asks (?k (snd (sqlite flt ?volume s))) \<or> (\<exists>q. allowed s q \<and> appends q (?k (snd (sqlite flt ?volume s))))" by blast
    with same show "sound (fst (sqlite flt ?volume s)) \<and> accepted (fst (sqlite flt ?volume s)) = accepted s \<and>
        (asks (?k (snd (sqlite flt ?volume s))) \<or> (\<exists>q. allowed s q \<and> appends q (?k (snd (sqlite flt ?volume s)))))" by blast
  qed
  have window: "rl_window_seconds RateLimitConfig_default = 60" by (simp add: RateLimitConfig_default_def)
  show ?thesis
    unfolding load_rate_limit_snapshot_task_def bind_with_conn window case_prod_beta
    by (rule quiet_asks_bind [OF quiet_get]) (auto split: sum.split intro: asks.quiet no(1) body [unfolded case_prod_beta])
qed

lemma limits_binds:
  "quiet (f RateLimitConfig_default) \<Longrightarrow> quiet (bind_task limits_task f)"
  "appends r (f RateLimitConfig_default) \<Longrightarrow> appends r (bind_task limits_task f)"
  "asks (f RateLimitConfig_default) \<Longrightarrow> asks (bind_task limits_task f)"
  unfolding limits_task_def atomic_def bind_step
  by (auto intro!: quiet.step appends.step asks.step simp: sound_def)

lemma row_sound_request: "uint now < 2 ^ 63 \<Longrightarrow> len < 2 ^ 63 \<Longrightarrow> row_sound (request_row now ident ip slot_id len kind outcome)"
  by (simp add: row_sound_def request_row_def as_i64_uint usize_as_i64_small)

lemma asks_checked:
  assumes now: "uint now < 2 ^ 63" and len: "len < 2 ^ 63" and store: "\<And>a. quiet (store a)"
    and result: "\<And>sn a. result sn RateLimitConfig_default = Inr a \<Longrightarrow> enforce_rate_limits sn RateLimitConfig_default len = Inr ()"
  shows "asks (checked_task flt now ident ip slot_id len kind store result)"
  unfolding checked_task_def
proof (rule limits_binds(3))
  let ?row = "request_row now ident ip slot_id len kind Accepted"
  let ?fin = "\<lambda>sn. settle_task flt now ident ip slot_id len kind store (result sn RateLimitConfig_default)"
  have refuse: "quiet (?fin sn)" if "enforce_rate_limits sn RateLimitConfig_default len \<noteq> Inr ()" for sn
  proof -
    have "result sn RateLimitConfig_default \<noteq> Inr a" for a using result [of sn a] that by blast
    then obtain e where "result sn RateLimitConfig_default = Inl e" by (cases "result sn RateLimitConfig_default") auto
    then show ?thesis by (simp add: quiet_settle [OF row_sound_request [OF now len]])
  qed
  have accept: "appends ?row (?fin sn)" for sn
    using appends_settle [OF row_sound_request [OF now len] store] appends.quiet [OF quiet_settle [OF row_sound_request [OF now len]]]
    by (cases "result sn RateLimitConfig_default") simp_all
  show "asks (seq_task (load_rate_limit_snapshot_task flt ident now RateLimitConfig_default) (\<lambda>snapshot.
      bind_task limits_task (\<lambda>limits. settle_task flt now ident ip slot_id len kind store (result snapshot limits))))"
    unfolding seq_task_def
    by (rule asks_snapshot [OF now len]) (auto intro: quiet.ret limits_binds refuse accept)
qed

fun call_data :: "call \<Rightarrow> string option" where
  "call_data (PutCard _ p) = Some (sq_data p)"
| "call_data (PutSlot _ p) = Some (sq_data p)"
| "call_data (PutInbox _ p) = Some (iq_data p)"
| "call_data _ = None"

text \<open>No vector is longer than \<open>isize::MAX\<close>.\<close>

definition small_body :: "codec \<Rightarrow> call \<Rightarrow> bool" where
  "small_body k c \<longleftrightarrow> (\<forall>v data. call_data c = Some v \<and> cx_unb64 k v = Inr data \<longrightarrow> length data < 2 ^ 63)"

lemma asks_app:
  assumes now: "uint (fst clock) < 2 ^ 63" and small: "small_body k c"
  shows "asks (app_task x k flt clock addr c)"
proof -
  have len: "length data < 2 ^ 63" if "call_data c = Some v" "cx_unb64 k v = Inr data" for v data
    using small that by (simp add: small_body_def)
  note intros = asks_checked [OF now] asks.quiet [OF quiet.ret] asks.quiet [OF quiet_settle] quiet_stores row_sound_request [OF now]
  show ?thesis
  proof (cases c)
    case (PutCard h p)
    have "asks (put_card_task x k flt clock addr h p)"
      using len [of "sq_data p"] PutCard
      by (auto simp: put_card_task_def bridge_decode_base64_def split: sum.split intro!: intros)
    with PutCard show ?thesis by (auto intro!: asks_quiet_bind quiet.ret)
  next
    case (PutSlot h p)
    have "asks (put_slot_task x k flt clock addr h p)"
      using len [of "sq_data p"] PutSlot
      by (auto simp: put_slot_task_def bridge_decode_base64_def Let_def split: sum.split intro!: intros)
    with PutSlot show ?thesis by (auto intro!: asks_quiet_bind quiet.ret)
  next
    case (PutInbox h p)
    have "asks (put_inbox_task x k flt clock addr h p)"
      using len [of "iq_data p"] PutInbox
      by (auto simp: put_inbox_task_def bridge_decode_base64_def split: sum.split intro!: intros)
    with PutInbox show ?thesis by (auto intro!: asks_quiet_bind quiet.ret)
  qed (auto intro!: asks.quiet quiet_bind quiet_stores quiet_get_inbox quiet.ret)
qed

section \<open>Runs\<close>

text \<open>A bridge with its requests under way, at most \<open>c\<close> of them.  The server runs the steps of its requests in
  any order.  It drops a request it has answered and may drop one at any other moment, as when the client hangs
  up; when it is restarted it drops them all.\<close>

inductive serving :: "nat \<Rightarrow> crypto \<Rightarrow> codec \<Rightarrow> AppState \<Rightarrow> reply task list \<Rightarrow> bool" for c x k where
  start: "snd (init_state flt path empty_db) = Inr s \<Longrightarrow> serving c x k s []"
| restart: "serving c x k s ts \<Longrightarrow> snd (init_state flt path (as_db s)) = Inr s' \<Longrightarrow> serving c x k s' []"
| arrive: "serving c x k s ts \<Longrightarrow> length ts < c \<Longrightarrow> uint (fst clock) < 2 ^ 63 \<Longrightarrow> small_body k q \<Longrightarrow>
    serving c x k s (ts @ [app_task x k flt clock addr q])"
| proceed: "serving c x k s (ts @ Step g # us) \<Longrightarrow> serving c x k (fst (g s)) (ts @ snd (g s) # us)"
| drop: "serving c x k s (ts @ t # us) \<Longrightarrow> serving c x k s (ts @ us)"

lemma serving_run:
  "serving c x k s (ts @ t # us) \<Longrightarrow> serving c x k (fst (run_task t s)) (ts @ Return (snd (run_task t s)) # us)"
proof (induction t arbitrary: s)
  case (Step g)
  have "snd (g s) \<in> Basic_BNFs.snds (g s)" by (cases "g s") (simp add: snds.intros)
  from Step.IH [OF rangeI this serving.proceed [OF Step.prems]] show ?case by (simp del: run_task.simps(2))
qed simp

text \<open>What each request under way may still add to the log, and the sum over the log and these.\<close>

fun phase :: "log_row option \<Rightarrow> 'a task \<Rightarrow> bool" where
  "phase None t = asks t"
| "phase (Some r) t = (appends r t \<and> 0 \<le> lg_bytes r \<and> lg_bytes r \<le> 1048576)"

definition total :: "(log_row \<Rightarrow> int) \<Rightarrow> AppState \<Rightarrow> log_row option list \<Rightarrow> int" where
  "total w s ms = sum_list (map w (accepted s)) + sum_list (map (case_option 0 w) ms)"

definition in_minute :: "string \<Rightarrow> int \<Rightarrow> log_row \<Rightarrow> bool" where
  "in_minute ident start r \<longleftrightarrow> lg_identity r = ident \<and> start \<le> lg_timestamp r \<and> lg_timestamp r \<le> start + 60"

definition bounded :: "nat \<Rightarrow> AppState \<Rightarrow> log_row option list \<Rightarrow> bool" where
  "bounded c s ms \<longleftrightarrow> (\<forall>ident start.
    total (\<lambda>r. if in_minute ident start r then 1 else 0) s ms \<le> 119 + int c \<and>
    total (\<lambda>r. if in_minute ident start r then lg_bytes r else 0) s ms \<le> 1048576 * int c)"

lemma sum_list_le_length: "(\<And>m. m \<in> set ms \<Longrightarrow> f m \<le> (b :: int)) \<Longrightarrow> sum_list (map f ms) \<le> b * int (length ms)"
  by (induction ms) (auto simp: algebra_simps, smt (verit))

lemma sum_list_if: "sum_list (map (\<lambda>r. if P r then f r else 0) rs) = (sum_list (map f (filter P rs)) :: int)"
  by (induction rs) auto

lemma allowed_minute:
  assumes "allowed s r" "in_minute ident start r" "sound s"
  shows "length (filter (in_minute ident start) (accepted s)) < 120"
    and "sum_list (map lg_bytes (filter (in_minute ident start) (accepted s))) + lg_bytes r \<le> 1048576"
proof -
  let ?W = "\<lambda>q. lg_identity q = lg_identity r \<and> lg_timestamp r - 60 \<le> lg_timestamp q"
  have rows: "length (filter ?W (accepted s)) < 120" "sum_list (map lg_bytes (filter ?W (accepted s))) + lg_bytes r \<le> 1048576"
    using assms(1) by (simp_all add: allowed_def Let_def)
  have sub: "filter (in_minute ident start) (accepted s) = filter (in_minute ident start) (filter ?W (accepted s))"
    using assms(2) by (auto simp: in_minute_def filter_filter intro!: filter_cong)
  show "length (filter (in_minute ident start) (accepted s)) < 120"
    unfolding sub using rows(1) length_filter_le le_less_trans by blast
  have "\<forall>q \<in> set (filter ?W (accepted s)). 0 \<le> lg_bytes q" using assms(3) by (simp add: sound_def log_sound_def accepted_def)
  then show "sum_list (map lg_bytes (filter (in_minute ident start) (accepted s))) + lg_bytes r \<le> 1048576"
    using rows(2) sum_list_filter_bounds [of "filter ?W (accepted s)" lg_bytes "in_minute ident start"] unfolding sub by linarith
qed

text \<open>A request that has passed the check joins those that may still be logged.\<close>

lemma bounded_allowed:
  assumes b: "bounded c s (ms @ None # ns)" and r: "allowed s r" and s: "sound s" and c: "length ms + length ns < c"
    and small: "\<And>q. Some q \<in> set (ms @ ns) \<Longrightarrow> 0 \<le> lg_bytes q \<and> lg_bytes q \<le> 1048576"
  shows "bounded c s (ms @ Some r # ns)"
  unfolding bounded_def
proof (intro allI)
  fix ident start
  let ?one = "\<lambda>r. if in_minute ident start r then 1 else 0 :: int" and ?bytes = "\<lambda>r. if in_minute ident start r then lg_bytes r else 0"
  have *: "total ?one s (ms @ None # ns) \<le> 119 + int c" "total ?bytes s (ms @ None # ns) \<le> 1048576 * int c"
    using b by (simp_all add: bounded_def)
  have c': "int (length (ms @ ns)) + 1 \<le> int c" using c by simp
  show "total ?one s (ms @ Some r # ns) \<le> 119 + int c \<and> total ?bytes s (ms @ Some r # ns) \<le> 1048576 * int c"
  proof (cases "in_minute ident start r")
    case True
    have "sum_list (map (case_option 0 ?one) (ms @ ns)) \<le> 1 * int (length (ms @ ns))"
      by (rule sum_list_le_length) (simp split: option.split)
    moreover have "sum_list (map (case_option 0 ?bytes) (ms @ ns)) \<le> 1048576 * int (length (ms @ ns))"
      using small by (intro sum_list_le_length) (auto split: option.split)
    ultimately show ?thesis
      using allowed_minute [OF r True s] c' True
      by (simp add: total_def sum_list_if [of _ "\<lambda>_. 1"] sum_list_if [of _ lg_bytes] sum_list_triv)
  next
    case False
    with * show ?thesis by (simp add: total_def)
  qed
qed

lemma bounded_cong: "accepted s' = accepted s \<Longrightarrow> bounded c s' ms = bounded c s ms"
  by (simp add: bounded_def total_def)

lemma bounded_none:
  assumes "bounded c s (ms @ m # ns)" "\<And>r. m = Some r \<Longrightarrow> 0 \<le> lg_bytes r"
  shows "bounded c s (ms @ ns)" "bounded c s (ms @ None # ns)"
proof -
  have "total w s (ms @ ns) \<le> total w s (ms @ m # ns)" if "\<And>r. m = Some r \<Longrightarrow> 0 \<le> w r" for w
    using that by (cases m) (simp_all add: total_def)
  note less = order_trans [OF this]
  show "bounded c s (ms @ ns)"
    unfolding bounded_def
  proof (intro allI conjI)
    fix ident start
    show "total (\<lambda>r. if in_minute ident start r then 1 else 0) s (ms @ ns) \<le> 119 + int c"
      using assms(1) by (intro less) (simp_all add: bounded_def)
    show "total (\<lambda>r. if in_minute ident start r then lg_bytes r else 0) s (ms @ ns) \<le> 1048576 * int c"
      using assms by (intro less) (simp_all add: bounded_def)
  qed
  then show "bounded c s (ms @ None # ns)" by (simp add: bounded_def total_def)
qed

lemma bounded_logged:
  "bounded c s (ms @ Some r # ns) \<Longrightarrow> accepted s' = accepted s @ [r] \<Longrightarrow> bounded c s' (ms @ None # ns)"
  by (simp add: bounded_def total_def add.assoc add.left_commute)

definition serving_inv :: "nat \<Rightarrow> AppState \<Rightarrow> 'a task list \<Rightarrow> bool" where
  "serving_inv c s ts \<longleftrightarrow> sound s \<and> length ts \<le> c \<and> (\<exists>ms. list_all2 phase ms ts \<and> bounded c s ms)"

lemma phase_some: "list_all2 phase ms ts \<Longrightarrow> Some r \<in> set ms \<Longrightarrow> 0 \<le> lg_bytes r \<and> lg_bytes r \<le> 1048576"
  by (induction rule: list_all2_induct) auto

lemma serving_inv_proceed:
  assumes "serving_inv c s (ts @ Step g # us)"
  shows "serving_inv c (fst (g s)) (ts @ snd (g s) # us)"
proof -
  obtain ms m ns where ms: "list_all2 phase ms ts" and ns: "list_all2 phase ns us" and m: "phase m (Step g)"
    and b: "bounded c s (ms @ m # ns)" and s: "sound s" and len: "length ts + length us < c"
    using assms by (auto simp: serving_inv_def list_all2_append2 list_all2_Cons2)
  have ph: "list_all2 phase (ms @ m' # ns) (ts @ snd (g s) # us)" if "phase m' (snd (g s))" for m'
    using ms ns that by (simp add: list_all2_appendI)
  have "sound (fst (g s)) \<and> (\<exists>m'. phase m' (snd (g s)) \<and> bounded c (fst (g s)) (ms @ m' # ns))"
  proof (cases m)
    case None
    then have "asks (Step g)" using m by simp
    from asks_StepD [OF this s] have a: "sound (fst (g s))" "accepted (fst (g s)) = accepted s"
      "asks (snd (g s)) \<or> (\<exists>r. allowed s r \<and> appends r (snd (g s)))" by blast+
    show ?thesis
    proof (cases "asks (snd (g s))")
      case True
      then have "phase None (snd (g s))" by simp
      moreover have "bounded c (fst (g s)) (ms @ None # ns)" using b None bounded_cong [OF a(2)] by blast
      ultimately show ?thesis using a(1) by blast
    next
      case False
      then obtain r where r: "allowed s r" "appends r (snd (g s))" using a(3) by blast
      let ?rows = "filter (\<lambda>q. lg_identity q = lg_identity r \<and> lg_timestamp r - 60 \<le> lg_timestamp q) (accepted s)"
      have "\<forall>q \<in> set (accepted s). 0 \<le> lg_bytes q" using s by (simp add: sound_def log_sound_def accepted_def)
      then have "0 \<le> sum_list (map lg_bytes ?rows)" using sum_list_filter_bounds by blast
      moreover have "0 \<le> lg_bytes r" "sum_list (map lg_bytes ?rows) + lg_bytes r \<le> 1048576"
        using r(1) by (simp_all add: allowed_def Let_def)
      ultimately have "0 \<le> lg_bytes r \<and> lg_bytes r \<le> 1048576" by linarith
      then have "phase (Some r) (snd (g s))" using r(2) by simp
      moreover have "length ms + length ns < c" using len ms ns by (simp add: list_all2_lengthD)
      then have "bounded c s (ms @ Some r # ns)"
        using b None phase_some [OF ms] phase_some [OF ns] by (intro bounded_allowed [OF _ r(1) s]) auto
      then have "bounded c (fst (g s)) (ms @ Some r # ns)" using bounded_cong [OF a(2)] by blast
      ultimately show ?thesis using a(1) by blast
    qed
  next
    case (Some r)
    then have r: "appends r (Step g)" "0 \<le> lg_bytes r" "lg_bytes r \<le> 1048576" using m by simp_all
    from appends_StepD [OF r(1) s] have a: "sound (fst (g s))"
      "accepted (fst (g s)) = accepted s \<and> appends r (snd (g s)) \<or> accepted (fst (g s)) = accepted s @ [r] \<and> quiet (snd (g s))"
      by blast+
    from a(2) show ?thesis
    proof
      assume same: "accepted (fst (g s)) = accepted s \<and> appends r (snd (g s))"
      then have "phase (Some r) (snd (g s))" using r by simp
      moreover have "bounded c (fst (g s)) (ms @ Some r # ns)" using b Some bounded_cong [OF conjunct1 [OF same]] by blast
      ultimately show ?thesis using a(1) by blast
    next
      assume "accepted (fst (g s)) = accepted s @ [r] \<and> quiet (snd (g s))"
      then have "phase None (snd (g s))" "bounded c (fst (g s)) (ms @ None # ns)"
        using b Some by (auto intro: asks.quiet bounded_logged)
      with a(1) show ?thesis by blast
    qed
  qed
  then obtain m' where "sound (fst (g s))" "phase m' (snd (g s))" "bounded c (fst (g s)) (ms @ m' # ns)" by blast
  moreover have "length (ts @ snd (g s) # us) \<le> c" using len by simp
  ultimately show ?thesis using ph unfolding serving_inv_def by blast
qed

lemma init_state_logs:
  assumes "snd (init_state flt path d) = Inr s"
  shows "db_request_logs (as_db s) = db_request_logs d \<and> as_limits s = RateLimitConfig_default"
  using init_state_inv [OF _ _ assms, of "\<lambda>d'. db_request_logs d' = db_request_logs d"] by (simp add: app_inv_def)

lemma serving_invariant: "serving c x k s ts \<Longrightarrow> serving_inv c s ts"
proof (induction rule: serving.induct)
  case (start flt path s)
  from init_state_logs [OF start] show ?case
    by (simp add: serving_inv_def sound_def log_sound_def empty_db_def bounded_def total_def accepted_def)
next
  case (restart s ts flt path s')
  from restart.IH obtain ms where ms: "list_all2 phase ms ts" "bounded c s ms" and s: "sound s" by (auto simp: serving_inv_def)
  have "bounded c s ns" if "bounded c s (ns @ ms)" "list_all2 phase ms us" for ns and us :: "reply task list"
    using that
  proof (induction ms arbitrary: us)
    case (Cons m ms)
    obtain u us' where "us = u # us'" "phase m u" "list_all2 phase ms us'" using Cons.prems(2) by (cases us) auto
    moreover have "bounded c s (ns @ ms)"
      by (rule bounded_none(1) [OF Cons.prems(1)]) (use \<open>phase m u\<close> in auto)
    ultimately show ?case using Cons.IH by blast
  qed simp
  from this [of "[]"] ms have "bounded c s []" by simp
  with s init_state_logs [OF restart.hyps(2)] show ?case
    by (simp add: serving_inv_def sound_def bounded_def total_def accepted_def)
next
  case (arrive s ts clock q flt addr)
  then obtain ms where ms: "list_all2 phase ms ts" "bounded c s ms" "sound s" "length ts < c" by (auto simp: serving_inv_def)
  have "phase None (app_task x k flt clock addr q)" using asks_app [OF arrive.hyps(3,4)] by simp
  then have "list_all2 phase (ms @ [None]) (ts @ [app_task x k flt clock addr q])" using ms(1) by (simp add: list_all2_appendI)
  moreover have "bounded c s (ms @ [None])" using ms(2) by (simp add: bounded_def total_def)
  ultimately show ?case using ms(3,4) unfolding serving_inv_def by fastforce
next
  case (proceed s ts g us)
  show ?case by (rule serving_inv_proceed [OF proceed.IH])
next
  case (drop s ts t us)
  then obtain ms m ns where "list_all2 phase ms ts" "list_all2 phase ns us" "phase m t"
    and b: "bounded c s (ms @ m # ns)" and rest: "sound s" "length ts + length us < c"
    by (auto simp: serving_inv_def list_all2_append2 list_all2_Cons2)
  then have "list_all2 phase (ms @ ns) (ts @ us)" "\<And>r. m = Some r \<Longrightarrow> 0 \<le> lg_bytes r" by (auto intro: list_all2_appendI)
  with bounded_none(1) [OF b] rest show ?case unfolding serving_inv_def by fastforce
qed

definition accepted_rows :: "AppState \<Rightarrow> string \<Rightarrow> int \<Rightarrow> log_row list" where
  "accepted_rows s ident start = filter (\<lambda>r. lg_identity r = ident \<and> lg_outcome r = ''accepted'' \<and>
     start \<le> lg_timestamp r \<and> lg_timestamp r \<le> start + 60) (db_request_logs (as_db s))"

text \<open>C3. On a bridge that has at most \<open>c\<close> requests under way at a time and interleaves their steps in any way, the
  log holds, for every identity and every interval of 60 seconds, at most \<open>119 + c\<close> accepted requests and at
  most \<open>c\<close> times 1048576 accepted bytes.  This holds whatever requests are served, with clock readings below
  \<open>2^63\<close>, whichever SQLite calls fail, and across restarts.  With one request at a time these are the
  limits of 120 requests and 1048576 bytes.\<close>

theorem quota_respected:
  assumes "serving c x k s ts"
  shows "length (accepted_rows s ident start) \<le> 119 + c \<and>
    sum_list (map lg_bytes (accepted_rows s ident start)) \<le> 1048576 * int c"
proof -
  obtain ms where ms: "list_all2 phase ms ts" and b: "bounded c s ms"
    using serving_invariant [OF assms] by (auto simp: serving_inv_def)
  have rows: "accepted_rows s ident start = filter (in_minute ident start) (accepted s)"
    by (auto simp: accepted_rows_def accepted_def in_minute_def intro!: filter_cong)
  have pending: "0 \<le> sum_list (map (case_option 0 w) ms)" if "\<And>r. 0 \<le> lg_bytes r \<Longrightarrow> 0 \<le> w r" for w :: "log_row \<Rightarrow> int"
    using phase_some [OF ms] that by (intro sum_list_nonneg) (auto split: option.split)
  let ?one = "\<lambda>r. if in_minute ident start r then 1 else 0 :: int" and ?bytes = "\<lambda>r. if in_minute ident start r then lg_bytes r else 0"
  have "total ?one s ms \<le> 119 + int c" "total ?bytes s ms \<le> 1048576 * int c" using b unfolding bounded_def by blast+
  moreover have "0 \<le> sum_list (map (case_option 0 ?one) ms)" "0 \<le> sum_list (map (case_option 0 ?bytes) ms)"
    by (rule pending, simp)+
  moreover have "sum_list (map ?one (accepted s)) = int (length (accepted_rows s ident start))"
    unfolding rows sum_list_if [of _ "\<lambda>_. 1"] by (simp add: sum_list_triv)
  moreover have "sum_list (map ?bytes (accepted s)) = sum_list (map lg_bytes (accepted_rows s ident start))"
    unfolding rows sum_list_if ..
  ultimately have "int (length (accepted_rows s ident start)) \<le> 119 + int c"
    "sum_list (map lg_bytes (accepted_rows s ident start)) \<le> 1048576 * int c" unfolding total_def by linarith+
  then show ?thesis by simp
qed

theorem quota_respected_witness:
  "let post = (\<lambda>s. fst (app toy_crypto toy_codec no_faults (4, 5) None (PutInbox ''i'' sample_item) s))
   in length (accepted_rows (post (post fresh_bridge)) (bytes_str [1]) 0) \<le> 121"
proof -
  let ?t = "app_task toy_crypto toy_codec no_faults (4, 5) None (PutInbox ''i'' sample_item)"
  have "serving 2 toy_crypto toy_codec fresh_bridge []" by (rule serving.start [OF fresh_bridge_init])
  note arrive = serving.arrive [where clock = "(4, 5)" and flt = no_faults and addr = None and q = "PutInbox ''i'' sample_item"]
  have small: "uint (fst (4 :: u64, 5 :: u64)) < 2 ^ 63" "small_body toy_codec (PutInbox ''i'' sample_item)"
    by (simp_all add: small_body_def sample_item_def toy_codec_def)
  have "serving 2 toy_crypto toy_codec fresh_bridge ([] @ [?t])"
    by (rule arrive [OF serving.start [OF fresh_bridge_init] _ small]) simp
  then have "serving 2 toy_crypto toy_codec fresh_bridge (([] @ [?t]) @ [?t])"
    by (rule arrive [OF _ _ small]) simp
  then have "serving 2 toy_crypto toy_codec fresh_bridge ([] @ ?t # [?t])" by simp
  from serving_run [OF this] have "serving 2 toy_crypto toy_codec (fst (run_task ?t fresh_bridge))
      ([Return (snd (run_task ?t fresh_bridge))] @ ?t # [])" by simp
  from quota_respected [OF serving_run [OF this], of "bytes_str [1]" 0] show ?thesis unfolding run_app Let_def by (rule conjunct1 [THEN order_trans]) simp
qed

end
