(* ===== verification/Bridge_Main.thy ===== *)
theory Bridge_Main
  imports Bridge
begin

text \<open>
  Start-up of the bridge server, \<open>spex-bridge/src/main.rs\<close>, up to the point where it serves requests.

  The environment, the parser of socket addresses and the binding of a listener are fields of a record; the disk
  maps the path of a database to its contents.  What the server does from then on is \<open>app\<close>.
\<close>

record 'a boot_env =
  bo_var :: "string \<Rightarrow> string option"
  bo_parse_addr :: "string \<Rightarrow> string + 'a"
  bo_bind :: "'a \<Rightarrow> string + unit"

definition DEFAULT_BRIDGE_ADDR :: string where
  "DEFAULT_BRIDGE_ADDR = ''127.0.0.1:3000''"

definition bridge_addr_from_value :: "(string \<Rightarrow> string + 'a) \<Rightarrow> string option \<Rightarrow> string + 'a" where
  "bridge_addr_from_value parse v = parse (case v of Some addr \<Rightarrow> addr | None \<Rightarrow> DEFAULT_BRIDGE_ADDR)"

definition bridge_main ::
    "'a boot_env \<Rightarrow> sqlite_faults \<Rightarrow> (string \<Rightarrow> database) \<Rightarrow> (string \<Rightarrow> database) \<times> (string + 'a \<times> AppState)" where
  "bridge_main env flt disk =
    (let db_path = (case bo_var env ''SPEX_BRIDGE_DB'' of Some path \<Rightarrow> path | None \<Rightarrow> ''spex-bridge.db'')
     in case init_state flt db_path (disk db_path) of
          (d, Inl e) \<Rightarrow> (disk(db_path := d), Inl (BridgeError_to_string e))
        | (d, Inr state) \<Rightarrow>
            (disk(db_path := d),
             bind_res (bridge_addr_from_value (bo_parse_addr env) (bo_var env ''SPEX_BRIDGE_ADDR'')) (\<lambda>addr.
             bind_res (bo_bind env addr) (\<lambda>_. Inr (addr, state)))))"

text \<open>A server that starts on a new database, or on the database an earlier run left, is one of those the
  properties of the bridge speak about, and it listens where it was told to, or on the loopback interface.\<close>

lemma booted_bridge:
  assumes "bridge_main env flt disk = (disk', Inr (addr, s))" "\<And>p. disk p = empty_db \<or> (\<exists>s. bridge_reachable x k s \<and> disk p = as_db s)"
  shows "bridge_reachable x k s"
    and "bo_parse_addr env (case bo_var env ''SPEX_BRIDGE_ADDR'' of Some a \<Rightarrow> a | None \<Rightarrow> ''127.0.0.1:3000'') = Inr addr"
proof -
  let ?path = "case bo_var env ''SPEX_BRIDGE_DB'' of Some path \<Rightarrow> path | None \<Rightarrow> ''spex-bridge.db''"
  obtain d r where init: "init_state flt ?path (disk ?path) = (d, r)" by fastforce
  with assms(1) have "r = Inr s \<and> bridge_addr_from_value (bo_parse_addr env) (bo_var env ''SPEX_BRIDGE_ADDR'') = Inr addr"
    by (cases r) (auto simp: bridge_main_def Let_def)
  then have r: "r = Inr s" and addr: "bridge_addr_from_value (bo_parse_addr env) (bo_var env ''SPEX_BRIDGE_ADDR'') = Inr addr"
    by blast+
  from addr show "bo_parse_addr env (case bo_var env ''SPEX_BRIDGE_ADDR'' of Some a \<Rightarrow> a | None \<Rightarrow> ''127.0.0.1:3000'') = Inr addr"
    unfolding bridge_addr_from_value_def DEFAULT_BRIDGE_ADDR_def .
  show "bridge_reachable x k s"
    using assms(2) [of ?path]
  proof
    assume "disk ?path = empty_db"
    then show ?thesis using init r by (intro bridge_reachable.start [of flt ?path]) simp
  next
    assume "\<exists>s. bridge_reachable x k s \<and> disk ?path = as_db s"
    then show ?thesis using init r bridge_reachable.restart [of x k _ flt ?path s] by auto
  qed
qed

end
