(* ===== verification/Client_State.thy ===== *)
theory Client_State
  imports Checkpoint_Log Mls_Group Inbox
begin

text \<open>
  The state of the client library, \<open>spex-client/src/lib.rs\<close>, with the operations on the identity, the
  contacts and the checkpoint log.

  \<^item> A \<open>HashMap\<close> is a map, since the library never iterates over one.
  \<^item> The operating system's random source is an \<open>entropy\<close>: the bytes the \<open>i\<close>-th request of an operation
    for \<open>n\<close> bytes receives. A reading of \<open>now_unix\<close> is an argument of the operation.
  \<^item> \<open>serde_json\<close>, \<open>ciborium\<close> and the derived serializers are the fields of a record \<open>serde\<close>, with the texts of
    the errors of the cipher crate.
  \<^item> An operation on \<open>&mut LocalState\<close> returns the state it leaves with its result, so that what a failing
    operation has changed is visible.
\<close>

section \<open>Errors\<close>

datatype ClientError =
    Io string
  | Json string
  | CCbor string
  | CHex string
  | MissingIdentity
  | InvalidCard
  | SignatureInvalid
  | RequestTargetMismatch
  | RequestStale
  | RequestReplay
  | ThreadNotFound
  | CTransport string
  | Log string
  | Mls string
  | Crypto string
  | InvalidPuzzle
  | CGrantInvalid
  | CGrantExpired
  | InvalidAeadPayload
  | MissingSignature
  | UnknownSender string
  | UnauthorizedSender
  | InvalidMessageEncoding
  | PermissionDenied
  | RevokedKeyNotFound
  | RecoveryKeyInvalidOrExpired
  | CCore string
  | StateEncryption string

fun ClientError_to_string :: "ClientError \<Rightarrow> string" where
  "ClientError_to_string (Io m) = ''io error: '' @ m"
| "ClientError_to_string (Json m) = ''json error: '' @ m"
| "ClientError_to_string (CCbor m) = ''cbor error: '' @ m"
| "ClientError_to_string (CHex m) = ''hex error: '' @ m"
| "ClientError_to_string MissingIdentity = ''missing identity''"
| "ClientError_to_string InvalidCard = ''invalid card payload''"
| "ClientError_to_string SignatureInvalid = ''signature verification failed''"
| "ClientError_to_string RequestTargetMismatch = ''request target does not match local identity''"
| "ClientError_to_string RequestStale = ''request timestamp is outside the accepted window''"
| "ClientError_to_string RequestReplay = ''request has already been accepted''"
| "ClientError_to_string ThreadNotFound = ''thread not found''"
| "ClientError_to_string (CTransport m) = ''transport error: '' @ m"
| "ClientError_to_string (Log m) = ''log error: '' @ m"
| "ClientError_to_string (Mls m) = ''mls error: '' @ m"
| "ClientError_to_string (Crypto m) = ''crypto error: '' @ m"
| "ClientError_to_string InvalidPuzzle = ''invalid request puzzle''"
| "ClientError_to_string CGrantInvalid = ''grant signature invalid''"
| "ClientError_to_string CGrantExpired = ''grant expired''"
| "ClientError_to_string InvalidAeadPayload = ''invalid aead payload''"
| "ClientError_to_string MissingSignature = ''missing envelope signature''"
| "ClientError_to_string (UnknownSender m) = ''unknown sender: '' @ m"
| "ClientError_to_string UnauthorizedSender = ''sender not authorized for thread''"
| "ClientError_to_string InvalidMessageEncoding = ''invalid message encoding''"
| "ClientError_to_string PermissionDenied = ''permission denied for checkpoint operation''"
| "ClientError_to_string RevokedKeyNotFound = ''revoked key not found in checkpoint history''"
| "ClientError_to_string RecoveryKeyInvalidOrExpired = ''recovery key invalid or expired''"
| "ClientError_to_string (CCore m) = ''core error: '' @ m"
| "ClientError_to_string (StateEncryption m) = ''state encryption error: '' @ m"

datatype ClientFailureReason =
    FGrantExpired
  | FPowTooWeak
  | CfgMismatch
  | FEpochMismatch
  | KeyChanged
  | NetworkError
  | ProtocolError
  | SecurityViolation
  | InvalidFormat
  | InternalError
  | Unknown

fun ClientFailureReason_to_string :: "ClientFailureReason \<Rightarrow> string" where
  "ClientFailureReason_to_string FGrantExpired = ''The access grant has expired.''"
| "ClientFailureReason_to_string FPowTooWeak = ''Proof of work puzzle is too weak or invalid.''"
| "ClientFailureReason_to_string CfgMismatch = ''Thread configuration mismatch detected.''"
| "ClientFailureReason_to_string FEpochMismatch = ''Encryption epoch mismatch detected.''"
| "ClientFailureReason_to_string KeyChanged = ''Identity key has changed since last contact.''"
| "ClientFailureReason_to_string NetworkError = ''Network transport or I/O error occurred.''"
| "ClientFailureReason_to_string ProtocolError = ''Protocol violation or state inconsistency.''"
| "ClientFailureReason_to_string SecurityViolation = ''Security check failed (signature/auth).''"
| "ClientFailureReason_to_string InvalidFormat = ''Data format is invalid or corrupted.''"
| "ClientFailureReason_to_string InternalError = ''Internal client error.''"
| "ClientFailureReason_to_string Unknown = ''Unknown error occurred.''"

fun ClientFailureReason_from :: "ClientError \<Rightarrow> ClientFailureReason" where
  "ClientFailureReason_from (Io _) = NetworkError"
| "ClientFailureReason_from (CTransport _) = NetworkError"
| "ClientFailureReason_from (Json _) = InvalidFormat"
| "ClientFailureReason_from (CCbor _) = InvalidFormat"
| "ClientFailureReason_from (CHex _) = InvalidFormat"
| "ClientFailureReason_from InvalidCard = InvalidFormat"
| "ClientFailureReason_from InvalidMessageEncoding = InvalidFormat"
| "ClientFailureReason_from SignatureInvalid = SecurityViolation"
| "ClientFailureReason_from MissingSignature = SecurityViolation"
| "ClientFailureReason_from UnauthorizedSender = SecurityViolation"
| "ClientFailureReason_from RequestTargetMismatch = SecurityViolation"
| "ClientFailureReason_from RequestStale = SecurityViolation"
| "ClientFailureReason_from RequestReplay = SecurityViolation"
| "ClientFailureReason_from CGrantInvalid = SecurityViolation"
| "ClientFailureReason_from CGrantExpired = FGrantExpired"
| "ClientFailureReason_from InvalidPuzzle = FPowTooWeak"
| "ClientFailureReason_from (Mls msg) =
    (if contains_str ''epoch'' msg then FEpochMismatch
     else if contains_str ''config'' msg \<or> contains_str ''cfg'' msg then CfgMismatch
     else ProtocolError)"
| "ClientFailureReason_from (CCore _) = ProtocolError"
| "ClientFailureReason_from (Crypto _) = ProtocolError"
| "ClientFailureReason_from (StateEncryption _) = ProtocolError"
| "ClientFailureReason_from InvalidAeadPayload = ProtocolError"
| "ClientFailureReason_from MissingIdentity = InternalError"
| "ClientFailureReason_from ThreadNotFound = InternalError"
| "ClientFailureReason_from (UnknownSender _) = InternalError"
| "ClientFailureReason_from (Log _) = InternalError"
| "ClientFailureReason_from PermissionDenied = SecurityViolation"
| "ClientFailureReason_from RevokedKeyNotFound = SecurityViolation"
| "ClientFailureReason_from RecoveryKeyInvalidOrExpired = SecurityViolation"

text \<open>\<open>impl From<SpexError> for ClientError\<close>\<close>

definition core_error :: "SpexError \<Rightarrow> ClientError" where
  "core_error e = CCore (SpexError_to_string e)"

section \<open>State\<close>

record IdentityState =
  id_user_id_hex :: string
  id_signing_key_hex :: string
  id_verifying_key_hex :: string
  id_device_id_hex :: string
  id_device_nonce_hex :: string

record ContactState =
  co_user_id_hex :: string
  co_verifying_key_hex :: string
  co_fingerprint :: string
  co_device_id_hex :: string
  co_last_seen_at :: u64

record MessageState =
  msg_sender_user_id :: string
  msg_text :: string
  msg_sent_at :: u64

record ThreadState =
  th_thread_id_hex :: string
  th_members :: "string list"
  th_created_at :: u64
  th_messages :: "MessageState list"
  th_proto_major :: u16
  th_proto_minor :: u16
  th_ciphersuite_id :: u16
  th_cfg_hash_id :: u16
  th_cfg_hash_hex :: string
  th_flags :: u8
  th_initial_secret_hex :: string
  th_next_seq :: u64
  th_epoch :: u64

record InboxItem =
  ii_received_at :: u64
  ii_payload_base64 :: string

record ClientPowParams =
  pq_memory_kib :: u32
  pq_iterations :: u32
  pq_parallelism :: u32
  pq_output_len :: nat

record PuzzleToken =
  pt_recipient_key :: string
  pt_puzzle_input :: string
  pt_puzzle_output :: string
  pt_params :: ClientPowParams

record RequestState =
  rs_token_base64 :: string
  rs_to_user_id :: string
  rs_role :: u64
  rs_created_at :: u64
  rs_puzzle :: "PuzzleToken option"

record GrantState =
  gs_token_base64 :: string
  gs_from_user_id :: string
  gs_role :: u64
  gs_created_at :: u64
  gs_signature_base64 :: "string option"

record TransportChunkDescriptorState =
  cds_index :: nat
  cds_hash_hex :: string

record TransportManifestState =
  tms_total_len :: nat
  tms_chunks :: "TransportChunkDescriptorState list"

record TransportChunkState =
  tcs_index :: nat
  tcs_hash_hex :: string
  tcs_data_base64 :: string

record TransportOutboxItem =
  ob_thread_id_hex :: string
  ob_manifest :: TransportManifestState
  ob_chunks :: "TransportChunkState list"
  ob_published_at :: u64

record KeyRotationState =
  kr_rotated_at :: u64
  kr_old_verifying_key_hex :: string
  kr_new_verifying_key_hex :: string

text \<open>\<open>CheckpointLogState\<close> has the single field \<open>log_base64\<close>.\<close>

record LocalState =
  ls_identity :: "IdentityState option"
  ls_contacts :: "string \<rightharpoonup> ContactState"
  ls_threads :: "string \<rightharpoonup> ThreadState"
  ls_inbox :: "InboxItem list"
  ls_requests :: "RequestState list"
  ls_grants :: "GrantState list"
  ls_log_base64 :: string
  ls_transport_outbox :: "TransportOutboxItem list"
  ls_p2p_inbox :: "string \<rightharpoonup> string list"
  ls_transport_gossip :: "string \<rightharpoonup> string list"
  ls_transport_chunk_store :: "string \<rightharpoonup> string"
  ls_key_rotations :: "KeyRotationState list"
  ls_accepted_request_ids :: "string list"

definition LocalState_default :: LocalState where
  "LocalState_default = \<lparr>ls_identity = None, ls_contacts = Map.empty, ls_threads = Map.empty, ls_inbox = [],
    ls_requests = [], ls_grants = [], ls_log_base64 = '''', ls_transport_outbox = [], ls_p2p_inbox = Map.empty,
    ls_transport_gossip = Map.empty, ls_transport_chunk_store = Map.empty, ls_key_rotations = [],
    ls_accepted_request_ids = []\<rparr>"

record RequestToken =
  rt_from_user_id :: string
  rt_to_user_id :: string
  rt_role :: u64
  rt_created_at :: u64
  rt_puzzle :: "PuzzleToken option"

record SignedGrantToken =
  sg_user_id :: string
  sg_role :: u64
  sg_flags :: "u64 option"
  sg_expires_at :: "u64 option"
  sg_verifying_key :: string
  sg_signature :: string

record EncryptedStateFile =
  es_format :: string
  es_version :: u8
  es_kdf :: string
  es_salt_base64 :: string
  es_nonce_base64 :: string
  es_ciphertext_base64 :: string

section \<open>Third-party serializers\<close>

record serde =
  sd_reader :: cbor_reader
  sd_value :: "Value \<Rightarrow> string + bytes"
  sd_access :: map_reader
  sd_render :: "de_error \<Rightarrow> string"
  sd_entries :: "CheckpointEntry list \<Rightarrow> string + bytes"
  sd_parse_entries :: "bytes \<Rightarrow> string + CheckpointEntry list"
  sd_request :: "RequestToken \<Rightarrow> string + bytes"
  sd_parse_request :: "bytes \<Rightarrow> string + RequestToken"
  sd_grant :: "SignedGrantToken \<Rightarrow> string + bytes"
  sd_manifest :: "ChunkManifest \<Rightarrow> string + bytes"
  sd_parse_manifest :: "bytes \<Rightarrow> string + ChunkManifest"
  sd_state :: "LocalState \<Rightarrow> string + bytes"
  sd_parse_state :: "bytes \<Rightarrow> string + LocalState"
  sd_state_file :: "EncryptedStateFile \<Rightarrow> string + string"
  sd_parse_state_file :: "string \<Rightarrow> string + EncryptedStateFile"
  sd_cipher_key_error :: string
  sd_cipher_error :: string

type_synonym entropy = "nat \<Rightarrow> nat \<Rightarrow> bytes"

definition random_bytes :: "(nat \<Rightarrow> bytes) \<Rightarrow> nat \<Rightarrow> bytes" where
  "random_bytes rng len = rng len"

definition random_hex :: "codec \<Rightarrow> (nat \<Rightarrow> bytes) \<Rightarrow> nat \<Rightarrow> string" where
  "random_hex k rng len = cx_hex k (random_bytes rng len)"

definition fingerprint_hex :: "crypto \<Rightarrow> codec \<Rightarrow> bytes \<Rightarrow> string" where
  "fingerprint_hex x k bs = cx_hex k (hash_bytes x Sha256 bs)"

text \<open>\<open>hex::decode(s)?\<close>\<close>

definition unhex :: "codec \<Rightarrow> string \<Rightarrow> ClientError + bytes" where
  "unhex k s = map_err CHex (cx_unhex k s)"

text \<open>\<open>bytes.try_into().map_err(|_| e)\<close> to an array of \<open>n\<close> bytes.\<close>

definition into_array :: "ClientError \<Rightarrow> nat \<Rightarrow> bytes \<Rightarrow> ClientError + bytes" where
  "into_array e n bs = (if length bs = n then Inr bs else Inl e)"

section \<open>Identity\<close>

definition create_identity :: "crypto \<Rightarrow> codec \<Rightarrow> entropy \<Rightarrow> IdentityState" where
  "create_identity x k rnd =
    (let seed = rnd 0 32;
         verifying_key = x_verifying_key x seed;
         user_id = random_bytes (rnd 1) 32;
         device_id = random_bytes (rnd 2) 16;
         device_nonce = random_bytes (rnd 3) 16
     in \<lparr>id_user_id_hex = cx_hex k user_id, id_signing_key_hex = cx_hex k seed,
         id_verifying_key_hex = cx_hex k verifying_key, id_device_id_hex = cx_hex k device_id,
         id_device_nonce_hex = cx_hex k device_nonce\<rparr>)"

definition create_identity_in_state :: "crypto \<Rightarrow> codec \<Rightarrow> entropy \<Rightarrow> LocalState \<Rightarrow> LocalState \<times> IdentityState" where
  "create_identity_in_state x k rnd s =
    (let identity = create_identity x k rnd in (s\<lparr>ls_identity := Some identity\<rparr>, identity))"

definition rotate_identity :: "crypto \<Rightarrow> codec \<Rightarrow> entropy \<Rightarrow> IdentityState \<Rightarrow> IdentityState" where
  "rotate_identity x k rnd identity =
    (let seed = rnd 0 32;
         verifying_key = x_verifying_key x seed
     in identity\<lparr>id_signing_key_hex := cx_hex k seed, id_verifying_key_hex := cx_hex k verifying_key,
                 id_device_nonce_hex := cx_hex k (random_bytes (rnd 1) 16)\<rparr>)"

definition signing_key_from_hex :: "codec \<Rightarrow> string \<Rightarrow> ClientError + bytes" where
  "signing_key_from_hex k signing_key_hex = bind_res (unhex k signing_key_hex) (into_array SignatureInvalid 32)"

definition clone_identity_from_state :: "LocalState \<Rightarrow> ClientError + IdentityState" where
  "clone_identity_from_state s = ok_or MissingIdentity (ls_identity s)"

section \<open>The checkpoint log in the state\<close>

definition log_error :: "SpexError \<Rightarrow> ClientError" where
  "log_error e = Log (SpexError_to_string e)"

definition load_checkpoint_log :: "crypto \<Rightarrow> codec \<Rightarrow> serde \<Rightarrow> LocalState \<Rightarrow> ClientError + CheckpointLog" where
  "load_checkpoint_log x k j s =
    (if ls_log_base64 s = '''' then Inr CheckpointLog_new
     else map_err log_error (import_base64 x (sd_parse_entries j) (cx_unb64 k) (ls_log_base64 s)))"

definition save_checkpoint_log ::
    "codec \<Rightarrow> serde \<Rightarrow> CheckpointLog \<Rightarrow> LocalState \<Rightarrow> LocalState \<times> (ClientError + unit)" where
  "save_checkpoint_log k j log s =
    (case export_base64 (sd_entries j) (sd_reader j) (cx_b64 k) log of
       Inl e \<Rightarrow> (s, Inl (log_error e))
     | Inr encoded \<Rightarrow> (s\<lparr>ls_log_base64 := encoded\<rparr>, Inr ()))"

text \<open>\<open>log.append(entry).map_err(|err| ClientError::Log(err.to_string()))?\<close> on a log that is dropped when
  the function returns early.\<close>

definition append_or_log_error :: "crypto \<Rightarrow> CheckpointEntry \<Rightarrow> CheckpointLog \<Rightarrow> ClientError + CheckpointLog" where
  "append_or_log_error x entry log =
    (case append_entry x entry log of
       (_, Inl e) \<Rightarrow> Inl (log_error e)
     | (log', Inr _) \<Rightarrow> Inr log')"

definition append_rotation_checkpoint ::
    "crypto \<Rightarrow> codec \<Rightarrow> serde \<Rightarrow> (nat \<Rightarrow> u64) \<Rightarrow> IdentityState \<Rightarrow> string \<Rightarrow> LocalState \<Rightarrow> LocalState \<times> (ClientError + unit)" where
  "append_rotation_checkpoint x k j now identity old_verifying_key_hex s =
    (case
      (bind_res (unhex k old_verifying_key_hex) (\<lambda>revoked_key.
       let revoked_key_hash = hash_bytes x Sha256 revoked_key in
       bind_res (unhex k (id_user_id_hex identity)) (\<lambda>user_id.
       let revocation = \<lparr>rd_user_id = user_id, rd_revoked_key_hash = revoked_key_hash, rd_revoked_at = now 0,
             rd_recovery_key_hash = None, rd_reason = Some ''key rotation''\<rparr> in
       bind_res (unhex k (id_user_id_hex identity)) (\<lambda>user_id.
       bind_res (unhex k (id_verifying_key_hex identity)) (\<lambda>verifying_key.
       bind_res (unhex k (id_device_id_hex identity)) (\<lambda>device_id.
       let checkpoint = \<lparr>kc_user_id = user_id, kc_verifying_key = verifying_key, kc_device_id = device_id,
             kc_issued_at = now 1\<rparr> in
       bind_res (load_checkpoint_log x k j s) (\<lambda>log.
       bind_res (append_or_log_error x (Revocation revocation) log) (append_or_log_error x (Key checkpoint))))))))) of
       Inl e \<Rightarrow> (s, Inl e)
     | Inr log \<Rightarrow> save_checkpoint_log k j log s)"

record IdentityRotationOutcome =
  ro_old_verifying_key_hex :: string
  ro_new_identity :: IdentityState

definition rotate_identity_in_state ::
    "crypto \<Rightarrow> codec \<Rightarrow> serde \<Rightarrow> entropy \<Rightarrow> (nat \<Rightarrow> u64) \<Rightarrow> LocalState \<Rightarrow> LocalState \<times> (ClientError + IdentityRotationOutcome)" where
  "rotate_identity_in_state x k j rnd now s =
    (case ls_identity s of
       None \<Rightarrow> (s, Inl MissingIdentity)
     | Some identity \<Rightarrow>
         (let old_verifying_key_hex = id_verifying_key_hex identity;
              rotated = rotate_identity x k rnd identity;
              rotation = \<lparr>kr_rotated_at = now 0, kr_old_verifying_key_hex = old_verifying_key_hex,
                kr_new_verifying_key_hex = id_verifying_key_hex rotated\<rparr>;
              s1 = s\<lparr>ls_identity := Some rotated, ls_key_rotations := ls_key_rotations s @ [rotation]\<rparr>
          in apsnd (map_res (\<lambda>_. \<lparr>ro_old_verifying_key_hex = old_verifying_key_hex, ro_new_identity = rotated\<rparr>))
               (append_rotation_checkpoint x k j (\<lambda>i. now (i + 1)) rotated old_verifying_key_hex s1)))"

section \<open>Recovery and revocation\<close>

definition create_recovery_entry :: "codec \<Rightarrow> (nat \<Rightarrow> bytes) \<Rightarrow> u64 \<Rightarrow> IdentityState \<Rightarrow> ClientError + RecoveryKey" where
  "create_recovery_entry k rng now identity =
    bind_res (unhex k (id_user_id_hex identity)) (\<lambda>user_id.
    Inr \<lparr>rk_user_id = user_id, rk_recovery_key = random_bytes rng 32, rk_issued_at = now\<rparr>)"

definition create_checkpoint_entry :: "codec \<Rightarrow> u64 \<Rightarrow> IdentityState \<Rightarrow> ClientError + KeyCheckpoint" where
  "create_checkpoint_entry k now identity =
    bind_res (unhex k (id_user_id_hex identity)) (\<lambda>user_id.
    bind_res (unhex k (id_verifying_key_hex identity)) (\<lambda>verifying_key.
    bind_res (unhex k (id_device_id_hex identity)) (\<lambda>device_id.
    Inr \<lparr>kc_user_id = user_id, kc_verifying_key = verifying_key, kc_device_id = device_id, kc_issued_at = now\<rparr>)))"

definition create_revocation_entry ::
    "crypto \<Rightarrow> codec \<Rightarrow> u64 \<Rightarrow> IdentityState \<Rightarrow> string \<Rightarrow> string option \<Rightarrow> string option \<Rightarrow> ClientError + RevocationDeclaration" where
  "create_revocation_entry x k now identity revoked_key_hex recovery_hex reason =
    bind_res (unhex k revoked_key_hex) (\<lambda>revoked_key.
    let revoked_key_hash = hash_bytes x Sha256 revoked_key in
    bind_res (case recovery_hex of
        Some value \<Rightarrow> map_res (\<lambda>b. Some (hash_bytes x Sha256 b)) (unhex k value)
      | None \<Rightarrow> Inr None) (\<lambda>recovery_key_hash.
    bind_res (unhex k (id_user_id_hex identity)) (\<lambda>user_id.
    Inr \<lparr>rd_user_id = user_id, rd_revoked_key_hash = revoked_key_hash, rd_revoked_at = now,
         rd_recovery_key_hash = recovery_key_hash, rd_reason = reason\<rparr>)))"

text \<open>The three searches of \<open>append_revocation_entry_checked\<close>.\<close>

definition key_was_issued :: "crypto \<Rightarrow> RevocationDeclaration \<Rightarrow> CheckpointEntry list \<Rightarrow> bool" where
  "key_was_issued x entry es = list_ex (\<lambda>candidate. case candidate of
      Key key \<Rightarrow> kc_user_id key = rd_user_id entry \<and> hash_bytes x Sha256 (kc_verifying_key key) = rd_revoked_key_hash entry
    | _ \<Rightarrow> False) es"

definition already_revoked :: "RevocationDeclaration \<Rightarrow> CheckpointEntry list \<Rightarrow> bool" where
  "already_revoked entry es = list_ex (\<lambda>candidate. case candidate of
      Revocation existing \<Rightarrow> rd_user_id existing = rd_user_id entry \<and> rd_revoked_key_hash existing = rd_revoked_key_hash entry
    | _ \<Rightarrow> False) es"

definition valid_recovery :: "crypto \<Rightarrow> u64 \<Rightarrow> u64 \<Rightarrow> RevocationDeclaration \<Rightarrow> bytes \<Rightarrow> CheckpointEntry list \<Rightarrow> bool" where
  "valid_recovery x now recovery_max_age_seconds entry recovery_hash es = list_ex (\<lambda>candidate. case candidate of
      Recovery recovery \<Rightarrow> rk_user_id recovery = rd_user_id entry \<and>
        hash_bytes x Sha256 (rk_recovery_key recovery) = recovery_hash \<and>
        sat_sub now (rk_issued_at recovery) \<le> recovery_max_age_seconds
    | _ \<Rightarrow> False) es"

definition append_revocation_entry_checked ::
    "crypto \<Rightarrow> codec \<Rightarrow> u64 \<Rightarrow> IdentityState \<Rightarrow> RevocationDeclaration \<Rightarrow> u64 \<Rightarrow> CheckpointLog \<Rightarrow>
      CheckpointLog \<times> (ClientError + bool)" where
  "append_revocation_entry_checked x k now identity entry recovery_max_age_seconds log =
    (case unhex k (id_user_id_hex identity) of
       Inl e \<Rightarrow> (log, Inl e)
     | Inr identity_user_id \<Rightarrow>
         if rd_user_id entry \<noteq> identity_user_id then (log, Inl PermissionDenied)
         else if \<not> key_was_issued x entry (log_entries log) then (log, Inl RevokedKeyNotFound)
         else if already_revoked entry (log_entries log) then (log, Inr False)
         else
           (case (case rd_recovery_key_hash entry of
                    Some recovery_hash \<Rightarrow>
                      if \<not> valid_recovery x now recovery_max_age_seconds entry recovery_hash (log_entries log)
                      then Inl RecoveryKeyInvalidOrExpired else Inr ()
                  | None \<Rightarrow> Inr ()) of
              Inl e \<Rightarrow> (log, Inl e)
            | Inr _ \<Rightarrow>
                (case append_entry x (Revocation entry) log of
                   (log', Inl e) \<Rightarrow> (log', Inl (log_error e))
                 | (log', Inr _) \<Rightarrow> (log', Inr True))))"

definition log_consistency :: "CheckpointLog \<Rightarrow> CheckpointLog \<Rightarrow> LogConsistency" where
  "log_consistency local remote = compare_with local remote"

section \<open>Contact cards\<close>

definition sign_contact_card :: "crypto \<Rightarrow> codec \<Rightarrow> IdentityState \<Rightarrow> ContactCard \<Rightarrow> ClientError + bytes" where
  "sign_contact_card x k identity crd =
    bind_res (signing_key_from_hex k (id_signing_key_hex identity)) (\<lambda>signing_key.
    bind_res (map_err core_error (ctap2_canonical_value_bytes (ContactCard_to_cbor crd))) (\<lambda>payload.
    let digest = hash_bytes x Sha256 payload
    in Inr (ed25519_sign_hash x signing_key digest)))"

definition build_contact_card :: "crypto \<Rightarrow> codec \<Rightarrow> u64 \<Rightarrow> IdentityState \<Rightarrow> ClientError + ContactCard" where
  "build_contact_card x k now identity =
    bind_res (unhex k (id_user_id_hex identity)) (\<lambda>user_id.
    bind_res (unhex k (id_verifying_key_hex identity)) (\<lambda>verifying_key.
    bind_res (unhex k (id_device_id_hex identity)) (\<lambda>device_id.
    bind_res (unhex k (id_device_nonce_hex identity)) (\<lambda>device_nonce.
    let crd = \<lparr>cc_user_id = user_id, cc_verifying_key = verifying_key, cc_device_id = device_id,
          cc_device_nonce = device_nonce, cc_issued_at = now, cc_invite = None, cc_signature = None, cc_extensions = []\<rparr>
    in bind_res (sign_contact_card x k identity crd) (\<lambda>signature.
    Inr (crd\<lparr>cc_signature := Some signature\<rparr>))))))"

definition verify_contact_card_signature :: "crypto \<Rightarrow> codec \<Rightarrow> ContactCard \<Rightarrow> bytes \<Rightarrow> ClientError + unit" where
  "verify_contact_card_signature x k crd signature =
    bind_res (into_array SignatureInvalid 32 (cc_verifying_key crd)) (\<lambda>verifying_key.
    bind_res (map_err (\<lambda>_. SignatureInvalid) (cx_verifying_key k verifying_key)) (\<lambda>_.
    bind_res (map_err core_error (ctap2_canonical_value_bytes (ContactCard_to_cbor (crd\<lparr>cc_signature := None\<rparr>)))) (\<lambda>payload.
    let digest = hash_bytes x Sha256 payload in
    bind_res (into_array SignatureInvalid 64 signature) (\<lambda>signature.
    map_err (\<lambda>_. SignatureInvalid) (ed25519_verify_hash x verifying_key digest signature)))))"

definition expect_bytes :: "Value \<Rightarrow> ClientError + bytes" where
  "expect_bytes v = (case v of VBytes b \<Rightarrow> Inr b | _ \<Rightarrow> Inl InvalidCard)"

definition expect_u64 :: "Value \<Rightarrow> ClientError + u64" where
  "expect_u64 v = (case v of VInteger n \<Rightarrow> ok_or InvalidCard (try_u64 n) | _ \<Rightarrow> Inl InvalidCard)"

definition ContactCard_default :: ContactCard where
  "ContactCard_default = \<lparr>cc_user_id = [], cc_verifying_key = [], cc_device_id = [], cc_device_nonce = [],
    cc_issued_at = 0, cc_invite = None, cc_signature = None, cc_extensions = []\<rparr>"

text \<open>The body of the loop of \<open>parse_contact_card\<close>, and the loop.\<close>

definition card_entry :: "ContactCard \<Rightarrow> Value \<Rightarrow> Value \<Rightarrow> ClientError + ContactCard" where
  "card_entry crd key v =
    (case key of
       VInteger n \<Rightarrow>
         if n = 0 then map_res (\<lambda>b. crd\<lparr>cc_user_id := b\<rparr>) (expect_bytes v)
         else if n = 1 then map_res (\<lambda>b. crd\<lparr>cc_verifying_key := b\<rparr>) (expect_bytes v)
         else if n = 2 then map_res (\<lambda>b. crd\<lparr>cc_device_id := b\<rparr>) (expect_bytes v)
         else if n = 3 then map_res (\<lambda>b. crd\<lparr>cc_device_nonce := b\<rparr>) (expect_bytes v)
         else if n = 4 then map_res (\<lambda>i. crd\<lparr>cc_issued_at := i\<rparr>) (expect_u64 v)
         else if n = 6 then map_res (\<lambda>b. crd\<lparr>cc_signature := Some b\<rparr>) (expect_bytes v)
         else Inr crd
     | _ \<Rightarrow> Inr crd)"

primrec card_entries :: "ContactCard \<Rightarrow> (Value \<times> Value) list \<Rightarrow> ClientError + ContactCard" where
  "card_entries crd [] = Inr crd"
| "card_entries crd (e # es) = bind_res (card_entry crd (fst e) (snd e)) (\<lambda>crd. card_entries crd es)"

definition parse_contact_card :: "serde \<Rightarrow> bytes \<Rightarrow> ClientError + ContactCard" where
  "parse_contact_card j bs =
    bind_res (map_err CCbor (sd_reader j bs)) (\<lambda>v.
    bind_res (case v of VMap m \<Rightarrow> Inr m | _ \<Rightarrow> Inl InvalidCard) (\<lambda>m.
    bind_res (card_entries ContactCard_default m) (\<lambda>crd.
    if cc_user_id crd = [] \<or> cc_verifying_key crd = [] then Inl InvalidCard else Inr crd)))"

definition create_contact_card_payload :: "crypto \<Rightarrow> codec \<Rightarrow> u64 \<Rightarrow> IdentityState \<Rightarrow> ClientError + string" where
  "create_contact_card_payload x k now identity =
    bind_res (build_contact_card x k now identity) (\<lambda>crd.
    bind_res (map_err core_error (ctap2_canonical_value_bytes (ContactCard_to_cbor crd))) (\<lambda>card_bytes.
    Inr (cx_b64 k card_bytes)))"

definition redeem_contact_card_payload :: "crypto \<Rightarrow> codec \<Rightarrow> serde \<Rightarrow> string \<Rightarrow> ClientError + ContactCard" where
  "redeem_contact_card_payload x k j payload =
    bind_res (map_err (\<lambda>_. InvalidCard) (cx_unb64 k payload)) (\<lambda>card_bytes.
    bind_res (parse_contact_card j card_bytes) (\<lambda>crd.
    bind_res (case cc_signature crd of
        Some signature \<Rightarrow> verify_contact_card_signature x k crd signature
      | None \<Rightarrow> Inr ()) (\<lambda>_.
    Inr crd)))"

record ContactRedeemOutcome =
  cr_contact :: ContactState
  cr_previous_fingerprint :: "string option"
  cr_key_changed :: bool

definition ContactRedeemOutcome_failure_reason :: "ContactRedeemOutcome \<Rightarrow> ClientFailureReason option" where
  "ContactRedeemOutcome_failure_reason r = (if cr_key_changed r then Some KeyChanged else None)"

definition redeem_contact_card_to_state ::
    "crypto \<Rightarrow> codec \<Rightarrow> serde \<Rightarrow> u64 \<Rightarrow> string \<Rightarrow> LocalState \<Rightarrow> LocalState \<times> (ClientError + ContactRedeemOutcome)" where
  "redeem_contact_card_to_state x k j now payload s =
    (case redeem_contact_card_payload x k j payload of
       Inl e \<Rightarrow> (s, Inl e)
     | Inr crd \<Rightarrow>
         (let user_id_hex = cx_hex k (cc_user_id crd);
              verifying_hex = cx_hex k (cc_verifying_key crd);
              fingerprint = fingerprint_hex x k (cc_verifying_key crd);
              previous_fingerprint = map_option co_fingerprint (ls_contacts s user_id_hex);
              key_changed = (case previous_fingerprint of Some existing \<Rightarrow> existing \<noteq> fingerprint | None \<Rightarrow> False);
              contact = \<lparr>co_user_id_hex = user_id_hex, co_verifying_key_hex = verifying_hex, co_fingerprint = fingerprint,
                co_device_id_hex = cx_hex k (cc_device_id crd), co_last_seen_at = now\<rparr>
          in (s\<lparr>ls_contacts := (ls_contacts s)(user_id_hex \<mapsto> contact)\<rparr>,
              Inr \<lparr>cr_contact = contact, cr_previous_fingerprint = previous_fingerprint, cr_key_changed = key_changed\<rparr>)))"

section \<open>Well-formed identities\<close>

definition hex_of :: "codec \<Rightarrow> nat \<Rightarrow> string \<Rightarrow> bool" where
  "hex_of k n h \<longleftrightarrow> (\<exists>bs. length bs = n \<and> h = cx_hex k bs)"

definition identity_ok :: "crypto \<Rightarrow> codec \<Rightarrow> IdentityState \<Rightarrow> bool" where
  "identity_ok x k i \<longleftrightarrow> hex_of k 32 (id_user_id_hex i) \<and> hex_of k 16 (id_device_id_hex i) \<and>
    hex_of k 16 (id_device_nonce_hex i) \<and>
    (\<exists>seed. length seed = 32 \<and> id_signing_key_hex i = cx_hex k seed \<and>
      id_verifying_key_hex i = cx_hex k (x_verifying_key x seed))"

lemma created_identity_ok: "\<forall>i n. length (rnd i n) = n \<Longrightarrow> identity_ok x k (create_identity x k rnd)"
  unfolding identity_ok_def hex_of_def create_identity_def random_bytes_def Let_def by auto

lemma unhex_hex: "codec_correct k \<Longrightarrow> unhex k (cx_hex k bs) = Inr bs"
  by (simp add: unhex_def codec_correct_def)

lemma identity_keys:
  assumes "codec_correct k" "identity_ok x k i"
  obtains user seed where "length user = 32" "length seed = 32" "id_user_id_hex i = cx_hex k user"
    "signing_key_from_hex k (id_signing_key_hex i) = Inr seed" "id_verifying_key_hex i = cx_hex k (x_verifying_key x seed)"
  using assms by (auto simp: identity_ok_def hex_of_def signing_key_from_hex_def into_array_def unhex_hex)

section \<open>Instances for evaluation\<close>

definition toy_serde :: serde where
  "toy_serde = \<lparr>sd_reader = ref_de, sd_value = ref_ser, sd_access = ref_access, sd_render = (\<lambda>_. ''''),
    sd_entries = (\<lambda>_. Inl ''''), sd_parse_entries = (\<lambda>_. Inl ''''), sd_request = (\<lambda>_. Inl ''''),
    sd_parse_request = (\<lambda>_. Inl ''''), sd_grant = (\<lambda>_. Inr []), sd_manifest = (\<lambda>_. Inl ''''),
    sd_parse_manifest = (\<lambda>_. Inl ''''), sd_state = (\<lambda>_. Inl ''''), sd_parse_state = (\<lambda>_. Inl ''''),
    sd_state_file = (\<lambda>_. Inl ''''), sd_parse_state_file = (\<lambda>_. Inl ''''), sd_cipher_key_error = ''Invalid Length'',
    sd_cipher_error = ''aead::Error''\<rparr>"

text \<open>An identity whose user identifier and seed consist of one byte repeated.\<close>

definition toy_identity :: "u8 \<Rightarrow> IdentityState" where
  "toy_identity b = create_identity toy_crypto toy_codec (\<lambda>_ n. replicate n b)"

definition toy_client :: "u8 \<Rightarrow> LocalState" where
  "toy_client b = LocalState_default\<lparr>ls_identity := Some (toy_identity b)\<rparr>"

lemma toy_unhex [simp]: "unhex toy_codec (cx_hex toy_codec bs) = Inr bs" "cx_unhex toy_codec (cx_hex toy_codec bs) = Inr bs"
  by (simp_all add: unhex_def toy_codec_def)

lemma toy_identity_simps [simp]:
  "id_user_id_hex (toy_identity b) = cx_hex toy_codec (replicate 32 b)"
  "id_signing_key_hex (toy_identity b) = cx_hex toy_codec (replicate 32 b)"
  "id_verifying_key_hex (toy_identity b) = cx_hex toy_codec (replicate 32 b)"
  "signing_key_from_hex toy_codec (cx_hex toy_codec (replicate 32 b)) = Inr (replicate 32 b)"
  by (simp_all add: toy_identity_def create_identity_def random_bytes_def signing_key_from_hex_def into_array_def
      toy_crypto_def Let_def)

lemma toy_client_simps [simp]:
  "ls_identity (toy_client b) = Some (toy_identity b)" "ls_accepted_request_ids (toy_client b) = []"
  "ls_contacts (toy_client b) = Map.empty" "ls_threads (toy_client b) = Map.empty"
  by (simp_all add: toy_client_def LocalState_default_def)

end
