(* ===== verification/Client_Thread.thy ===== *)
theory Client_Thread
  imports Client_State
begin

text \<open>
  Threads of the client library, \<open>spex-client/src/lib.rs\<close>: the group a thread stands for, sealing and
  signing of a message, the local transport cache, and reception.

  The outer option of an operation is a panic: the group of a thread whose configuration hash is longer than
  255 bytes, or, for a scan of the bridge, a scan that never ends.
\<close>

section \<open>Groups\<close>

definition mls_error :: "MlsError \<Rightarrow> ClientError" where
  "mls_error e = Mls (MlsError_to_string e)"

definition build_thread_cfg_hash :: "crypto \<Rightarrow> codec \<Rightarrow> string \<Rightarrow> ProtoSuite \<Rightarrow> ClientError + bytes" where
  "build_thread_cfg_hash x k thread_id_hex suite =
    bind_res (unhex k thread_id_hex) (\<lambda>thread_id.
    let thread_config = \<lparr>tc_proto_major = ps_major suite, tc_proto_minor = ps_minor suite,
          tc_ciphersuite_id = ps_ciphersuite_id suite, tc_flags = 0, tc_thread_id = thread_id, tc_grants = [],
          tc_extensions = []\<rparr>
    in map_err mls_error (cfg_hash_for_thread_config x Sha256 thread_config))"

text \<open>The loop \<open>for member in members { group.add_member(member.clone())?; }\<close>.\<close>

primrec add_members :: "crypto \<Rightarrow> Group \<Rightarrow> string list \<Rightarrow> (ClientError + Group) option" where
  "add_members x g [] = Some (Inr g)"
| "add_members x g (m # ms) =
    (case add_member x g m of
       None \<Rightarrow> None
     | Some (_, Inl e) \<Rightarrow> Some (Inl (mls_error e))
     | Some (g', Inr _) \<Rightarrow> add_members x g' ms)"

definition build_group_for_members ::
    "crypto \<Rightarrow> codec \<Rightarrow> string list \<Rightarrow> bytes \<Rightarrow> string \<Rightarrow> ProtoSuite \<Rightarrow> (ClientError + Group) option" where
  "build_group_for_members x k members cfg_hash initial_secret_hex suite =
    (case unhex k initial_secret_hex of
       Inl e \<Rightarrow> Some (Inl e)
     | Inr initial_secret \<Rightarrow>
         (case Group_create x (with_initial_secret initial_secret (GroupConfig_new suite 0 1 cfg_hash)) of
            None \<Rightarrow> None
          | Some (Inl e) \<Rightarrow> Some (Inl (mls_error e))
          | Some (Inr grp) \<Rightarrow> add_members x grp members))"

definition thread_suite :: "ThreadState \<Rightarrow> ProtoSuite" where
  "thread_suite t = \<lparr>ps_major = th_proto_major t, ps_minor = th_proto_minor t, ps_ciphersuite_id = th_ciphersuite_id t\<rparr>"

definition rebuild_thread_group :: "crypto \<Rightarrow> codec \<Rightarrow> ThreadState \<Rightarrow> (ClientError + Group) option" where
  "rebuild_thread_group x k t =
    (case unhex k (th_cfg_hash_hex t) of
       Inl e \<Rightarrow> Some (Inl e)
     | Inr cfg_hash \<Rightarrow> build_group_for_members x k (th_members t) cfg_hash (th_initial_secret_hex t) (thread_suite t))"

section \<open>Sealing\<close>

definition encrypt_payload_with_aead ::
    "crypto \<Rightarrow> serde \<Rightarrow> (nat \<Rightarrow> bytes) \<Rightarrow> bytes \<Rightarrow> bytes \<Rightarrow> bytes \<Rightarrow> ClientError + bytes" where
  "encrypt_payload_with_aead x j rng group_secret plaintext ad =
    (let key = hash_bytes x Sha256 group_secret in
     if length key \<noteq> 32 then Inl (Crypto (sd_cipher_key_error j))
     else
       let nonce_bytes = rng 12 in
       bind_res (ok_or (Crypto (sd_cipher_error j)) (x_seal x key nonce_bytes ad plaintext)) (\<lambda>ciphertext.
       Inr (nonce_bytes @ ciphertext)))"

definition decrypt_payload_with_aead :: "crypto \<Rightarrow> serde \<Rightarrow> bytes \<Rightarrow> bytes \<Rightarrow> bytes \<Rightarrow> ClientError + bytes" where
  "decrypt_payload_with_aead x j group_secret ciphertext ad =
    (if length ciphertext < 12 then Inl InvalidAeadPayload
     else
       let key = hash_bytes x Sha256 group_secret in
       if length key \<noteq> 32 then Inl (Crypto (sd_cipher_key_error j))
       else ok_or (Crypto (sd_cipher_error j)) (x_open x key (take 12 ciphertext) ad (drop 12 ciphertext)))"

definition derive_sender_ad_id :: "crypto \<Rightarrow> bytes \<Rightarrow> bytes" where
  "derive_sender_ad_id x sender_id = take 20 (hash_bytes x Sha256 sender_id)"

definition build_envelope ::
    "crypto \<Rightarrow> codec \<Rightarrow> IdentityState \<Rightarrow> ThreadState \<Rightarrow> u32 \<Rightarrow> u64 \<Rightarrow> bytes \<Rightarrow> ClientError + Envelope" where
  "build_envelope x k identity t epoch sq ciphertext =
    bind_res (unhex k (th_thread_id_hex t)) (\<lambda>thread_id.
    bind_res (unhex k (id_user_id_hex identity)) (\<lambda>sender_user_id.
    let envelope = \<lparr>env_thread_id = thread_id, env_epoch = epoch, env_seq = sq, env_sender_user_id = sender_user_id,
          env_ciphertext = ciphertext, env_signature = None, env_extensions = []\<rparr> in
    bind_res (signing_key_from_hex k (id_signing_key_hex identity)) (\<lambda>signing_key.
    bind_res (map_err core_error (hash_ctap2_cbor_value x Sha256 (Envelope_to_cbor envelope))) (\<lambda>hash.
    let signature = ed25519_sign_hash x signing_key hash
    in Inr (envelope\<lparr>env_signature := Some signature\<rparr>)))))"

text \<open>What \<open>encrypt_and_chunk_message\<close> computes once the sequence number is taken: the envelope and its
  canonical bytes.\<close>

definition seal_message ::
    "crypto \<Rightarrow> codec \<Rightarrow> serde \<Rightarrow> (nat \<Rightarrow> bytes) \<Rightarrow> IdentityState \<Rightarrow> ThreadState \<Rightarrow> Group \<Rightarrow> u32 \<Rightarrow> u64 \<Rightarrow> bytes \<Rightarrow>
      ClientError + Envelope \<times> bytes" where
  "seal_message x k j rng identity t grp epoch sq plaintext =
    bind_res (unhex k (th_thread_id_hex t)) (\<lambda>thread_id_bytes.
    bind_res (map_err core_error (to_fixed 32 thread_id_bytes)) (\<lambda>thread_id.
    bind_res (unhex k (th_cfg_hash_hex t)) (\<lambda>cfg_hash_bytes.
    bind_res (map_err core_error (to_fixed 32 cfg_hash_bytes)) (\<lambda>cfg_hash.
    bind_res (unhex k (id_user_id_hex identity)) (\<lambda>sender_id_bytes.
    let ad = build_ad thread_id epoch cfg_hash (thread_suite t) sq (derive_sender_ad_id x sender_id_bytes) in
    bind_res (encrypt_payload_with_aead x j rng (sec_group_secret (g_secrets grp)) plaintext ad) (\<lambda>ciphertext.
    bind_res (build_envelope x k identity t epoch sq ciphertext) (\<lambda>envelope.
    bind_res (map_err core_error (ctap2_canonical_value_bytes (Envelope_to_cbor envelope))) (\<lambda>payload.
    Inr (envelope, payload)))))))))"

definition encrypt_and_chunk_message ::
    "crypto \<Rightarrow> codec \<Rightarrow> serde \<Rightarrow> (nat \<Rightarrow> bytes) \<Rightarrow> IdentityState \<Rightarrow> bytes \<Rightarrow> ThreadState \<Rightarrow>
      (ThreadState \<times> (ClientError + Envelope \<times> ChunkManifest \<times> Chunk list)) option" where
  "encrypt_and_chunk_message x k j rng identity plaintext t =
    (case rebuild_thread_group x k t of
       None \<Rightarrow> None
     | Some (Inl e) \<Rightarrow> Some (t, Inl e)
     | Some (Inr grp) \<Rightarrow>
         if g_epoch grp > 0xffffffff then Some (t, Inl InvalidAeadPayload)
         else
           let epoch = ucast (g_epoch grp);
               sq = th_next_seq t;
               t1 = t\<lparr>th_next_seq := sat_add (th_next_seq t) 1, th_epoch := g_epoch grp\<rparr>
           in (case seal_message x k j rng identity t1 grp epoch sq plaintext of
                 Inl e \<Rightarrow> Some (t1, Inl e)
               | Inr (envelope, payload) \<Rightarrow>
                   map_option (\<lambda>chunks. (t1, Inr (envelope, manifest_of chunks payload, chunks)))
                     (chunk_data x ChunkingConfig_default payload)))"

definition send_thread_message ::
    "crypto \<Rightarrow> codec \<Rightarrow> serde \<Rightarrow> (nat \<Rightarrow> bytes) \<Rightarrow> IdentityState \<Rightarrow> bytes \<Rightarrow> ThreadState \<Rightarrow>
      (ThreadState \<times> (ClientError + Envelope \<times> ChunkManifest \<times> Chunk list)) option" where
  "send_thread_message x k j rng identity plaintext t = encrypt_and_chunk_message x k j rng identity plaintext t"

section \<open>Opening\<close>

definition parse_envelope_payload :: "serde \<Rightarrow> bytes \<Rightarrow> ClientError + Envelope" where
  "parse_envelope_payload j payload =
    map_err core_error (Envelope_decode (sd_reader j) (sd_value j) (sd_access j) (sd_render j) payload)"

definition resolve_sender_verifying_key :: "codec \<Rightarrow> LocalState \<Rightarrow> string \<Rightarrow> ClientError + bytes" where
  "resolve_sender_verifying_key k s sender_user_id_hex =
    (case (case ls_identity s of
             Some identity \<Rightarrow> if id_user_id_hex identity = sender_user_id_hex then Some identity else None
           | None \<Rightarrow> None) of
       Some identity \<Rightarrow> bind_res (unhex k (id_verifying_key_hex identity)) (into_array SignatureInvalid 32)
     | None \<Rightarrow>
         bind_res (ok_or (UnknownSender sender_user_id_hex) (ls_contacts s sender_user_id_hex)) (\<lambda>contact.
         bind_res (unhex k (co_verifying_key_hex contact)) (into_array SignatureInvalid 32)))"

definition verify_envelope_signature :: "crypto \<Rightarrow> codec \<Rightarrow> Envelope \<Rightarrow> bytes \<Rightarrow> ClientError + unit" where
  "verify_envelope_signature x k envelope verifying_key =
    bind_res (ok_or MissingSignature (env_signature envelope)) (\<lambda>signature_bytes.
    bind_res (into_array SignatureInvalid 64 signature_bytes) (\<lambda>signature.
    bind_res (map_err (\<lambda>_. SignatureInvalid) (cx_verifying_key k verifying_key)) (\<lambda>_.
    bind_res (map_err core_error (hash_ctap2_cbor_value x Sha256 (Envelope_to_cbor (envelope\<lparr>env_signature := None\<rparr>)))) (\<lambda>hash.
    map_err (\<lambda>_. SignatureInvalid) (ed25519_verify_hash x verifying_key hash signature)))))"

text \<open>The checks before the group is rebuilt, and what follows.\<close>

definition check_envelope_sender :: "crypto \<Rightarrow> codec \<Rightarrow> LocalState \<Rightarrow> ThreadState \<Rightarrow> Envelope \<Rightarrow> ClientError + unit" where
  "check_envelope_sender x k s t envelope =
    (if th_thread_id_hex t \<noteq> cx_hex k (env_thread_id envelope) then Inl ThreadNotFound
     else if cx_hex k (env_sender_user_id envelope) \<notin> set (th_members t) then Inl UnauthorizedSender
     else bind_res (resolve_sender_verifying_key k s (cx_hex k (env_sender_user_id envelope)))
       (verify_envelope_signature x k envelope))"

definition open_envelope :: "crypto \<Rightarrow> codec \<Rightarrow> serde \<Rightarrow> ThreadState \<Rightarrow> Group \<Rightarrow> Envelope \<Rightarrow> ClientError + bytes" where
  "open_envelope x k j t grp envelope =
    bind_res (unhex k (th_thread_id_hex t)) (\<lambda>thread_id_bytes.
    bind_res (map_err core_error (to_fixed 32 thread_id_bytes)) (\<lambda>thread_id.
    bind_res (unhex k (th_cfg_hash_hex t)) (\<lambda>cfg_hash_bytes.
    bind_res (map_err core_error (to_fixed 32 cfg_hash_bytes)) (\<lambda>cfg_hash.
    let ad = build_ad thread_id (env_epoch envelope) cfg_hash (thread_suite t) (env_seq envelope)
          (derive_sender_ad_id x (env_sender_user_id envelope))
    in decrypt_payload_with_aead x j (sec_group_secret (g_secrets grp)) (env_ciphertext envelope) ad))))"

definition decrypt_thread_envelope ::
    "crypto \<Rightarrow> codec \<Rightarrow> serde \<Rightarrow> LocalState \<Rightarrow> ThreadState \<Rightarrow> Envelope \<Rightarrow> (ClientError + bytes) option" where
  "decrypt_thread_envelope x k j s t envelope =
    (case check_envelope_sender x k s t envelope of
       Inl e \<Rightarrow> Some (Inl e)
     | Inr _ \<Rightarrow>
         (case rebuild_thread_group x k t of
            None \<Rightarrow> None
          | Some (Inl e) \<Rightarrow> Some (Inl e)
          | Some (Inr grp) \<Rightarrow> Some (open_envelope x k j t grp envelope)))"

section \<open>Thread states\<close>

datatype MlsThreadEventKind = Rekey | MembershipUpdated | MembershipRemoved

record MlsThreadEvent =
  ev_thread_id_hex :: string
  ev_epoch :: u64
  ev_kind :: MlsThreadEventKind
  ev_member_id :: "string option"

text \<open>The events are those handed to the callback, in order.\<close>

definition add_thread_member :: "string \<Rightarrow> u64 \<Rightarrow> string list \<times> MlsThreadEvent list \<Rightarrow> string \<Rightarrow> string list \<times> MlsThreadEvent list" where
  "add_thread_member thread_id_hex epoch me member =
    (if member \<in> set (fst me) then me
     else (fst me @ [member], snd me @ [\<lparr>ev_thread_id_hex = thread_id_hex, ev_epoch = epoch,
       ev_kind = MembershipUpdated, ev_member_id = Some member\<rparr>]))"

definition remove_thread_member :: "string \<Rightarrow> u64 \<Rightarrow> string list \<times> MlsThreadEvent list \<Rightarrow> string \<Rightarrow> string list \<times> MlsThreadEvent list" where
  "remove_thread_member thread_id_hex epoch me member =
    (if member \<in> set (fst me)
     then (remove1 member (fst me), snd me @ [\<lparr>ev_thread_id_hex = thread_id_hex, ev_epoch = epoch,
       ev_kind = MembershipRemoved, ev_member_id = Some member\<rparr>])
     else me)"

definition apply_thread_commit_with_events ::
    "Commit \<Rightarrow> ThreadState \<Rightarrow> ThreadState \<times> MlsThreadEvent list \<times> (ClientError + unit)" where
  "apply_thread_commit_with_events c t =
    (if cm_epoch c \<noteq> th_epoch t + 1 then
       (t, [], Inl (Mls (''out-of-order commit: expected epoch '' @ show_nat (unat (th_epoch t + 1)) @
          '', received '' @ show_nat (unat (cm_epoch c)))))
     else
       let added = foldl (add_thread_member (th_thread_id_hex t) (cm_epoch c)) (th_members t, []) (cm_added_members c);
           removed = foldl (remove_thread_member (th_thread_id_hex t) (cm_epoch c)) added (cm_removed_members c)
       in (t\<lparr>th_members := fst removed, th_epoch := cm_epoch c\<rparr>,
           snd removed @ [\<lparr>ev_thread_id_hex = th_thread_id_hex t, ev_epoch = cm_epoch c, ev_kind = Rekey,
             ev_member_id = None\<rparr>],
           Inr ()))"

definition create_thread_state ::
    "crypto \<Rightarrow> codec \<Rightarrow> entropy \<Rightarrow> u64 \<Rightarrow> IdentityState \<Rightarrow> string list \<Rightarrow> (ClientError + ThreadState) option" where
  "create_thread_state x k rnd now identity members =
    (let members = (if id_user_id_hex identity \<in> set members then members else members @ [id_user_id_hex identity]);
         thread_id = random_hex k (rnd 0) 32;
         suite = \<lparr>ps_major = 1, ps_minor = 1, ps_ciphersuite_id = 1\<rparr>
     in case build_thread_cfg_hash x k thread_id suite of
          Inl e \<Rightarrow> Some (Inl e)
        | Inr cfg_hash \<Rightarrow>
            (let initial_secret = random_hex k (rnd 1) 32
             in map_option (map_res (\<lambda>grp.
                  \<lparr>th_thread_id_hex = thread_id, th_members = members, th_created_at = now, th_messages = [],
                   th_proto_major = ps_major suite, th_proto_minor = ps_minor suite,
                   th_ciphersuite_id = ps_ciphersuite_id suite, th_cfg_hash_id = 1, th_cfg_hash_hex = cx_hex k cfg_hash,
                   th_flags = 0, th_initial_secret_hex = initial_secret, th_next_seq = 0, th_epoch = g_epoch grp\<rparr>))
                (build_group_for_members x k members cfg_hash initial_secret suite)))"

definition create_thread_for_state ::
    "crypto \<Rightarrow> codec \<Rightarrow> entropy \<Rightarrow> u64 \<Rightarrow> string list \<Rightarrow> LocalState \<Rightarrow> (LocalState \<times> (ClientError + string)) option" where
  "create_thread_for_state x k rnd now members s =
    (case clone_identity_from_state s of
       Inl e \<Rightarrow> Some (s, Inl e)
     | Inr identity \<Rightarrow>
         map_option (\<lambda>r. case r of
             Inl e \<Rightarrow> (s, Inl e)
           | Inr t \<Rightarrow> (s\<lparr>ls_threads := (ls_threads s)(th_thread_id_hex t \<mapsto> t)\<rparr>, Inr (th_thread_id_hex t)))
         (create_thread_state x k rnd now identity members))"

definition inbox_keys_for_thread :: "codec \<Rightarrow> ThreadState \<Rightarrow> string \<Rightarrow> ClientError + bytes list" where
  "inbox_keys_for_thread k t sender_user_id_hex =
    traverse (unhex k) (filter (\<lambda>member. member \<noteq> sender_user_id_hex) (th_members t))"

section \<open>A sealed message is opened by the other members\<close>

text \<open>Threads that stand for the same group; messages, sequence number and epoch are each member's own.\<close>

definition same_group :: "ThreadState \<Rightarrow> ThreadState \<Rightarrow> bool" where
  "same_group t t' \<longleftrightarrow> th_thread_id_hex t' = th_thread_id_hex t \<and> th_members t' = th_members t \<and>
    th_cfg_hash_hex t' = th_cfg_hash_hex t \<and> th_initial_secret_hex t' = th_initial_secret_hex t \<and>
    thread_suite t' = thread_suite t"

lemma same_group_rebuild: "same_group t t' \<Longrightarrow> rebuild_thread_group x k t' = rebuild_thread_group x k t"
  by (simp add: same_group_def rebuild_thread_group_def split: sum.split)

lemma aead_round_trip:
  assumes "aead_correct x" "length (rng 12) = 12" "encrypt_payload_with_aead x j rng secret plaintext ad = Inr c"
  shows "decrypt_payload_with_aead x j secret c ad = Inr plaintext"
  using assms by (auto simp: encrypt_payload_with_aead_def decrypt_payload_with_aead_def aead_correct_def Let_def
      split: if_splits)

lemma built_envelope:
  assumes "build_envelope x k identity t epoch sq c = Inr envelope"
  obtains thread_id sender seed b where
    "cx_unhex k (th_thread_id_hex t) = Inr thread_id" "cx_unhex k (id_user_id_hex identity) = Inr sender"
    "signing_key_from_hex k (id_signing_key_hex identity) = Inr seed" "length seed = 32"
    "ctap2_canonical_value_bytes (Envelope_to_cbor (envelope\<lparr>env_signature := None\<rparr>)) = Inr b"
    "envelope = \<lparr>env_thread_id = thread_id, env_epoch = epoch, env_seq = sq, env_sender_user_id = sender,
      env_ciphertext = c, env_signature = Some (x_sign x seed (x_sha256 x b)), env_extensions = []\<rparr>"
  using assms
  by (auto simp: build_envelope_def unhex_def hash_ctap2_cbor_value_def ed25519_sign_hash_def hash_bytes_def
      signing_key_from_hex_def into_array_def Let_def split: if_splits)

text \<open>What a message that was sealed for a thread carries.\<close>

lemma encrypted_message:
  assumes "encrypt_and_chunk_message x k j rng identity plaintext t = Some (t1, Inr (envelope, manifest, chunks))"
  obtains grp payload where "rebuild_thread_group x k t = Some (Inr grp)"
    "seal_message x k j rng identity t1 grp (ucast (g_epoch grp)) (th_next_seq t) plaintext = Inr (envelope, payload)"
    "chunk_data x ChunkingConfig_default payload = Some chunks" "manifest = manifest_of chunks payload"
    "ctap2_canonical_value_bytes (Envelope_to_cbor envelope) = Inr payload"
    "t1 = t\<lparr>th_next_seq := sat_add (th_next_seq t) 1, th_epoch := g_epoch grp\<rparr>"
  using assms
  by (auto simp: encrypt_and_chunk_message_def seal_message_def Let_def split: option.splits sum.splits if_splits prod.splits)

lemma sealed_message_opens:
  assumes laws: "aead_correct x" "codec_correct k" "length (rng 12) = 12"
    and seal: "seal_message x k j rng identity t grp epoch sq plaintext = Inr (envelope, payload)"
    and same: "same_group t t'"
  shows "open_envelope x k j t' grp envelope = Inr plaintext"
proof -
  from seal obtain thread_id cfg_hash sender c where
    ids: "cx_unhex k (th_thread_id_hex t) = Inr thread_id" "length thread_id = 32"
      "cx_unhex k (th_cfg_hash_hex t) = Inr cfg_hash" "length cfg_hash = 32"
      "cx_unhex k (id_user_id_hex identity) = Inr sender"
    and c: "encrypt_payload_with_aead x j rng (sec_group_secret (g_secrets grp)) plaintext
      (build_ad thread_id epoch cfg_hash (thread_suite t) sq (derive_sender_ad_id x sender)) = Inr c"
    and env: "build_envelope x k identity t epoch sq c = Inr envelope"
    by (auto simp: seal_message_def unhex_def to_fixed_def Let_def split: if_splits)
  obtain thread_id' sender' seed b where "cx_unhex k (id_user_id_hex identity) = Inr sender'"
    "envelope = \<lparr>env_thread_id = thread_id', env_epoch = epoch, env_seq = sq, env_sender_user_id = sender',
      env_ciphertext = c, env_signature = Some (x_sign x seed (x_sha256 x b)), env_extensions = []\<rparr>"
    by (rule built_envelope [OF env])
  then have "env_epoch envelope = epoch" "env_seq envelope = sq" "env_sender_user_id envelope = sender" "env_ciphertext envelope = c"
    using ids(5) by simp_all
  with ids same aead_round_trip [OF laws(1,3) c] show ?thesis
    by (simp add: open_envelope_def same_group_def unhex_def to_fixed_def)
qed

text \<open>The receiver knows the sender as a member of the thread, with the sender's verifying key.\<close>

definition knows_sender :: "codec \<Rightarrow> LocalState \<Rightarrow> ThreadState \<Rightarrow> string \<Rightarrow> bytes \<Rightarrow> bool" where
  "knows_sender k s t sender_user_id_hex verifying_key \<longleftrightarrow>
    sender_user_id_hex \<in> set (th_members t) \<and> resolve_sender_verifying_key k s sender_user_id_hex = Inr verifying_key"

lemma sealed_message_decrypted:
  assumes laws: "aead_correct x" "codec_correct k" "ed25519_correct x" "ed25519_sizes x k" "length (rng 12) = 12"
    and sent: "encrypt_and_chunk_message x k j rng identity plaintext t = Some (t1, Inr (envelope, manifest, chunks))"
    and names: "th_thread_id_hex t = cx_hex k thread_id" "id_user_id_hex identity = cx_hex k sender"
      "signing_key_from_hex k (id_signing_key_hex identity) = Inr seed"
    and receiver: "same_group t t'" "knows_sender k s t' (cx_hex k sender) (x_verifying_key x seed)"
  shows "decrypt_thread_envelope x k j s t' envelope = Some (Inr plaintext)"
    and "env_thread_id envelope = thread_id" "env_sender_user_id envelope = sender"
proof -
  obtain grp payload where grp: "rebuild_thread_group x k t = Some (Inr grp)"
    and seal: "seal_message x k j rng identity t1 grp (ucast (g_epoch grp)) (th_next_seq t) plaintext = Inr (envelope, payload)"
    and t1: "t1 = t\<lparr>th_next_seq := sat_add (th_next_seq t) 1, th_epoch := g_epoch grp\<rparr>"
    using encrypted_message [OF sent] by metis
  have same: "same_group t1 t'" using receiver(1) by (simp add: t1 same_group_def thread_suite_def)
  have hex: "cx_unhex k (cx_hex k b) = Inr b" for b using laws(2) by (simp add: codec_correct_def)
  obtain c where env: "build_envelope x k identity t1 (ucast (g_epoch grp)) (th_next_seq t) c = Inr envelope"
    using seal by (auto simp: seal_message_def Let_def)
  obtain thread_id' sender' seed' b where
    unhex: "cx_unhex k (th_thread_id_hex t1) = Inr thread_id'" "cx_unhex k (id_user_id_hex identity) = Inr sender'"
      "signing_key_from_hex k (id_signing_key_hex identity) = Inr seed'" "length seed' = 32"
    and b: "ctap2_canonical_value_bytes (Envelope_to_cbor (envelope\<lparr>env_signature := None\<rparr>)) = Inr b"
    and envelope: "envelope = \<lparr>env_thread_id = thread_id', env_epoch = ucast (g_epoch grp), env_seq = th_next_seq t,
      env_sender_user_id = sender', env_ciphertext = c, env_signature = Some (x_sign x seed' (x_sha256 x b)),
      env_extensions = []\<rparr>"
    by (rule built_envelope [OF env])
  have fields: "env_thread_id envelope = thread_id" "env_sender_user_id envelope = sender"
      "env_signature envelope = Some (x_sign x seed (x_sha256 x b))" and seed: "length seed = 32"
    using unhex names by (simp_all add: envelope t1 hex)
  have "check_envelope_sender x k s t' envelope = Inr ()"
    using receiver laws(3,4) seed b names(1)
    by (simp add: check_envelope_sender_def knows_sender_def same_group_def fields verify_envelope_signature_def into_array_def
        ed25519_sizes_def hash_ctap2_cbor_value_def hash_bytes_def ed25519_verify_hash_def ed25519_correct_def)
  then show "decrypt_thread_envelope x k j s t' envelope = Some (Inr plaintext)"
    using same_group_rebuild [OF receiver(1)] grp sealed_message_opens [OF laws(1,2,5) seal same]
    by (simp add: decrypt_thread_envelope_def)
  show "env_thread_id envelope = thread_id" "env_sender_user_id envelope = sender" by (rule fields)+
qed

lemma envelope_plain: "env_extensions e = [] \<Longrightarrow> plain 256 (Envelope_to_cbor e)"
proof -
  assume "env_extensions e = []"
  then have "plain (Suc (Suc n)) (Envelope_to_cbor e)" for n
    by (cases "env_signature e") (simp_all add: Envelope_to_cbor_def Envelope_fields_def Envelope_base_def map_to_cbor_def
        key_to_cbor_def insert_opt_def btree_extend_def)
  from this [of 254] have "plain (Suc (Suc 254)) (Envelope_to_cbor e)" .
  moreover have "Suc (Suc 254) = 256" by simp
  ultimately show ?thesis by metis
qed

text \<open>The CBOR reader of the client is conforming.\<close>

definition cbor_laws :: "serde \<Rightarrow> bool" where
  "cbor_laws j \<longleftrightarrow> cbor_conforms (sd_reader j) \<and> map_access_conforms (sd_value j) (sd_access j)"

lemma parse_sent_payload:
  assumes "cbor_laws j" "env_extensions e = []" "ctap2_canonical_value_bytes (Envelope_to_cbor e) = Inr payload"
  shows "parse_envelope_payload j payload = Inr e"
proof -
  have ext: "ext_ok 6 (env_extensions e)" and none: "canon_fields (env_extensions e) = env_extensions e"
    by (simp_all add: assms(2) ext_ok_def btree_ok_def canon_fields_def)
  have "cbor_conforms (sd_reader j)" "map_access_conforms (sd_value j) (sd_access j)"
    using assms(1) by (simp_all add: cbor_laws_def)
  from decode_encoded_envelope [OF this ext envelope_plain [OF assms(2)] assms(3), of "sd_render j"]
  show ?thesis by (simp add: parse_envelope_payload_def none)
qed

section \<open>A message can always be sealed\<close>

text \<open>ChaCha20-Poly1305 seals every message of less than 4 GiB and adds a tag of 16 bytes.\<close>

definition aead_seals :: "crypto \<Rightarrow> bool" where
  "aead_seals x \<longleftrightarrow> (\<forall>key nonce ad p. length key = 32 \<and> length nonce = 12 \<and> length p < 2 ^ 32 \<longrightarrow>
    (\<exists>c. x_seal x key nonce ad p = Some c \<and> length c = length p + 16))"

definition thread_ok :: "codec \<Rightarrow> string \<Rightarrow> ThreadState \<Rightarrow> bool" where
  "thread_ok k h t \<longleftrightarrow> th_thread_id_hex t = h \<and> hex_of k 32 h \<and> hex_of k 32 (th_cfg_hash_hex t) \<and>
    hex_of k 32 (th_initial_secret_hex t) \<and> th_cfg_hash_id t = 1 \<and> th_flags t = 0"

lemma members_added:
  assumes "group_inv g"
  shows "\<exists>g'. add_members x g ms = Some (Inr g') \<and> g_epoch g' = g_epoch g + word_of_nat (length ms)"
  using assms
proof (induction ms arbitrary: g)
  case (Cons m ms)
  let ?c = "(Commit_new (g_epoch g + 1))\<lparr>cm_added_members := [m]\<rparr>"
  have "benign ?c" by (simp add: benign_def Commit_new_def)
  moreover have "cm_epoch ?c = g_epoch g + 1" by (simp add: Commit_new_def)
  ultimately obtain g1 ctx where g1: "apply_commit x g ?c = Some (g1, Inr ctx)" "group_inv g1" "g_epoch g1 = g_epoch g + 1"
    using apply_commit_succeeds [OF Cons.prems] by metis
  then show ?case using Cons.IH [OF g1(2)] by (simp add: add_member_def algebra_simps)
qed simp

text \<open>The group of a well-formed thread can always be rebuilt, at the epoch of its number of members.\<close>

lemma group_built:
  assumes "codec_correct k" "length cfg_hash \<le> 255"
  shows "\<exists>grp. build_group_for_members x k members cfg_hash (cx_hex k secret) suite = Some (Inr grp) \<and>
    g_epoch grp = word_of_nat (length members)"
proof -
  let ?config = "with_initial_secret secret (GroupConfig_new suite 0 1 cfg_hash)"
  have "rebuild_extensions \<lparr>ctx_proto_suite = suite, ctx_flags = 0, ctx_cfg_hash_id = 1, ctx_cfg_hash = cfg_hash,
      ctx_extensions = []\<rparr> \<noteq> None"
    using assms(2) by (simp add: rebuild_None_iff)
  then obtain g where g: "Group_create x ?config = Some (Inr g)" "g_epoch g = 0"
    by (auto simp: Group_create_def with_initial_secret_def GroupConfig_new_def hash_id_from_u16_def Let_def)
  from members_added [OF group_inv_create [OF g(1)], of x members] assms(1) g show ?thesis
    by (auto simp: build_group_for_members_def unhex_hex)
qed

lemma thread_group_built:
  assumes "codec_correct k" "thread_ok k h t"
  shows "\<exists>grp. rebuild_thread_group x k t = Some (Inr grp) \<and> g_epoch grp = word_of_nat (length (th_members t))"
proof -
  obtain cfg_hash secret where t: "th_cfg_hash_hex t = cx_hex k cfg_hash" "length cfg_hash = 32"
    "th_initial_secret_hex t = cx_hex k secret"
    using assms(2) by (auto simp: thread_ok_def hex_of_def)
  with group_built [OF assms(1), of cfg_hash x "th_members t" secret "thread_suite t"] assms(1) show ?thesis
    by (simp add: rebuild_thread_group_def unhex_hex)
qed

lemma envelope_size:
  assumes "env_extensions e = []" "ctap2_canonical_value_bytes (Envelope_to_cbor e) = Inr b"
  shows "length b \<le> 117 + length (env_thread_id e) + length (env_sender_user_id e) + length (env_ciphertext e) +
    (case env_signature e of None \<Rightarrow> 0 | Some sig \<Rightarrow> length sig)"
proof -
  have "length b \<le> 9 + sum_list (map (\<lambda>f. length (enc_bytes (key_to_cbor (fst f))) + length (enc_bytes (snd f))) (Envelope_fields e))"
    using encode_map_size [of "map (\<lambda>(k, v). (key_to_cbor k, v)) (Envelope_fields e)" b] assms(2)
    by (simp add: ctap2_canonical_value_bytes_def Envelope_to_cbor_def map_to_cbor_def comp_def split_beta)
  moreover have "length (enc_bytes (key_to_cbor w)) \<le> 9" for w by (simp add: key_to_cbor_def encode_integer_size)
  note this [of 0] this [of 1] this [of 2] this [of 3] this [of 4] this [of 5] encode_integer_size [of "uint (env_seq e)"]
    encode_integer_size [of "uint (env_epoch e)"] encode_bytes_size [of "env_thread_id e"]
    encode_bytes_size [of "env_sender_user_id e"] encode_bytes_size [of "env_ciphertext e"]
    encode_bytes_size [of "the (env_signature e)"]
  ultimately show ?thesis
    using assms(1) by (cases "env_signature e") (simp_all add: Envelope_fields_def Envelope_base_def insert_opt_def btree_extend_def)
qed

lemma envelope_encodable:
  assumes "env_extensions e = []" "length (env_thread_id e) = 32" "length (env_sender_user_id e) = 32"
    "length (env_ciphertext e) < 2 ^ 64" "\<And>sig. env_signature e = Some sig \<Longrightarrow> length sig = 64"
  shows "\<exists>b. ctap2_canonical_value_bytes (Envelope_to_cbor e) = Inr b"
proof -
  have "uint (w :: u64) < 2 ^ 64" "- (2 ^ 64) \<le> uint w" for w
    using uint_bounded [of w] by (auto intro: order_trans [OF _ uint_ge_0])
  moreover have "uint (w :: u32) < 2 ^ 64" "- (2 ^ 64) \<le> uint w" for w
    using uint_bounded [of w] by (auto intro: order_trans [OF _ uint_ge_0])
  ultimately have "encodable (Envelope_to_cbor e)"
    using assms by (cases "env_signature e") (simp_all add: Envelope_to_cbor_def Envelope_fields_def Envelope_base_def
        map_to_cbor_def key_to_cbor_def insert_opt_def btree_extend_def)
  then show ?thesis by (simp add: ctap2_canonical_value_bytes_def encodable_ok)
qed

lemma seal_succeeds:
  assumes laws: "sha256_len x" "aead_seals x" "codec_correct k" "ed25519_sizes x k" "length (rng 12) = 12"
    and ok: "identity_ok x k identity" "thread_ok k h t" "length plaintext < 2 ^ 32"
  shows "\<exists>envelope payload. seal_message x k j rng identity t grp epoch sq plaintext = Inr (envelope, payload) \<and>
    length payload \<le> length plaintext + 273"
proof -
  obtain user seed where identity: "length user = 32" "length seed = 32" "id_user_id_hex identity = cx_hex k user"
    "signing_key_from_hex k (id_signing_key_hex identity) = Inr seed"
    by (rule identity_keys [OF laws(3) ok(1)])
  obtain thread_id cfg_hash where t: "length thread_id = 32" "th_thread_id_hex t = cx_hex k thread_id"
    "length cfg_hash = 32" "th_cfg_hash_hex t = cx_hex k cfg_hash"
    using ok(2) by (auto simp: thread_ok_def hex_of_def)
  let ?ad = "build_ad thread_id epoch cfg_hash (thread_suite t) sq (derive_sender_ad_id x user)"
  obtain c where c: "x_seal x (x_sha256 x (sec_group_secret (g_secrets grp))) (rng 12) ?ad plaintext = Some c"
    "length c = length plaintext + 16"
    using laws(1,2,5) ok(3) unfolding aead_seals_def sha256_len_def by blast
  have sealed: "encrypt_payload_with_aead x j rng (sec_group_secret (g_secrets grp)) plaintext ?ad = Inr (rng 12 @ c)"
    using laws(1) c(1) by (simp add: encrypt_payload_with_aead_def hash_bytes_def sha256_len_def Let_def)
  let ?e = "\<lambda>sig. \<lparr>env_thread_id = thread_id, env_epoch = epoch, env_seq = sq, env_sender_user_id = user,
    env_ciphertext = rng 12 @ c, env_signature = sig, env_extensions = []\<rparr>"
  have short: "length (env_ciphertext (?e sig)) = length plaintext + 28" for sig using laws(5) c(2) by simp
  obtain b where b: "ctap2_canonical_value_bytes (Envelope_to_cbor (?e None)) = Inr b"
    using envelope_encodable [of "?e None"] identity(1) t(1) short [of None] ok(3) by auto
  let ?sig = "x_sign x seed (x_sha256 x b)"
  have sig: "length ?sig = 64" using laws(4) identity(2) by (simp add: ed25519_sizes_def)
  obtain payload where payload: "ctap2_canonical_value_bytes (Envelope_to_cbor (?e (Some ?sig))) = Inr payload"
    using envelope_encodable [of "?e (Some ?sig)"] identity(1) t(1) short [of "Some ?sig"] ok(3) sig by auto
  have "build_envelope x k identity t epoch sq (rng 12 @ c) = Inr (?e (Some ?sig))"
    using identity(3,4) t(2) b laws(3)
    by (simp add: build_envelope_def unhex_hex hash_ctap2_cbor_value_def hash_bytes_def ed25519_sign_hash_def Let_def)
  then have "seal_message x k j rng identity t grp epoch sq plaintext = Inr (?e (Some ?sig), payload)"
    using identity(3) t sealed payload laws(3) by (simp add: seal_message_def unhex_hex to_fixed_def)
  moreover have "length payload \<le> length plaintext + 273"
    using envelope_size [OF _ payload] identity(1) t(1) sig short [of "Some ?sig"] by simp
  ultimately show ?thesis by blast
qed

lemma message_encrypted:
  assumes laws: "sha256_len x" "aead_seals x" "codec_correct k" "ed25519_sizes x k" "length (rng 12) = 12"
    and ok: "identity_ok x k identity" "thread_ok k h t" "length plaintext < 2 ^ 32" "length (th_members t) < 2 ^ 32"
  obtains t1 envelope manifest chunks payload where
    "encrypt_and_chunk_message x k j rng identity plaintext t = Some (t1, Inr (envelope, manifest, chunks))"
    "ctap2_canonical_value_bytes (Envelope_to_cbor envelope) = Inr payload" "length payload \<le> length plaintext + 273"
    "th_members t1 = th_members t"
proof -
  obtain grp where grp: "rebuild_thread_group x k t = Some (Inr grp)" "g_epoch grp = word_of_nat (length (th_members t))"
    using thread_group_built [OF laws(3) ok(2), of x] by auto
  have epoch: "g_epoch grp \<le> 0xffffffff" using grp(2) ok(4) by (simp add: word_le_nat_alt unat_of_nat)
  let ?t1 = "t\<lparr>th_next_seq := sat_add (th_next_seq t) 1, th_epoch := g_epoch grp\<rparr>"
  have "thread_ok k h ?t1" using ok(2) by (simp add: thread_ok_def)
  from seal_succeeds [where rng = rng, OF laws ok(1) this ok(3), of j grp "ucast (g_epoch grp)" "th_next_seq t"]
  obtain envelope payload where seal: "seal_message x k j rng identity ?t1 grp (ucast (g_epoch grp)) (th_next_seq t) plaintext =
      Inr (envelope, payload)" "length payload \<le> length plaintext + 273"
    by blast
  have "chunk_data x ChunkingConfig_default payload \<noteq> None"
    by (simp add: chunk_data_def ChunkingConfig_default_def)
  then obtain chunks where "chunk_data x ChunkingConfig_default payload = Some chunks" by blast
  then have sent: "encrypt_and_chunk_message x k j rng identity plaintext t =
      Some (?t1, Inr (envelope, manifest_of chunks payload, chunks))"
    using grp(1) epoch seal(1) by (simp add: encrypt_and_chunk_message_def not_less [symmetric] Let_def)
  have "ctap2_canonical_value_bytes (Envelope_to_cbor envelope) = Inr payload"
    using seal(1) by (auto simp: seal_message_def Let_def)
  from sent this seal(2) show ?thesis by (rule that) simp
qed

end
