(* ===== verification/Client_Inbox.thy ===== *)
theory Client_Inbox
  imports Client_Thread
begin

text \<open>
  Sending and receiving in the client library, \<open>spex-client/src/lib.rs\<close>: the outbox, the local transport
  cache, the inbox with its fallback to the bridge, and the messages recorded in a thread.

  The HTTP bridge is a function of its own state, as in the bridge client; its base URL stands for the
  client object.
\<close>

section \<open>Outgoing messages\<close>

definition manifest_state :: "codec \<Rightarrow> ChunkManifest \<Rightarrow> TransportManifestState" where
  "manifest_state k manifest =
    \<lparr>tms_total_len = cm_total_len manifest,
     tms_chunks = map (\<lambda>chunk. \<lparr>cds_index = cd_index chunk, cds_hash_hex = cx_hex k (cd_hash chunk)\<rparr>) (cm_chunks manifest)\<rparr>"

definition chunk_states :: "codec \<Rightarrow> Chunk list \<Rightarrow> TransportChunkState list" where
  "chunk_states k chunks =
    map (\<lambda>chunk. \<lparr>tcs_index = ch_index chunk, tcs_hash_hex = cx_hex k (ch_hash chunk),
                  tcs_data_base64 = cx_b64 k (ch_data chunk)\<rparr>) chunks"

definition publish_thread_message_transport ::
    "crypto \<Rightarrow> codec \<Rightarrow> serde \<Rightarrow> (nat \<Rightarrow> bytes) \<Rightarrow> u64 \<Rightarrow> IdentityState \<Rightarrow> bytes \<Rightarrow> ThreadState \<Rightarrow>
      (ThreadState \<times> (ClientError + Envelope \<times> ChunkManifest \<times> Chunk list \<times> TransportOutboxItem)) option" where
  "publish_thread_message_transport x k j rng now identity plaintext t =
    map_option (\<lambda>(t', r).
        (t', map_res (\<lambda>(envelope, manifest, chunks).
               (envelope, manifest, chunks,
                \<lparr>ob_thread_id_hex = th_thread_id_hex t', ob_manifest = manifest_state k manifest,
                 ob_chunks = chunk_states k chunks, ob_published_at = now\<rparr>)) r))
      (encrypt_and_chunk_message x k j rng identity plaintext t)"

definition publish_thread_message ::
    "crypto \<Rightarrow> codec \<Rightarrow> serde \<Rightarrow> (nat \<Rightarrow> bytes) \<Rightarrow> u64 \<Rightarrow> IdentityState \<Rightarrow> bytes \<Rightarrow> ThreadState \<Rightarrow>
      (ThreadState \<times> (ClientError + Envelope \<times> TransportOutboxItem)) option" where
  "publish_thread_message x k j rng now identity plaintext t =
    map_option (\<lambda>(t', r).
        (t', map_res (\<lambda>(envelope, manifest, chunks).
               (envelope,
                \<lparr>ob_thread_id_hex = th_thread_id_hex t', ob_manifest = manifest_state k manifest,
                 ob_chunks = chunk_states k chunks, ob_published_at = now\<rparr>)) r))
      (encrypt_and_chunk_message x k j rng identity plaintext t)"

section \<open>The local transport cache\<close>

text \<open>\<open>map.entry(key).or_default().push(value)\<close>\<close>

definition push_entry :: "string \<Rightarrow> string \<Rightarrow> (string \<rightharpoonup> string list) \<Rightarrow> (string \<rightharpoonup> string list)" where
  "push_entry key v m = m(key \<mapsto> (case m key of None \<Rightarrow> [] | Some vs \<Rightarrow> vs) @ [v])"

definition inbox_key_hex :: "crypto \<Rightarrow> codec \<Rightarrow> bytes \<Rightarrow> string" where
  "inbox_key_hex x k inbox_scan_key = cx_hex k (sr_hashed_key (derive_inbox_scan_key x Sha256 inbox_scan_key))"

text \<open>The loop over the members, which both kinds of staging share: every member but the sender gets the
  item under the key derived from its identifier.\<close>

primrec stage_for_members ::
    "crypto \<Rightarrow> codec \<Rightarrow> string \<Rightarrow> string \<Rightarrow> string list \<Rightarrow> (string \<rightharpoonup> string list) \<Rightarrow> (string \<rightharpoonup> string list) \<times> (ClientError + unit)" where
  "stage_for_members x k sender_user_id_hex item [] m = (m, Inr ())"
| "stage_for_members x k sender_user_id_hex item (member # members) m =
    (if member = sender_user_id_hex then stage_for_members x k sender_user_id_hex item members m
     else case unhex k member of
            Inl e \<Rightarrow> (m, Inl e)
          | Inr member_bytes \<Rightarrow>
              stage_for_members x k sender_user_id_hex item members (push_entry (inbox_key_hex x k member_bytes) item m))"

definition stage_p2p_inbox_delivery ::
    "crypto \<Rightarrow> codec \<Rightarrow> ThreadState \<Rightarrow> string \<Rightarrow> Envelope \<Rightarrow> LocalState \<Rightarrow> LocalState \<times> (ClientError + unit)" where
  "stage_p2p_inbox_delivery x k t sender_user_id_hex envelope s =
    (case map_err core_error (ctap2_canonical_value_bytes (Envelope_to_cbor envelope)) of
       Inl e \<Rightarrow> (s, Inl e)
     | Inr payload \<Rightarrow>
         (let (m, r) = stage_for_members x k sender_user_id_hex (cx_b64 k payload) (th_members t) (ls_p2p_inbox s)
          in (s\<lparr>ls_p2p_inbox := m\<rparr>, r)))"

definition transport_error :: "TransportError \<Rightarrow> ClientError" where
  "transport_error e = CTransport (TransportError_to_string e)"

text \<open>\<open>entry(hash).or_insert_with(...)\<close> for every chunk.\<close>

definition store_chunk :: "codec \<Rightarrow> (string \<rightharpoonup> string) \<Rightarrow> Chunk \<Rightarrow> (string \<rightharpoonup> string)" where
  "store_chunk k m chunk =
    (let key = cx_hex k (ch_hash chunk)
     in if m key = None then m(key \<mapsto> cx_b64 k (ch_data chunk)) else m)"

definition stage_transport_delivery_for_members ::
    "crypto \<Rightarrow> codec \<Rightarrow> serde \<Rightarrow> string list \<Rightarrow> string \<Rightarrow> ChunkManifest \<Rightarrow> Chunk list \<Rightarrow> LocalState \<Rightarrow> LocalState \<times> (ClientError + unit)" where
  "stage_transport_delivery_for_members x k j members sender_user_id_hex manifest chunks s =
    (case map_err transport_error (manifest_payload (sd_manifest j) manifest) of
       Inl e \<Rightarrow> (s, Inl e)
     | Inr payload \<Rightarrow>
         (case stage_for_members x k sender_user_id_hex (cx_b64 k payload) members (ls_transport_gossip s) of
            (m, Inl e) \<Rightarrow> (s\<lparr>ls_transport_gossip := m\<rparr>, Inl e)
          | (m, Inr _) \<Rightarrow>
              (s\<lparr>ls_transport_gossip := m,
                 ls_transport_chunk_store := foldl (store_chunk k) (ls_transport_chunk_store s) chunks\<rparr>, Inr ())))"

definition stage_transport_delivery ::
    "crypto \<Rightarrow> codec \<Rightarrow> serde \<Rightarrow> ThreadState \<Rightarrow> string \<Rightarrow> ChunkManifest \<Rightarrow> Chunk list \<Rightarrow> LocalState \<Rightarrow> LocalState \<times> (ClientError + unit)" where
  "stage_transport_delivery x k j t sender_user_id_hex manifest chunks s =
    stage_transport_delivery_for_members x k j (th_members t) sender_user_id_hex manifest chunks s"

definition transport_inbox_has_items :: "crypto \<Rightarrow> codec \<Rightarrow> LocalState \<Rightarrow> bytes \<Rightarrow> bool" where
  "transport_inbox_has_items x k s inbox_scan_key =
    (case ls_transport_gossip s (inbox_key_hex x k inbox_scan_key) of Some items \<Rightarrow> items \<noteq> [] | None \<Rightarrow> False)"

primrec build_chunk_store ::
    "codec \<Rightarrow> (string \<rightharpoonup> string) \<Rightarrow> (bytes \<rightharpoonup> bytes) \<Rightarrow> ChunkDescriptor list \<Rightarrow> ClientError + (bytes \<rightharpoonup> bytes)" where
  "build_chunk_store k cache store [] = Inr store"
| "build_chunk_store k cache store (d # ds) =
    (let hash_hex = cx_hex k (cd_hash d) in
     bind_res (ok_or (CTransport (''missing transport chunk '' @ hash_hex)) (cache hash_hex)) (\<lambda>data_base64.
     bind_res (map_err (\<lambda>_. CTransport ''invalid transport chunk encoding'') (cx_unb64 k data_base64)) (\<lambda>data.
     build_chunk_store k cache (store(cd_hash d \<mapsto> data)) ds)))"

definition build_transport_chunk_store :: "codec \<Rightarrow> LocalState \<Rightarrow> ChunkManifest \<Rightarrow> ClientError + (bytes \<rightharpoonup> bytes)" where
  "build_transport_chunk_store k s manifest =
    build_chunk_store k (ls_transport_chunk_store s) Map.empty (cm_chunks manifest)"

section \<open>Sending\<close>

record ThreadMessageDispatch =
  td_thread_id_hex :: string
  td_sender_user_id_hex :: string
  td_envelope :: Envelope
  td_manifest :: ChunkManifest
  td_chunks :: "Chunk list"
  td_chunk_count :: nat
  td_recipient_inbox_keys :: "bytes list"

text \<open>The thread is changed in place, so its sequence number stays taken when a later step fails.\<close>

definition send_thread_message_for_state ::
    "crypto \<Rightarrow> codec \<Rightarrow> serde \<Rightarrow> (nat \<Rightarrow> bytes) \<Rightarrow> (nat \<Rightarrow> u64) \<Rightarrow> string \<Rightarrow> string \<Rightarrow> LocalState \<Rightarrow>
      (LocalState \<times> (ClientError + ThreadMessageDispatch)) option" where
  "send_thread_message_for_state x k j rng now thread_id_hex text s =
    (case clone_identity_from_state s of
       Inl e \<Rightarrow> Some (s, Inl e)
     | Inr identity \<Rightarrow>
         (case ls_threads s thread_id_hex of
            None \<Rightarrow> Some (s, Inl ThreadNotFound)
          | Some t \<Rightarrow>
              (case publish_thread_message_transport x k j rng (now 0) identity (str_bytes text) t of
                 None \<Rightarrow> None
               | Some (t', Inl e) \<Rightarrow> Some (s\<lparr>ls_threads := (ls_threads s)(thread_id_hex \<mapsto> t')\<rparr>, Inl e)
               | Some (t', Inr (envelope, manifest, chunks, outbox_item)) \<Rightarrow>
                   (case inbox_keys_for_thread k t' (id_user_id_hex identity) of
                      Inl e \<Rightarrow> Some (s\<lparr>ls_threads := (ls_threads s)(thread_id_hex \<mapsto> t')\<rparr>, Inl e)
                    | Inr recipient_inbox_keys \<Rightarrow>
                        (let message = \<lparr>msg_sender_user_id = id_user_id_hex identity, msg_text = text, msg_sent_at = now 1\<rparr>;
                             t'' = t'\<lparr>th_messages := th_messages t' @ [message]\<rparr>;
                             s1 = s\<lparr>ls_threads := (ls_threads s)(thread_id_hex \<mapsto> t''),
                                    ls_transport_outbox := ls_transport_outbox s @ [outbox_item]\<rparr>
                         in Some (apsnd (map_res (\<lambda>_.
                              \<lparr>td_thread_id_hex = th_thread_id_hex t'', td_sender_user_id_hex = id_user_id_hex identity,
                               td_envelope = envelope, td_manifest = manifest, td_chunks = chunks,
                               td_chunk_count = length chunks, td_recipient_inbox_keys = recipient_inbox_keys\<rparr>))
                            (stage_transport_delivery_for_members x k j (th_members t'') (id_user_id_hex identity)
                               manifest chunks s1)))))))"

section \<open>Receiving\<close>

record DecryptedInboxItem =
  di_thread_id_hex :: string
  di_sender_user_id_hex :: string
  di_plaintext :: bytes

record InboxDecryptionResponse =
  dr_items :: "DecryptedInboxItem list"
  dr_source :: InboxSource

text \<open>The part of the receiving loops that opens one canonical envelope.\<close>

definition decrypt_item :: "crypto \<Rightarrow> codec \<Rightarrow> serde \<Rightarrow> LocalState \<Rightarrow> bytes \<Rightarrow> (ClientError + DecryptedInboxItem) option" where
  "decrypt_item x k j s payload =
    (case parse_envelope_payload j payload of
       Inl e \<Rightarrow> Some (Inl e)
     | Inr envelope \<Rightarrow>
         (let thread_id_hex = cx_hex k (env_thread_id envelope)
          in case ls_threads s thread_id_hex of
               None \<Rightarrow> Some (Inl ThreadNotFound)
             | Some t \<Rightarrow>
                 map_option (map_res (\<lambda>plaintext. \<lparr>di_thread_id_hex = thread_id_hex,
                     di_sender_user_id_hex = cx_hex k (env_sender_user_id envelope), di_plaintext = plaintext\<rparr>))
                   (decrypt_thread_envelope x k j s t envelope)))"

definition resolve_inbox_from_state ::
    "crypto \<Rightarrow> codec \<Rightarrow> 'b http_get \<Rightarrow> bytes \<Rightarrow> string option \<Rightarrow> LocalState \<times> 'b \<Rightarrow>
      ((LocalState \<times> 'b) \<times> (ClientError + InboxScanResponse)) option" where
  "resolve_inbox_from_state x k get inbox_scan_key bridge sb =
    (let key_hex = inbox_key_hex x k inbox_scan_key
     in case ls_p2p_inbox (fst sb) key_hex of
          Some items \<Rightarrow>
            Some ((fst sb\<lparr>ls_p2p_inbox := (ls_p2p_inbox (fst sb))(key_hex := None)\<rparr>, snd sb),
              Inr \<lparr>is_items = List.map_filter (\<lambda>item. case cx_unb64 k item of Inr b \<Rightarrow> Some b | Inl _ \<Rightarrow> None) items,
                   is_source = Kademlia\<rparr>)
        | None \<Rightarrow>
            (case bridge of
               Some base_url \<Rightarrow>
                 map_option (\<lambda>(r, b). ((fst sb, b), map_err transport_error r)) (scan_inbox k get base_url inbox_scan_key (snd sb))
             | None \<Rightarrow> Some (sb, Inr \<lparr>is_items = [], is_source = Kademlia\<rparr>)))"

definition receive_inbox_payloads ::
    "crypto \<Rightarrow> codec \<Rightarrow> 'b http_get \<Rightarrow> bytes \<Rightarrow> string option \<Rightarrow> LocalState \<times> 'b \<Rightarrow>
      ((LocalState \<times> 'b) \<times> (ClientError + InboxScanResponse)) option" where
  "receive_inbox_payloads x k get inbox_scan_key bridge sb = resolve_inbox_from_state x k get inbox_scan_key bridge sb"

definition receive_inbox_messages ::
    "crypto \<Rightarrow> codec \<Rightarrow> serde \<Rightarrow> 'b http_get \<Rightarrow> bytes \<Rightarrow> string option \<Rightarrow> LocalState \<times> 'b \<Rightarrow>
      ((LocalState \<times> 'b) \<times> (ClientError + InboxDecryptionResponse)) option" where
  "receive_inbox_messages x k j get inbox_scan_key bridge sb =
    (case resolve_inbox_from_state x k get inbox_scan_key bridge sb of
       None \<Rightarrow> None
     | Some (sb', Inl e) \<Rightarrow> Some (sb', Inl e)
     | Some (sb', Inr response) \<Rightarrow>
         map_option (\<lambda>r. (sb', map_res (\<lambda>items. \<lparr>dr_items = items, dr_source = is_source response\<rparr>) r))
           (traverse_opt (decrypt_item x k j (fst sb')) (is_items response)))"

text \<open>One round of the loop of \<open>receive_transport_messages\<close>, on the state whose cache entry is already removed.\<close>

definition recover_cached_payload :: "crypto \<Rightarrow> codec \<Rightarrow> serde \<Rightarrow> LocalState \<Rightarrow> string \<Rightarrow> ClientError + bytes" where
  "recover_cached_payload x k j s payload_base64 =
    bind_res (map_err (\<lambda>_. CTransport ''invalid manifest payload encoding'') (cx_unb64 k payload_base64)) (\<lambda>payload.
    bind_res (map_err transport_error (recover_manifest_from_gossip (sd_parse_manifest j) [payload])) (\<lambda>manifest.
    bind_res (build_transport_chunk_store k s manifest) (\<lambda>store.
    bind_res (map_err transport_error (recover_chunks_from_store x k TransportConfig_default manifest store)) (\<lambda>chunks.
    map_err transport_error (reassemble_chunks_with_manifest x k TransportConfig_default manifest chunks)))))"

definition receive_cached :: "crypto \<Rightarrow> codec \<Rightarrow> serde \<Rightarrow> LocalState \<Rightarrow> string \<Rightarrow> (ClientError + DecryptedInboxItem) option" where
  "receive_cached x k j s payload_base64 =
    (case recover_cached_payload x k j s payload_base64 of
       Inl e \<Rightarrow> Some (Inl e)
     | Inr payload \<Rightarrow> decrypt_item x k j s payload)"

definition receive_transport_messages ::
    "crypto \<Rightarrow> codec \<Rightarrow> serde \<Rightarrow> bytes \<Rightarrow> LocalState \<Rightarrow> (LocalState \<times> (ClientError + InboxDecryptionResponse)) option" where
  "receive_transport_messages x k j inbox_scan_key s =
    (let key_hex = inbox_key_hex x k inbox_scan_key;
         manifest_payloads = (case ls_transport_gossip s key_hex of Some ps \<Rightarrow> ps | None \<Rightarrow> []);
         s1 = s\<lparr>ls_transport_gossip := (ls_transport_gossip s)(key_hex := None)\<rparr>
     in map_option (\<lambda>r. (s1, map_res (\<lambda>items. \<lparr>dr_items = items, dr_source = Kademlia\<rparr>) r))
          (traverse_opt (receive_cached x k j s1) manifest_payloads))"

section \<open>Recording received messages\<close>

record InboxMessageReceipt =
  re_thread_id_hex :: string
  re_sender_user_id_hex :: string
  re_text :: string

text \<open>\<open>String::from_utf8\<close>\<close>

definition from_utf8 :: "bytes \<Rightarrow> string option" where
  "from_utf8 bs = (if utf8_ok (map unat bs) then Some (bytes_str bs) else None)"

definition record_message :: "u64 \<Rightarrow> DecryptedInboxItem \<Rightarrow> LocalState \<Rightarrow> LocalState \<times> (ClientError + InboxMessageReceipt)" where
  "record_message now item s =
    (case from_utf8 (di_plaintext item) of
       None \<Rightarrow> (s, Inl InvalidMessageEncoding)
     | Some message_text \<Rightarrow>
         (case ls_threads s (di_thread_id_hex item) of
            None \<Rightarrow> (s, Inl ThreadNotFound)
          | Some t \<Rightarrow>
              (s\<lparr>ls_threads := (ls_threads s)(di_thread_id_hex item \<mapsto>
                   t\<lparr>th_messages := th_messages t @ [\<lparr>msg_sender_user_id = di_sender_user_id_hex item,
                       msg_text = message_text, msg_sent_at = now\<rparr>]\<rparr>)\<rparr>,
               Inr \<lparr>re_thread_id_hex = di_thread_id_hex item, re_sender_user_id_hex = di_sender_user_id_hex item,
                    re_text = message_text\<rparr>)))"

primrec record_inbox_messages ::
    "(nat \<Rightarrow> u64) \<Rightarrow> DecryptedInboxItem list \<Rightarrow> LocalState \<Rightarrow> LocalState \<times> (ClientError + InboxMessageReceipt list)" where
  "record_inbox_messages now [] s = (s, Inr [])"
| "record_inbox_messages now (item # items) s =
    (case record_message (now 0) item s of
       (s', Inl e) \<Rightarrow> (s', Inl e)
     | (s', Inr receipt) \<Rightarrow> apsnd (map_res ((#) receipt)) (record_inbox_messages (\<lambda>i. now (i + 1)) items s'))"

text \<open>Each payload is opened in the state left by the messages recorded before it.\<close>

primrec ingest_inbox_payloads ::
    "crypto \<Rightarrow> codec \<Rightarrow> serde \<Rightarrow> (nat \<Rightarrow> u64) \<Rightarrow> bytes list \<Rightarrow> LocalState \<Rightarrow> (LocalState \<times> (ClientError + InboxMessageReceipt list)) option" where
  "ingest_inbox_payloads x k j now [] s = Some (s, Inr [])"
| "ingest_inbox_payloads x k j now (payload # payloads) s =
    (case decrypt_item x k j s payload of
       None \<Rightarrow> None
     | Some (Inl e) \<Rightarrow> Some (s, Inl e)
     | Some (Inr item) \<Rightarrow>
         (case record_message (now 0) item s of
            (s', Inl e) \<Rightarrow> Some (s', Inl e)
          | (s', Inr receipt) \<Rightarrow>
              map_option (apsnd (map_res ((#) receipt))) (ingest_inbox_payloads x k j (\<lambda>i. now (i + 1)) payloads s')))"

section \<open>Publishing to the bridge\<close>

definition publish_via_bridge ::
    "crypto \<Rightarrow> codec \<Rightarrow> (nat \<Rightarrow> bytes) \<Rightarrow> u64 \<Rightarrow> (string \<Rightarrow> BridgePublishRequest \<Rightarrow> 'b \<Rightarrow> (string + nat \<times> string option) \<times> 'b) \<Rightarrow>
      IdentityState \<Rightarrow> bytes \<Rightarrow> Envelope \<Rightarrow> string \<Rightarrow> u64 option \<Rightarrow> 'b \<Rightarrow> (ClientError + unit) \<times> 'b" where
  "publish_via_bridge x k rng now put identity recipient_inbox_key_seed envelope base_url ttl_seconds b =
    (case bind_res (map_err core_error (ctap2_canonical_value_bytes (Envelope_to_cbor envelope))) (\<lambda>payload.
          bind_res (unhex k (id_user_id_hex identity)) (\<lambda>sender_user_id.
          bind_res (signing_key_from_hex k (id_signing_key_hex identity)) (\<lambda>signing_key.
          map_err transport_error (build_bridge_publish_request x k rng signing_key
            \<lparr>be_sender_user_id = sender_user_id, be_recipient_key_seed = recipient_inbox_key_seed, be_envelope = payload,
             be_role = 1, be_flags = None, be_now_unix = now, be_grant_ttl_seconds = 300,
             be_inbox_ttl_seconds = ttl_seconds, be_pow_params = pow_minimum\<rparr>)))) of
       Inl e \<Rightarrow> (Inl e, b)
     | Inr request \<Rightarrow>
         apfst (map_err transport_error)
           (publish_to_inbox k put base_url (sr_hashed_key (derive_inbox_scan_key x Sha256 recipient_inbox_key_seed)) request b))"

section \<open>Sending succeeds\<close>

lemma from_utf8_str_bytes: "utf8_ok (map of_char s) \<Longrightarrow> from_utf8 (str_bytes s) = Some s"
  by (simp add: from_utf8_def str_bytes_def [symmetric] comp_def) (simp add: str_bytes_def comp_def)

definition manifests_serialize :: "serde \<Rightarrow> bool" where
  "manifests_serialize j \<longleftrightarrow> (\<forall>m. \<exists>b. sd_manifest j m = Inr b)"

lemma members_staged:
  assumes "codec_correct k" "\<forall>m \<in> set ms. hex_of k 32 m"
  shows "\<exists>m'. stage_for_members x k sender item ms m = (m', Inr ())"
  using assms(2) by (induction ms arbitrary: m) (auto simp: hex_of_def unhex_hex [OF assms(1)])

lemma member_keys:
  assumes "codec_correct k" "\<forall>m \<in> set (th_members t). hex_of k 32 m"
  obtains keys where "inbox_keys_for_thread k t sender = Inr keys"
    "\<And>key. cx_hex k key \<in> set (th_members t) \<Longrightarrow> cx_hex k key \<noteq> sender \<Longrightarrow> key \<in> set keys"
proof -
  let ?ms = "filter (\<lambda>m. m \<noteq> sender) (th_members t)"
  have ok: "\<exists>b. unhex k m = Inr b" if "m \<in> set ?ms" for m
    using that assms by (auto simp: hex_of_def unhex_hex)
  then obtain keys where keys: "traverse (unhex k) ?ms = Inr keys"
    using traverse_total [of ?ms "unhex k"] by blast
  have "key \<in> set keys" if "cx_hex k key \<in> set (th_members t)" "cx_hex k key \<noteq> sender" for key
  proof -
    have "cx_hex k key \<in> set ?ms" using that by simp
    then obtain i where "i < length ?ms" "?ms ! i = cx_hex k key" by (metis in_set_conv_nth)
    then show ?thesis using keys assms(1) by (auto simp: traverse_eq_Inr list_all2_conv_all_nth unhex_hex)
  qed
  with keys show ?thesis by (intro that [of keys]) (simp_all add: inbox_keys_for_thread_def)
qed

lemma message_sent:
  assumes laws: "sha256_len x" "aead_seals x" "codec_correct k" "ed25519_sizes x k" "manifests_serialize j" "length (rng 12) = 12"
    and state: "ls_identity s = Some identity" "identity_ok x k identity" "ls_threads s h = Some t" "thread_ok k h t"
    and members: "\<forall>m \<in> set (th_members t). hex_of k 32 m" "length (th_members t) < 2 ^ 32"
    and short: "length text < 2 ^ 32"
  obtains s' d payload where "send_thread_message_for_state x k j rng now h text s = Some (s', Inr d)"
    "ctap2_canonical_value_bytes (Envelope_to_cbor (td_envelope d)) = Inr payload" "length payload \<le> length text + 273"
    "\<And>key. cx_hex k key \<in> set (th_members t) \<Longrightarrow> cx_hex k key \<noteq> id_user_id_hex identity \<Longrightarrow>
      key \<in> set (td_recipient_inbox_keys d)"
proof -
  have "length (str_bytes text) < 2 ^ 32" using short by simp
  then obtain t1 envelope manifest chunks payload where
    sealed: "encrypt_and_chunk_message x k j rng identity (str_bytes text) t = Some (t1, Inr (envelope, manifest, chunks))"
    and payload: "ctap2_canonical_value_bytes (Envelope_to_cbor envelope) = Inr payload" "length payload \<le> length (str_bytes text) + 273"
    and t1: "th_members t1 = th_members t"
    by (rule message_encrypted [where rng = rng, OF laws(1-4,6) state(2,4) _ members(2)])
  obtain keys where keys: "inbox_keys_for_thread k t1 (id_user_id_hex identity) = Inr keys"
    "\<And>key. cx_hex k key \<in> set (th_members t1) \<Longrightarrow> cx_hex k key \<noteq> id_user_id_hex identity \<Longrightarrow> key \<in> set keys"
    using member_keys [OF laws(3), of t1 "id_user_id_hex identity"] members(1) t1 by metis
  obtain b where b: "sd_manifest j manifest = Inr b" using laws(5) by (auto simp: manifests_serialize_def)
  obtain m' where m': "stage_for_members x k (id_user_id_hex identity) (cx_b64 k b) (th_members t) (ls_transport_gossip s) = (m', Inr ())"
    using members_staged [OF laws(3) members(1)] by blast
  let ?d = "\<lparr>td_thread_id_hex = th_thread_id_hex t1, td_sender_user_id_hex = id_user_id_hex identity, td_envelope = envelope,
    td_manifest = manifest, td_chunks = chunks, td_chunk_count = length chunks, td_recipient_inbox_keys = keys\<rparr>"
  have "\<exists>s'. send_thread_message_for_state x k j rng now h text s = Some (s', Inr ?d)"
    using state(1,3) sealed keys(1) b m' t1
    by (simp add: send_thread_message_for_state_def clone_identity_from_state_def publish_thread_message_transport_def
        stage_transport_delivery_for_members_def manifest_payload_def Let_def)
  then show ?thesis using payload keys(2) t1 that [of _ ?d payload] by auto
qed

end
