(* ===== verification/Client_Request.thy ===== *)
theory Client_Request
  imports Client_State
begin

text \<open>
  Requests and grants of the client library, \<open>spex-client/src/lib.rs\<close>: the proof-of-work puzzle bound to
  the fields of a request, its validation under the receiver's policy, the signed grant, and the replay
  cache of accepted requests.
\<close>

section \<open>Policy\<close>

definition REQUEST_POW_CONTEXT :: bytes where
  "REQUEST_POW_CONTEXT = str_bytes ''spex.request.pow.v1''"

definition DEFAULT_REQUEST_MAX_AGE_SECONDS :: u64 where
  "DEFAULT_REQUEST_MAX_AGE_SECONDS = 5 * 60"

definition DEFAULT_REQUEST_FUTURE_SKEW_SECONDS :: u64 where
  "DEFAULT_REQUEST_FUTURE_SKEW_SECONDS = 30"

definition ClientPowParams_minimum :: ClientPowParams where
  "ClientPowParams_minimum = \<lparr>pq_memory_kib = pow_memory_kib pow_minimum, pq_iterations = pow_iterations pow_minimum,
    pq_parallelism = pow_parallelism pow_minimum, pq_output_len = pow_output_len pow_minimum\<rparr>"

definition to_core :: "ClientPowParams \<Rightarrow> PowParams" where
  "to_core p = \<lparr>pow_memory_kib = pq_memory_kib p, pow_iterations = pq_iterations p,
    pow_parallelism = pq_parallelism p, pow_output_len = pq_output_len p\<rparr>"

record RequestPowPolicy =
  po_requires_pow :: bool
  po_minimum_params :: ClientPowParams
  po_max_age_seconds :: u64
  po_max_future_skew_seconds :: u64

definition RequestPowPolicy_default :: RequestPowPolicy where
  "RequestPowPolicy_default = \<lparr>po_requires_pow = True, po_minimum_params = ClientPowParams_minimum,
    po_max_age_seconds = DEFAULT_REQUEST_MAX_AGE_SECONDS,
    po_max_future_skew_seconds = DEFAULT_REQUEST_FUTURE_SKEW_SECONDS\<rparr>"

section \<open>Puzzles\<close>

definition parse_request_token :: "codec \<Rightarrow> serde \<Rightarrow> string \<Rightarrow> ClientError + RequestToken" where
  "parse_request_token k j token =
    bind_res (map_err (\<lambda>_. InvalidCard) (cx_unb64 k token)) (\<lambda>payload.
    map_err Json (sd_parse_request j payload))"

definition build_request_puzzle_with_binding ::
    "crypto \<Rightarrow> codec \<Rightarrow> (nat \<Rightarrow> bytes) \<Rightarrow> bytes \<Rightarrow> bytes \<Rightarrow> ClientError + PuzzleToken" where
  "build_request_puzzle_with_binding x k rng recipient_key request_binding =
    (let params = pow_minimum;
         nonce = generate_pow_nonce rng pow_nonce_len;
         puzzle_input = build_puzzle_input nonce request_binding
     in bind_res (map_err (\<lambda>e. Crypto (SpexError_to_string e)) (generate_puzzle_output x recipient_key puzzle_input params))
          (\<lambda>puzzle_output.
     Inr \<lparr>pt_recipient_key = cx_b64 k recipient_key, pt_puzzle_input = cx_b64 k puzzle_input,
          pt_puzzle_output = cx_b64 k puzzle_output,
          pt_params = \<lparr>pq_memory_kib = pow_memory_kib params, pq_iterations = pow_iterations params,
            pq_parallelism = pow_parallelism params, pq_output_len = pow_output_len params\<rparr>\<rparr>))"

definition build_request_puzzle :: "crypto \<Rightarrow> codec \<Rightarrow> (nat \<Rightarrow> bytes) \<Rightarrow> bytes \<Rightarrow> ClientError + PuzzleToken" where
  "build_request_puzzle x k rng recipient_key = build_request_puzzle_with_binding x k rng recipient_key recipient_key"

text \<open>\<open>slice.get(n..)\<close>\<close>

definition get_suffix :: "nat \<Rightarrow> bytes \<Rightarrow> bytes option" where
  "get_suffix n bs = (if n \<le> length bs then Some (drop n bs) else None)"

definition validate_request_puzzle_internal ::
    "crypto \<Rightarrow> codec \<Rightarrow> PuzzleToken \<Rightarrow> bytes \<Rightarrow> ClientPowParams \<Rightarrow> bytes option \<Rightarrow> ClientError + unit" where
  "validate_request_puzzle_internal x k puzzle recipient_key minimum_params expected_binding =
    bind_res (map_err (\<lambda>_. InvalidPuzzle) (cx_unb64 k (pt_recipient_key puzzle))) (\<lambda>recipient_bytes.
    if recipient_bytes \<noteq> recipient_key then Inl InvalidPuzzle
    else
      bind_res (map_err (\<lambda>_. InvalidPuzzle) (cx_unb64 k (pt_puzzle_input puzzle))) (\<lambda>puzzle_input.
      bind_res (map_err (\<lambda>_. InvalidPuzzle) (cx_unb64 k (pt_puzzle_output puzzle))) (\<lambda>puzzle_output.
      bind_res (case expected_binding of
          Some binding \<Rightarrow>
            if length puzzle_input \<noteq> pow_nonce_len + length binding \<or>
               get_suffix pow_nonce_len puzzle_input \<noteq> Some binding
            then Inl InvalidPuzzle else Inr ()
        | None \<Rightarrow> Inr ()) (\<lambda>_.
      (case validate_pow_puzzle x recipient_key puzzle_input puzzle_output (to_core (pt_params puzzle))
              (to_core minimum_params) of
         Inr _ \<Rightarrow> Inr ()
       | Inl PowTooWeak \<Rightarrow> Inl InvalidPuzzle
       | Inl PowInvalid \<Rightarrow> Inl InvalidPuzzle
       | Inl err \<Rightarrow> Inl (Crypto (GrantPowValidationError_to_string err)))))))"

definition validate_request_puzzle_with_policy ::
    "crypto \<Rightarrow> codec \<Rightarrow> PuzzleToken \<Rightarrow> bytes \<Rightarrow> ClientPowParams \<Rightarrow> ClientError + unit" where
  "validate_request_puzzle_with_policy x k puzzle recipient_key minimum_params =
    validate_request_puzzle_internal x k puzzle recipient_key minimum_params None"

definition validate_request_puzzle :: "crypto \<Rightarrow> codec \<Rightarrow> PuzzleToken \<Rightarrow> bytes \<Rightarrow> ClientError + unit" where
  "validate_request_puzzle x k puzzle recipient_key =
    validate_request_puzzle_with_policy x k puzzle recipient_key ClientPowParams_minimum"

definition build_request_pow_binding :: "codec \<Rightarrow> string \<Rightarrow> string \<Rightarrow> u64 \<Rightarrow> u64 \<Rightarrow> ClientError + bytes" where
  "build_request_pow_binding k from_user_id_hex to_user_id_hex role created_at =
    bind_res (unhex k from_user_id_hex) (\<lambda>from_user_id.
    bind_res (unhex k to_user_id_hex) (\<lambda>to_user_id.
    if length from_user_id \<noteq> 32 \<or> length to_user_id \<noteq> 32 then Inl InvalidPuzzle
    else Inr (REQUEST_POW_CONTEXT @ from_user_id @ to_user_id @ u64be role @ u64be created_at)))"

section \<open>Grants\<close>

definition decode_base64_field :: "codec \<Rightarrow> string \<Rightarrow> ClientError + bytes" where
  "decode_base64_field k v = map_err (\<lambda>_. CGrantInvalid) (cx_unb64 k v)"

definition decode_fixed_base64 :: "codec \<Rightarrow> nat \<Rightarrow> string \<Rightarrow> ClientError + bytes" where
  "decode_fixed_base64 k n v = bind_res (decode_base64_field k v) (into_array CGrantInvalid n)"

definition validate_signed_grant :: "crypto \<Rightarrow> codec \<Rightarrow> SignedGrantToken \<Rightarrow> u64 \<Rightarrow> ClientError + GrantToken" where
  "validate_signed_grant x k grant now =
    bind_res (decode_base64_field k (sg_user_id grant)) (\<lambda>user_id.
    bind_res (decode_fixed_base64 k 32 (sg_verifying_key grant)) (\<lambda>verifying_key.
    bind_res (decode_fixed_base64 k 64 (sg_signature grant)) (\<lambda>signature.
    bind_res (map_err (\<lambda>_. CGrantInvalid) (cx_verifying_key k verifying_key)) (\<lambda>_.
    let token = \<lparr>gt_user_id = user_id, gt_role = sg_role grant, gt_flags = sg_flags grant,
          gt_expires_at = sg_expires_at grant, gt_extensions = []\<rparr>
    in case validate_grant_token x now token verifying_key signature of
         Inr _ \<Rightarrow> Inr token
       | Inl GrantInvalid \<Rightarrow> Inl CGrantInvalid
       | Inl GrantExpired \<Rightarrow> Inl CGrantExpired
       | Inl err \<Rightarrow> Inl (Crypto (GrantPowValidationError_to_string err))))))"

definition sign_grant :: "crypto \<Rightarrow> codec \<Rightarrow> IdentityState \<Rightarrow> GrantToken \<Rightarrow> ClientError + SignedGrantToken" where
  "sign_grant x k identity grant =
    bind_res (signing_key_from_hex k (id_signing_key_hex identity)) (\<lambda>signing_key.
    let verifying_key = ed25519_verify_key x signing_key in
    bind_res (map_err core_error (hash_ctap2_cbor_value x Sha256 (GrantToken_to_cbor grant))) (\<lambda>hash.
    let signature = ed25519_sign_hash x signing_key hash
    in Inr \<lparr>sg_user_id = cx_b64 k (gt_user_id grant), sg_role = gt_role grant, sg_flags = gt_flags grant,
            sg_expires_at = gt_expires_at grant, sg_verifying_key = cx_b64 k verifying_key,
            sg_signature = cx_b64 k signature\<rparr>))"

section \<open>Creating and accepting requests\<close>

definition create_request_payload ::
    "crypto \<Rightarrow> codec \<Rightarrow> serde \<Rightarrow> (nat \<Rightarrow> bytes) \<Rightarrow> u64 \<Rightarrow> IdentityState \<Rightarrow> string \<Rightarrow> u64 \<Rightarrow> ClientError + RequestToken \<times> string" where
  "create_request_payload x k j rng now identity to_user_id_hex role =
    (let created_at = now in
     bind_res (unhex k to_user_id_hex) (\<lambda>recipient_key.
     bind_res (build_request_pow_binding k (id_user_id_hex identity) to_user_id_hex role created_at) (\<lambda>request_binding.
     bind_res (build_request_puzzle_with_binding x k rng recipient_key request_binding) (\<lambda>puzzle.
     bind_res (validate_request_puzzle_internal x k puzzle recipient_key ClientPowParams_minimum (Some request_binding)) (\<lambda>_.
     let request = \<lparr>rt_from_user_id = id_user_id_hex identity, rt_to_user_id = to_user_id_hex, rt_role = role,
           rt_created_at = created_at, rt_puzzle = Some puzzle\<rparr> in
     bind_res (map_err Json (sd_request j request)) (\<lambda>payload.
     let token = cx_b64 k payload
     in Inr (request, token)))))))"

record RequestCreationOutcome =
  rc_request :: RequestToken
  rc_token_base64 :: string

definition create_request_for_state ::
    "crypto \<Rightarrow> codec \<Rightarrow> serde \<Rightarrow> (nat \<Rightarrow> bytes) \<Rightarrow> u64 \<Rightarrow> string \<Rightarrow> u64 \<Rightarrow> LocalState \<Rightarrow>
      LocalState \<times> (ClientError + RequestCreationOutcome)" where
  "create_request_for_state x k j rng now to_user_id_hex role s =
    (case bind_res (clone_identity_from_state s) (\<lambda>identity.
            create_request_payload x k j rng now identity to_user_id_hex role) of
       Inl e \<Rightarrow> (s, Inl e)
     | Inr (request, token) \<Rightarrow>
         (s\<lparr>ls_requests := ls_requests s @ [\<lparr>rs_token_base64 = token, rs_to_user_id = to_user_id_hex, rs_role = role,
              rs_created_at = rt_created_at request, rs_puzzle = rt_puzzle request\<rparr>]\<rparr>,
          Inr \<lparr>rc_request = request, rc_token_base64 = token\<rparr>))"

definition validate_request_freshness :: "RequestToken \<Rightarrow> RequestPowPolicy \<Rightarrow> u64 \<Rightarrow> ClientError + unit" where
  "validate_request_freshness request policy now =
    (if rt_created_at request > sat_add now (po_max_future_skew_seconds policy) \<or>
        sat_sub now (rt_created_at request) > po_max_age_seconds policy
     then Inl RequestStale else Inr ())"

definition request_replay_id :: "crypto \<Rightarrow> codec \<Rightarrow> serde \<Rightarrow> RequestToken \<Rightarrow> ClientError + string" where
  "request_replay_id x k j request =
    bind_res (map_err Json (sd_request j request)) (\<lambda>normalized.
    Inr (cx_hex k (hash_bytes x Sha256 normalized)))"

definition accept_request_payload_with_policy ::
    "crypto \<Rightarrow> codec \<Rightarrow> serde \<Rightarrow> IdentityState \<Rightarrow> string \<Rightarrow> RequestPowPolicy \<Rightarrow> u64 \<Rightarrow> ClientError + RequestToken \<times> SignedGrantToken" where
  "accept_request_payload_with_policy x k j identity request_payload policy now =
    bind_res (parse_request_token k j request_payload) (\<lambda>request_token.
    if rt_to_user_id request_token \<noteq> id_user_id_hex identity then Inl RequestTargetMismatch
    else
      bind_res (validate_request_freshness request_token policy now) (\<lambda>_.
      bind_res (build_request_pow_binding k (rt_from_user_id request_token) (rt_to_user_id request_token)
          (rt_role request_token) (rt_created_at request_token)) (\<lambda>request_binding.
      bind_res (case rt_puzzle request_token of
          Some puzzle \<Rightarrow>
            bind_res (unhex k (id_user_id_hex identity)) (\<lambda>recipient_key.
            validate_request_puzzle_internal x k puzzle recipient_key (po_minimum_params policy) (Some request_binding))
        | None \<Rightarrow> if po_requires_pow policy then Inl InvalidPuzzle else Inr ()) (\<lambda>_.
      bind_res (unhex k (rt_from_user_id request_token)) (\<lambda>user_id.
      let grant = \<lparr>gt_user_id = user_id, gt_role = rt_role request_token, gt_flags = None, gt_expires_at = None,
            gt_extensions = []\<rparr> in
      bind_res (sign_grant x k identity grant) (\<lambda>signed_grant.
      Inr (request_token, signed_grant)))))))"

definition accept_request_payload ::
    "crypto \<Rightarrow> codec \<Rightarrow> serde \<Rightarrow> u64 \<Rightarrow> IdentityState \<Rightarrow> string \<Rightarrow> ClientError + RequestToken \<times> SignedGrantToken" where
  "accept_request_payload x k j now identity request_payload =
    accept_request_payload_with_policy x k j identity request_payload RequestPowPolicy_default now"

record GrantAcceptanceOutcome =
  ga_request :: RequestToken
  ga_grant_token_base64 :: string

text \<open>The grant is time-stamped by a reading \<open>stamp\<close> of the clock of its own.\<close>

definition accept_request_for_state_with_policy ::
    "crypto \<Rightarrow> codec \<Rightarrow> serde \<Rightarrow> u64 \<Rightarrow> string \<Rightarrow> RequestPowPolicy \<Rightarrow> u64 \<Rightarrow> LocalState \<Rightarrow>
      LocalState \<times> (ClientError + GrantAcceptanceOutcome)" where
  "accept_request_for_state_with_policy x k j stamp request_payload policy now s =
    (case bind_res (clone_identity_from_state s) (\<lambda>identity.
          bind_res (accept_request_payload_with_policy x k j identity request_payload policy now) (\<lambda>(request_token, signed_grant).
          bind_res (request_replay_id x k j request_token) (\<lambda>request_id.
          if request_id \<in> set (ls_accepted_request_ids s) then Inl RequestReplay
          else bind_res (map_err Json (sd_grant j signed_grant)) (\<lambda>encoded.
            Inr (request_token, signed_grant, request_id, cx_b64 k encoded))))) of
       Inl e \<Rightarrow> (s, Inl e)
     | Inr (request_token, signed_grant, request_id, grant_token) \<Rightarrow>
         (s\<lparr>ls_grants := ls_grants s @ [\<lparr>gs_token_base64 = grant_token, gs_from_user_id = rt_from_user_id request_token,
              gs_role = rt_role request_token, gs_created_at = stamp, gs_signature_base64 = Some (sg_signature signed_grant)\<rparr>],
            ls_accepted_request_ids := ls_accepted_request_ids s @ [request_id]\<rparr>,
          Inr \<lparr>ga_request = request_token, ga_grant_token_base64 = grant_token\<rparr>))"

definition accept_request_for_state ::
    "crypto \<Rightarrow> codec \<Rightarrow> serde \<Rightarrow> (nat \<Rightarrow> u64) \<Rightarrow> string \<Rightarrow> LocalState \<Rightarrow> LocalState \<times> (ClientError + GrantAcceptanceOutcome)" where
  "accept_request_for_state x k j now request_payload s =
    accept_request_for_state_with_policy x k j (now 1) request_payload RequestPowPolicy_default (now 0) s"

section \<open>What an accepted request has passed\<close>

lemma drop_append_split:
  "length bs = n + length b \<and> n \<le> length bs \<and> drop n bs = b \<longleftrightarrow> (\<exists>a. length a = n \<and> bs = a @ b)"
  by (metis add_diff_cancel_right' append_eq_conv_conj append_take_drop_id le_add1 length_append length_take min_absorb2)

lemma request_puzzle_valid:
  "validate_request_puzzle_internal x k puzzle recipient_key minimum_params (Some binding) = Inr () \<longleftrightarrow>
    (\<exists>nonce puzzle_output.
      cx_unb64 k (pt_recipient_key puzzle) = Inr recipient_key \<and> length nonce = pow_nonce_len \<and>
      cx_unb64 k (pt_puzzle_input puzzle) = Inr (nonce @ binding) \<and>
      cx_unb64 k (pt_puzzle_output puzzle) = Inr puzzle_output \<and>
      validate_pow_puzzle x recipient_key (nonce @ binding) puzzle_output (to_core (pt_params puzzle))
        (to_core minimum_params) = Inr ())"
proof -
  have "length bs = pow_nonce_len + length binding \<and> get_suffix pow_nonce_len bs = Some binding \<longleftrightarrow>
      (\<exists>nonce. length nonce = pow_nonce_len \<and> bs = nonce @ binding)" for bs :: bytes
    using drop_append_split [of bs pow_nonce_len binding] by (auto simp: get_suffix_def split: if_splits)
  moreover have "(case r of Inr _ \<Rightarrow> Inr () | Inl PowTooWeak \<Rightarrow> Inl InvalidPuzzle | Inl PowInvalid \<Rightarrow> Inl InvalidPuzzle
      | Inl err \<Rightarrow> Inl (Crypto (GrantPowValidationError_to_string err))) = Inr () \<longleftrightarrow> r = Inr ()"
    for r :: "GrantPowValidationError + unit"
    by (cases r) (auto split: GrantPowValidationError.splits)
  ultimately show ?thesis
    by (auto simp: validate_request_puzzle_internal_def split: if_splits)
qed

text \<open>The fields of a request that its puzzle input binds.\<close>

lemma request_binding_eq_Inr:
  "build_request_pow_binding k f t role created_at = Inr b \<longleftrightarrow>
    (\<exists>fb tb. cx_unhex k f = Inr fb \<and> cx_unhex k t = Inr tb \<and> length fb = 32 \<and> length tb = 32 \<and>
      b = REQUEST_POW_CONTEXT @ fb @ tb @ u64be role @ u64be created_at)"
  by (auto simp: build_request_pow_binding_def unhex_def split: if_splits)

lemma request_binding_inject:
  assumes "build_request_pow_binding k f t r c = Inr b" "build_request_pow_binding k f' t' r' c' = Inr b"
  shows "cx_unhex k f = cx_unhex k f' \<and> cx_unhex k t = cx_unhex k t' \<and> r = r' \<and> c = c'"
  using assms by (auto simp: request_binding_eq_Inr append_same_length_inject)

lemma u64_encodable: "- (2 ^ 64) \<le> uint (w :: u64)" "uint w < 2 ^ 64"
  using uint_bounded [of w] by (auto intro: order_trans [OF _ uint_ge_0])

lemma grant_encodable:
  assumes "length user_id = 32"
  shows "\<exists>b. ctap2_canonical_value_bytes (GrantToken_to_cbor \<lparr>gt_user_id = user_id, gt_role = role, gt_flags = None,
    gt_expires_at = expires_at, gt_extensions = []\<rparr>) = Inr b"
proof -
  have "encodable (GrantToken_to_cbor \<lparr>gt_user_id = user_id, gt_role = role, gt_flags = None,
      gt_expires_at = expires_at, gt_extensions = []\<rparr>)"
    using assms u64_encodable [of role] u64_encodable [of "the expires_at"]
    by (cases expires_at) (simp_all add: GrantToken_to_cbor_def GrantToken_fields_def GrantToken_base_def map_to_cbor_def
        insert_opt_def key_to_cbor_def btree_extend_def)
  then show ?thesis by (simp add: ctap2_canonical_value_bytes_def encodable_ok)
qed

lemma accept_payload_eq_Inr:
  "accept_request_payload_with_policy x k j identity payload policy now = Inr (t, g) \<longleftrightarrow>
    parse_request_token k j payload = Inr t \<and> rt_to_user_id t = id_user_id_hex identity \<and>
    validate_request_freshness t policy now = Inr () \<and>
    (\<exists>binding user_id.
      build_request_pow_binding k (rt_from_user_id t) (rt_to_user_id t) (rt_role t) (rt_created_at t) = Inr binding \<and>
      (case rt_puzzle t of
         Some puzzle \<Rightarrow> bind_res (unhex k (id_user_id_hex identity)) (\<lambda>recipient_key.
           validate_request_puzzle_internal x k puzzle recipient_key (po_minimum_params policy) (Some binding))
       | None \<Rightarrow> if po_requires_pow policy then Inl InvalidPuzzle else Inr ()) = Inr () \<and>
      unhex k (rt_from_user_id t) = Inr user_id \<and>
      sign_grant x k identity \<lparr>gt_user_id = user_id, gt_role = rt_role t, gt_flags = None, gt_expires_at = None,
        gt_extensions = []\<rparr> = Inr g)"
  by (auto simp: accept_request_payload_with_policy_def Let_def split: if_splits)

lemma accept_state_eq_Inr:
  "accept_request_for_state_with_policy x k j stamp payload policy now s = (s', Inr out) \<longleftrightarrow>
    (\<exists>identity t g request_id encoded.
      ls_identity s = Some identity \<and>
      accept_request_payload_with_policy x k j identity payload policy now = Inr (t, g) \<and>
      request_replay_id x k j t = Inr request_id \<and> request_id \<notin> set (ls_accepted_request_ids s) \<and>
      sd_grant j g = Inr encoded \<and>
      out = \<lparr>ga_request = t, ga_grant_token_base64 = cx_b64 k encoded\<rparr> \<and>
      s' = s\<lparr>ls_grants := ls_grants s @ [\<lparr>gs_token_base64 = cx_b64 k encoded, gs_from_user_id = rt_from_user_id t,
               gs_role = rt_role t, gs_created_at = stamp, gs_signature_base64 = Some (sg_signature g)\<rparr>],
             ls_accepted_request_ids := ls_accepted_request_ids s @ [request_id]\<rparr>)"
  by (auto simp: accept_request_for_state_with_policy_def clone_identity_from_state_def split: sum.splits if_splits)

lemma accept_state_eq_Inl:
  "accept_request_for_state_with_policy x k j stamp payload policy now s = (s', Inl e) \<Longrightarrow> s' = s"
  by (auto simp: accept_request_for_state_with_policy_def split: sum.splits)

lemma known_request_refused:
  assumes "request_replay_id x k j t = Inr request_id" "request_id \<in> set (ls_accepted_request_ids s)"
    and "parse_request_token k j payload = Inr t"
  shows "\<exists>e. accept_request_for_state_with_policy x k j stamp payload policy now s = (s, Inl e)"
proof (cases "accept_request_for_state_with_policy x k j stamp payload policy now s")
  case (Pair s' r)
  show ?thesis
  proof (cases r)
    case (Inl e)
    with Pair show ?thesis using accept_state_eq_Inl by blast
  next
    case (Inr out)
    with Pair assms show ?thesis by (auto simp: accept_state_eq_Inr accept_payload_eq_Inr)
  qed
qed

lemma fresh_iff:
  "validate_request_freshness t policy now = Inr () \<longleftrightarrow>
    unat (rt_created_at t) \<le> unat now + unat (po_max_future_skew_seconds policy) \<and>
    unat now \<le> unat (rt_created_at t) + unat (po_max_age_seconds policy)"
proof -
  have "rt_created_at t \<le> sat_add now (po_max_future_skew_seconds policy) \<longleftrightarrow>
      unat (rt_created_at t) \<le> unat now + unat (po_max_future_skew_seconds policy)"
    using unsigned_less [of "rt_created_at t", where 'a = nat] by (auto simp: word_le_nat_alt unat_sat_add)
  moreover have "sat_sub now (rt_created_at t) \<le> po_max_age_seconds policy \<longleftrightarrow>
      unat now \<le> unat (rt_created_at t) + unat (po_max_age_seconds policy)"
    by (auto simp: word_le_nat_alt unat_sat_sub)
  ultimately show ?thesis by (auto simp: validate_request_freshness_def not_less)
qed

lemma signed_grant_valid:
  assumes laws: "ed25519_correct x" "codec_correct k" "ed25519_sizes x k"
    and sign: "sign_grant x k identity g = Inr sg"
    and g: "gt_extensions g = []" "\<And>e. gt_expires_at g = Some e \<Longrightarrow> now < e"
  shows "validate_signed_grant x k sg now = Inr g"
proof -
  obtain seed b where seed: "length seed = 32" and b: "ctap2_canonical_value_bytes (GrantToken_to_cbor g) = Inr b"
    and sg: "sg = \<lparr>sg_user_id = cx_b64 k (gt_user_id g), sg_role = gt_role g, sg_flags = gt_flags g,
      sg_expires_at = gt_expires_at g, sg_verifying_key = cx_b64 k (x_verifying_key x seed),
      sg_signature = cx_b64 k (x_sign x seed (x_sha256 x b))\<rparr>"
    using sign by (auto simp: sign_grant_def signing_key_from_hex_def into_array_def hash_ctap2_cbor_value_def
        ed25519_sign_hash_def ed25519_verify_key_def hash_bytes_def Let_def split: if_splits)
  have "validate_grant_token x now g (x_verifying_key x seed) (x_sign x seed (x_sha256 x b)) = Inr ()"
    using laws(1) seed b g(2) by (auto simp: validate_grant_token_eq_Inr ed25519_correct_def)
  with laws(2,3) seed g(1) show ?thesis
    by (cases g) (simp add: sg validate_signed_grant_def decode_base64_field_def decode_fixed_base64_def into_array_def
        codec_correct_def ed25519_sizes_def Let_def)
qed

section \<open>Properties\<close>

text \<open>The JSON of a request can be read back, and every grant can be written.\<close>

definition requests_round_trip :: "serde \<Rightarrow> bool" where
  "requests_round_trip j \<longleftrightarrow> (\<forall>t b. sd_request j t = Inr b \<longrightarrow> sd_parse_request j b = Inr t)"

definition grants_serialize :: "serde \<Rightarrow> bool" where
  "grants_serialize j \<longleftrightarrow> (\<forall>g. \<exists>b. sd_grant j g = Inr b)"

lemma create_state_eq_Inr:
  "create_request_for_state x k j rng now to role s = (s', Inr outcome) \<Longrightarrow>
    \<exists>identity recipient_key binding puzzle payload.
      ls_identity s = Some identity \<and> unhex k to = Inr recipient_key \<and>
      build_request_pow_binding k (id_user_id_hex identity) to role now = Inr binding \<and>
      validate_request_puzzle_internal x k puzzle recipient_key ClientPowParams_minimum (Some binding) = Inr () \<and>
      rc_request outcome = \<lparr>rt_from_user_id = id_user_id_hex identity, rt_to_user_id = to, rt_role = role,
        rt_created_at = now, rt_puzzle = Some puzzle\<rparr> \<and>
      sd_request j (rc_request outcome) = Inr payload \<and> rc_token_base64 outcome = cx_b64 k payload"
  by (auto simp: create_request_for_state_def create_request_payload_def clone_identity_from_state_def Let_def
      split: sum.splits)

text \<open>C8. A request that a client creates is accepted by the client it is addressed to, when the clocks agree to
  within 30 seconds ahead and 5 minutes behind and the request has not been accepted before.  The grant it
  gets verifies at any time as one for the requester and the role requested.  Presented again, the request is
  refused, at any time, and the state stays as it is.\<close>

theorem request_exchange:
  assumes laws: "ed25519_correct x" "codec_correct k" "ed25519_sizes x k" "requests_round_trip j" "grants_serialize j"
    and created: "create_request_for_state x k j rng created_at to role s = (s', Inr outcome)"
    and receiver: "ls_identity r = Some identity" "id_user_id_hex identity = to"
      "signing_key_from_hex k (id_signing_key_hex identity) = Inr seed"
    and unseen: "\<And>i. request_replay_id x k j (rc_request outcome) = Inr i \<Longrightarrow> i \<notin> set (ls_accepted_request_ids r)"
    and clock: "unat created_at \<le> unat (now 0) + 30" "unat (now 0) \<le> unat created_at + 300"
  shows "\<exists>r' sender user_id signed encoded.
    ls_identity s = Some sender \<and> cx_unhex k (id_user_id_hex sender) = Inr user_id \<and> sd_grant j signed = Inr encoded \<and>
    accept_request_for_state x k j now (rc_token_base64 outcome) r =
      (r', Inr \<lparr>ga_request = rc_request outcome, ga_grant_token_base64 = cx_b64 k encoded\<rparr>) \<and>
    (\<forall>t. validate_signed_grant x k signed t =
      Inr \<lparr>gt_user_id = user_id, gt_role = role, gt_flags = None, gt_expires_at = None, gt_extensions = []\<rparr>) \<and>
    (\<forall>now'. \<exists>e. accept_request_for_state x k j now' (rc_token_base64 outcome) r' = (r', Inl e))"
proof -
  obtain sender recipient_key binding puzzle payload where sender: "ls_identity s = Some sender"
    and key: "unhex k to = Inr recipient_key"
    and binding: "build_request_pow_binding k (id_user_id_hex sender) to role created_at = Inr binding"
    and puzzle: "validate_request_puzzle_internal x k puzzle recipient_key ClientPowParams_minimum (Some binding) = Inr ()"
    and request: "rc_request outcome = \<lparr>rt_from_user_id = id_user_id_hex sender, rt_to_user_id = to, rt_role = role,
      rt_created_at = created_at, rt_puzzle = Some puzzle\<rparr>"
    and payload: "sd_request j (rc_request outcome) = Inr payload" "rc_token_base64 outcome = cx_b64 k payload"
    using create_state_eq_Inr [OF created] by blast
  obtain user_id where user: "cx_unhex k (id_user_id_hex sender) = Inr user_id" "length user_id = 32"
    using binding by (auto simp: request_binding_eq_Inr)
  let ?grant = "\<lparr>gt_user_id = user_id, gt_role = role, gt_flags = None, gt_expires_at = None, gt_extensions = []\<rparr>"
  obtain signed where signed: "sign_grant x k identity ?grant = Inr signed"
    using grant_encodable [OF user(2), of role None] receiver(3) by (auto simp: sign_grant_def hash_ctap2_cbor_value_def Let_def)
  have parse: "parse_request_token k j (rc_token_base64 outcome) = Inr (rc_request outcome)"
    using laws(2,4) payload by (simp add: parse_request_token_def codec_correct_def requests_round_trip_def)
  have "validate_request_freshness (rc_request outcome) RequestPowPolicy_default (now 0) = Inr ()"
    using clock by (simp add: fresh_iff request RequestPowPolicy_default_def DEFAULT_REQUEST_MAX_AGE_SECONDS_def
        DEFAULT_REQUEST_FUTURE_SKEW_SECONDS_def)
  then have accepted: "accept_request_payload_with_policy x k j identity (rc_token_base64 outcome) RequestPowPolicy_default
      (now 0) = Inr (rc_request outcome, signed)"
    using parse binding puzzle key user signed receiver(2)
    by (simp add: accept_payload_eq_Inr request unhex_def RequestPowPolicy_default_def)
  obtain i where i: "request_replay_id x k j (rc_request outcome) = Inr i"
    using payload(1) by (auto simp: request_replay_id_def)
  obtain encoded where encoded: "sd_grant j signed = Inr encoded" using laws(5) by (auto simp: grants_serialize_def)
  obtain r' where r': "accept_request_for_state x k j now (rc_token_base64 outcome) r =
      (r', Inr \<lparr>ga_request = rc_request outcome, ga_grant_token_base64 = cx_b64 k encoded\<rparr>)"
    and seen: "i \<in> set (ls_accepted_request_ids r')"
    using accepted receiver(1) i unseen [OF i] encoded by (auto simp: accept_request_for_state_def accept_state_eq_Inr)
  have "\<exists>e. accept_request_for_state x k j now' (rc_token_base64 outcome) r' = (r', Inl e)" for now'
    unfolding accept_request_for_state_def by (rule known_request_refused [OF i seen parse])
  moreover have "validate_signed_grant x k signed t = Inr ?grant" for t
    by (rule signed_grant_valid [OF laws(1-3) signed]) simp_all
  ultimately show ?thesis using sender user(1) encoded r' by blast
qed

text \<open>The request of client 1 to client 2 for role 3 at time 100, and its JSON.\<close>

definition sample_binding :: bytes where
  "sample_binding = REQUEST_POW_CONTEXT @ replicate 32 1 @ replicate 32 2 @ u64be 3 @ u64be 100"

definition sample_puzzle :: PuzzleToken where
  "sample_puzzle = \<lparr>pt_recipient_key = cx_b64 toy_codec (replicate 32 2),
    pt_puzzle_input = cx_b64 toy_codec (replicate 32 9 @ sample_binding),
    pt_puzzle_output = cx_b64 toy_codec (replicate 32 9), pt_params = ClientPowParams_minimum\<rparr>"

definition sample_request :: RequestToken where
  "sample_request = \<lparr>rt_from_user_id = cx_hex toy_codec (replicate 32 1), rt_to_user_id = cx_hex toy_codec (replicate 32 2),
    rt_role = 3, rt_created_at = 100, rt_puzzle = Some sample_puzzle\<rparr>"

lemma sample_request_simps [simp]:
  "rt_from_user_id sample_request = cx_hex toy_codec (replicate 32 1)"
  "rt_to_user_id sample_request = cx_hex toy_codec (replicate 32 2)" "rt_role sample_request = 3"
  "rt_created_at sample_request = 100" "rt_puzzle sample_request = Some sample_puzzle"
  by (simp_all add: sample_request_def)

definition request_serde :: serde where
  "request_serde = toy_serde\<lparr>sd_request := (\<lambda>t. if t = sample_request then Inr [1] else Inl ''unsupported''),
    sd_parse_request := (\<lambda>_. Inr sample_request)\<rparr>"

lemma request_serde_grant: "sd_grant request_serde g = Inr []"
  by (simp add: request_serde_def toy_serde_def)

lemma sample_binding_built:
  "build_request_pow_binding toy_codec (cx_hex toy_codec (replicate 32 1)) (cx_hex toy_codec (replicate 32 2)) 3 100 =
    Inr sample_binding"
  by (simp add: request_binding_eq_Inr sample_binding_def)

lemma sample_output:
  "generate_puzzle_output toy_crypto (replicate 32 2) (replicate 32 9 @ sample_binding) pow_minimum = Inr (replicate 32 9)"
  by (simp add: generate_puzzle_output_def to_argon2_def toy_crypto_def pow_minimum_def)

lemma sample_request_puzzle_valid:
  "validate_request_puzzle_internal toy_crypto toy_codec sample_puzzle (replicate 32 2)
    ClientPowParams_minimum (Some sample_binding) = Inr ()"
proof -
  have "validate_pow_puzzle toy_crypto (replicate 32 2) (replicate 32 9 @ sample_binding) (replicate 32 9)
      (to_core ClientPowParams_minimum) (to_core ClientPowParams_minimum) = Inr ()"
    using sample_output by (simp add: pow_accepted pow_at_least_def meets_minimum_def to_core_def ClientPowParams_minimum_def
        pow_minimum_def)
  moreover have "cx_unb64 toy_codec (cx_b64 toy_codec b) = Inr b" for b by (simp add: toy_codec_def)
  ultimately show ?thesis
    unfolding request_puzzle_valid
    by (intro exI [of _ "replicate 32 9"] exI [of _ "replicate 32 9"]) (simp add: sample_puzzle_def pow_nonce_len_def)
qed

lemma sample_request_created:
  "\<exists>s'. create_request_for_state toy_crypto toy_codec request_serde (\<lambda>n. replicate n 9) 100
    (cx_hex toy_codec (replicate 32 2)) 3 (toy_client 1) =
    (s', Inr \<lparr>rc_request = sample_request, rc_token_base64 = cx_b64 toy_codec [1]\<rparr>)"
proof -
  have "build_request_puzzle_with_binding toy_crypto toy_codec (\<lambda>n. replicate n 9) (replicate 32 2) sample_binding =
      Inr sample_puzzle"
    using sample_output
    by (simp add: build_request_puzzle_with_binding_def generate_pow_nonce_def build_puzzle_input_def pow_nonce_len_def
        sample_puzzle_def ClientPowParams_minimum_def Let_def)
  then show ?thesis
    using sample_binding_built sample_request_puzzle_valid
    by (simp add: create_request_for_state_def create_request_payload_def clone_identity_from_state_def
        request_serde_def sample_request_def)
qed

theorem request_exchange_witness:
  "\<exists>r' e. accept_request_for_state toy_crypto toy_codec request_serde (\<lambda>_. 110) (cx_b64 toy_codec [1]) (toy_client 2) =
      (r', Inr \<lparr>ga_request = sample_request, ga_grant_token_base64 = cx_b64 toy_codec []\<rparr>) \<and>
    accept_request_for_state toy_crypto toy_codec request_serde (\<lambda>_. 110) (cx_b64 toy_codec [1]) r' = (r', Inl e)"
proof -
  obtain s' where created: "create_request_for_state toy_crypto toy_codec request_serde (\<lambda>n. replicate n 9) 100
      (cx_hex toy_codec (replicate 32 2)) 3 (toy_client 1) =
      (s', Inr \<lparr>rc_request = sample_request, rc_token_base64 = cx_b64 toy_codec [1]\<rparr>)"
    using sample_request_created by blast
  have laws: "requests_round_trip request_serde" "grants_serialize request_serde"
    by (simp_all add: requests_round_trip_def grants_serialize_def request_serde_def toy_serde_def)
  show ?thesis
    using request_exchange [OF toy_crypto_laws(2) toy_codec_correct toy_sizes laws created, of "toy_client 2" "toy_identity 2"
        "replicate 32 2" "\<lambda>_. 110"]
    by (auto simp: request_serde_grant)
qed

definition alias_codec :: codec where
  "alias_codec = toy_codec\<lparr>cx_unhex := (\<lambda>s. if s = ''ONE'' then Inr (replicate 32 1) else cx_unhex toy_codec s)\<rparr>"

definition alias_serde :: serde where
  "alias_serde = request_serde\<lparr>sd_request := (\<lambda>t. if t = sample_request then Inr [1]
      else if t = sample_request\<lparr>rt_from_user_id := ''ONE''\<rparr> then Inr [2] else Inl ''unsupported''),
    sd_parse_request := (\<lambda>b. Inr (if b = [1] then sample_request else sample_request\<lparr>rt_from_user_id := ''ONE''\<rparr>))\<rparr>"

lemma replicate_not_ONE: "replicate 32 c \<noteq> ''ONE''"
  by (rule notI, drule arg_cong [of _ _ length]) simp

lemma alias_codec_simps:
  "cx_unb64 alias_codec = cx_unb64 toy_codec" "cx_b64 alias_codec = cx_b64 toy_codec" "cx_hex alias_codec = cx_hex toy_codec"
  "cx_unhex alias_codec (cx_hex toy_codec (replicate 32 b)) = Inr (replicate 32 b)"
  using replicate_not_ONE [of "char_of (unat b)"] toy_unhex(2) [of "replicate 32 b"]
  by (simp_all add: alias_codec_def toy_codec_def bytes_str_def)

lemma toy_unb64: "cx_unb64 toy_codec (cx_b64 toy_codec b) = Inr b"
  by (simp add: toy_codec_def)

lemma alias_accepts:
  "\<exists>s' g. accept_request_for_state_with_policy toy_crypto alias_codec alias_serde 0 (cx_b64 toy_codec [1])
    RequestPowPolicy_default 110 (toy_client 2) =
    (s', Inr \<lparr>ga_request = sample_request, ga_grant_token_base64 = cx_b64 alias_codec g\<rparr>) \<and>
    ls_accepted_request_ids s' = [cx_hex toy_codec (1 # replicate 31 0)]"
proof -
  note codec = alias_codec_simps
  have "build_request_pow_binding alias_codec (rt_from_user_id sample_request) (rt_to_user_id sample_request)
      (rt_role sample_request) (rt_created_at sample_request) = Inr sample_binding"
    by (simp add: request_binding_eq_Inr sample_binding_def codec)
  moreover have "validate_request_puzzle_internal toy_crypto alias_codec sample_puzzle (replicate 32 2)
      ClientPowParams_minimum (Some sample_binding) = Inr ()"
    using sample_request_puzzle_valid unfolding validate_request_puzzle_internal_def codec .
  moreover have "validate_request_freshness sample_request RequestPowPolicy_default 110 = Inr ()"
    by (simp add: fresh_iff RequestPowPolicy_default_def DEFAULT_REQUEST_MAX_AGE_SECONDS_def
        DEFAULT_REQUEST_FUTURE_SKEW_SECONDS_def)
  moreover obtain g where "sign_grant toy_crypto alias_codec (toy_identity 2) \<lparr>gt_user_id = replicate 32 1, gt_role = 3,
      gt_flags = None, gt_expires_at = None, gt_extensions = []\<rparr> = Inr g"
    using grant_encodable [of "replicate 32 1" 3 None]
    by (auto simp: sign_grant_def signing_key_from_hex_def unhex_def codec into_array_def hash_ctap2_cbor_value_def Let_def)
  ultimately have "accept_request_payload_with_policy toy_crypto alias_codec alias_serde (toy_identity 2) (cx_b64 toy_codec [1])
      RequestPowPolicy_default 110 = Inr (sample_request, g)"
    by (simp add: accept_payload_eq_Inr parse_request_token_def codec toy_unb64 alias_serde_def unhex_def
        RequestPowPolicy_default_def)
  moreover have "request_replay_id toy_crypto alias_codec alias_serde sample_request = Inr (cx_hex toy_codec (1 # replicate 31 0))"
    by (simp add: request_replay_id_def alias_serde_def codec hash_bytes_def toy_crypto_def numeral_eq_Suc)
  ultimately show ?thesis
    by (auto simp: accept_state_eq_Inr alias_serde_def request_serde_grant)
qed

text \<open>C16. A request is only accepted when it names the receiver's own identity, lies within the policy's time
  window and, under a policy that asks for proof of work, carries the Argon2id output, at a cost of at least
  the policy's and the built-in minimum, for an input that binds requester, receiver, role and time of
  creation.  Once accepted, the same request is refused in every state that still has its identifier,
  whatever the policy and the time.\<close>

theorem accepted_request_checked:
  assumes "argon2_len x"
    and accepted: "accept_request_for_state_with_policy x k j stamp payload policy now s = (s', Inr out)"
  shows "(\<exists>identity. ls_identity s = Some identity \<and> rt_to_user_id (ga_request out) = id_user_id_hex identity) \<and>
    unat (rt_created_at (ga_request out)) \<le> unat now + unat (po_max_future_skew_seconds policy) \<and>
    unat now \<le> unat (rt_created_at (ga_request out)) + unat (po_max_age_seconds policy) \<and>
    (po_requires_pow policy \<longrightarrow> (\<exists>puzzle sender receiver nonce answer.
      rt_puzzle (ga_request out) = Some puzzle \<and>
      cx_unhex k (rt_from_user_id (ga_request out)) = Inr sender \<and> cx_unhex k (rt_to_user_id (ga_request out)) = Inr receiver \<and>
      cx_unb64 k (pt_puzzle_output puzzle) = Inr answer \<and>
      pow_at_least (to_core (pt_params puzzle)) (to_core (po_minimum_params policy)) \<and>
      meets_minimum (to_core (pt_params puzzle)) \<and>
      generate_puzzle_output x receiver (nonce @ REQUEST_POW_CONTEXT @ sender @ receiver @ u64be (rt_role (ga_request out)) @
        u64be (rt_created_at (ga_request out))) (to_core (pt_params puzzle)) = Inr answer)) \<and>
    (\<forall>stamp' payload' policy' now' later. set (ls_accepted_request_ids s') \<subseteq> set (ls_accepted_request_ids later) \<and>
      parse_request_token k j payload' = Inr (ga_request out) \<longrightarrow>
      (\<exists>e. accept_request_for_state_with_policy x k j stamp' payload' policy' now' later = (later, Inl e)))"
proof -
  obtain identity g i where identity: "ls_identity s = Some identity"
    and payload: "accept_request_payload_with_policy x k j identity payload policy now = Inr (ga_request out, g)"
    and i: "request_replay_id x k j (ga_request out) = Inr i" "i \<in> set (ls_accepted_request_ids s')"
    using accepted by (auto simp: accept_state_eq_Inr)
  let ?t = "ga_request out"
  obtain binding where binding: "build_request_pow_binding k (rt_from_user_id ?t) (rt_to_user_id ?t) (rt_role ?t)
      (rt_created_at ?t) = Inr binding"
    and puzzle: "(case rt_puzzle ?t of
         Some puzzle \<Rightarrow> bind_res (unhex k (id_user_id_hex identity)) (\<lambda>recipient_key.
           validate_request_puzzle_internal x k puzzle recipient_key (po_minimum_params policy) (Some binding))
       | None \<Rightarrow> if po_requires_pow policy then Inl InvalidPuzzle else Inr ()) = Inr ()"
    and own: "rt_to_user_id ?t = id_user_id_hex identity"
    using payload by (auto simp: accept_payload_eq_Inr)
  have pow: "\<exists>puzzle sender receiver nonce answer.
      rt_puzzle ?t = Some puzzle \<and> cx_unhex k (rt_from_user_id ?t) = Inr sender \<and> cx_unhex k (rt_to_user_id ?t) = Inr receiver \<and>
      cx_unb64 k (pt_puzzle_output puzzle) = Inr answer \<and>
      pow_at_least (to_core (pt_params puzzle)) (to_core (po_minimum_params policy)) \<and>
      meets_minimum (to_core (pt_params puzzle)) \<and>
      generate_puzzle_output x receiver (nonce @ REQUEST_POW_CONTEXT @ sender @ receiver @ u64be (rt_role ?t) @
        u64be (rt_created_at ?t)) (to_core (pt_params puzzle)) = Inr answer"
    if "po_requires_pow policy"
    using puzzle binding own that
    by (auto simp: request_puzzle_valid pow_accepted [OF assms(1)] request_binding_eq_Inr unhex_def split: option.splits)
  have "\<exists>e. accept_request_for_state_with_policy x k j stamp' payload' policy' now' later = (later, Inl e)"
    if "set (ls_accepted_request_ids s') \<subseteq> set (ls_accepted_request_ids later)" "parse_request_token k j payload' = Inr ?t"
    for stamp' payload' policy' now' later
    using known_request_refused [OF i(1) _ that(2)] i(2) that(1) by blast
  with identity own pow payload show ?thesis by (auto simp: accept_payload_eq_Inr fresh_iff)
qed

theorem accepted_request_checked_witness:
  "\<exists>nonce answer. generate_puzzle_output toy_crypto (replicate 32 2) (nonce @ sample_binding) pow_minimum = Inr answer \<and>
    answer = replicate 32 9"
proof -
  obtain s' g where accepted: "accept_request_for_state_with_policy toy_crypto alias_codec alias_serde 0 (cx_b64 toy_codec [1])
      RequestPowPolicy_default 110 (toy_client 2) =
      (s', Inr \<lparr>ga_request = sample_request, ga_grant_token_base64 = cx_b64 alias_codec g\<rparr>)"
    using alias_accepts by blast
  have "to_core ClientPowParams_minimum = pow_minimum"
    by (simp add: to_core_def ClientPowParams_minimum_def)
  with accepted_request_checked [OF toy_crypto_laws(3) accepted] show ?thesis
    by (auto simp: RequestPowPolicy_default_def alias_codec_simps sample_binding_def sample_puzzle_def toy_unb64)
qed

text \<open>C36. The replay cache is keyed by the text of a request and not by what its fields mean.  Take a request that has
  been accepted, and spell the requester's identifier differently, with the same bytes (hexadecimal digits may be in
  either case).  The puzzle is bound to the bytes, so the respelt request, if it was not accepted before, is accepted
  in the state the first one left, and the same grant is issued once more.  SHA-256 is taken not to collide on the two
  JSON texts.\<close>

theorem respelt_request_accepted:
  assumes laws: "inj (cx_hex k)" "\<And>b. cx_unb64 k (cx_b64 k b) = Inr b" "requests_round_trip j"
    and accepted: "accept_request_for_state_with_policy x k j stamp payload policy now s = (s', Inr out)"
    and spelling: "spelling \<noteq> rt_from_user_id (ga_request out)"
      "cx_unhex k spelling = cx_unhex k (rt_from_user_id (ga_request out))"
    and texts: "sd_request j (ga_request out) = Inr original"
      "sd_request j ((ga_request out)\<lparr>rt_from_user_id := spelling\<rparr>) = Inr respelt"
      "x_sha256 x original = x_sha256 x respelt \<Longrightarrow> original = respelt"
    and unseen: "cx_hex k (x_sha256 x respelt) \<notin> set (ls_accepted_request_ids s)"
  shows "\<exists>s'' out'. accept_request_for_state_with_policy x k j stamp (cx_b64 k respelt) policy now s' = (s'', Inr out') \<and>
    ga_grant_token_base64 out' = ga_grant_token_base64 out \<and> length (ls_grants s'') = length (ls_grants s) + 2"
proof -
  let ?t = "ga_request out" and ?t' = "(ga_request out)\<lparr>rt_from_user_id := spelling\<rparr>"
  obtain identity g encoded where identity: "ls_identity s = Some identity"
    and payload: "accept_request_payload_with_policy x k j identity payload policy now = Inr (?t, g)"
    and encoded: "sd_grant j g = Inr encoded" "ga_grant_token_base64 out = cx_b64 k encoded"
    and s': "ls_identity s' = ls_identity s" "length (ls_grants s') = length (ls_grants s) + 1"
      "ls_accepted_request_ids s' = ls_accepted_request_ids s @ [cx_hex k (x_sha256 x original)]"
    using accepted texts(1) by (auto simp: accept_state_eq_Inr request_replay_id_def hash_bytes_def)
  have same: "build_request_pow_binding k spelling t r c = build_request_pow_binding k (rt_from_user_id ?t) t r c"
      "unhex k spelling = unhex k (rt_from_user_id ?t)" for t r c
    by (simp_all add: build_request_pow_binding_def unhex_def spelling(2))
  have parse: "parse_request_token k j (cx_b64 k respelt) = Inr ?t'"
    using laws texts(2) by (simp add: parse_request_token_def requests_round_trip_def)
  then have again: "accept_request_payload_with_policy x k j identity (cx_b64 k respelt) policy now = Inr (?t', g)"
    using payload by (auto simp: accept_payload_eq_Inr same fresh_iff split: option.splits)
  have "?t' \<noteq> ?t" using spelling(1) by (metis RequestToken.select_convs(1) RequestToken.surjective RequestToken.update_convs(1))
  then have "original \<noteq> respelt" using laws(3) texts(1,2) by (metis requests_round_trip_def sum.inject(2))
  then have "cx_hex k (x_sha256 x respelt) \<notin> set (ls_accepted_request_ids s')"
    using unseen texts(3) laws(1) by (auto simp: s'(3) inj_eq)
  moreover have "request_replay_id x k j ?t' = Inr (cx_hex k (x_sha256 x respelt))"
    using texts(2) by (simp add: request_replay_id_def hash_bytes_def)
  ultimately show ?thesis using again identity s'(1,2) encoded by (auto simp: accept_state_eq_Inr)
qed

theorem respelt_request_accepted_witness:
  "\<exists>s' s'' out out'.
    accept_request_for_state_with_policy toy_crypto alias_codec alias_serde 0 (cx_b64 toy_codec [1])
      RequestPowPolicy_default 110 (toy_client 2) = (s', Inr out) \<and>
    accept_request_for_state_with_policy toy_crypto alias_codec alias_serde 0 (cx_b64 toy_codec [2])
      RequestPowPolicy_default 110 s' = (s'', Inr out') \<and>
    ga_grant_token_base64 out' = ga_grant_token_base64 out"
proof -
  obtain s' g where accepted: "accept_request_for_state_with_policy toy_crypto alias_codec alias_serde 0 (cx_b64 toy_codec [1])
      RequestPowPolicy_default 110 (toy_client 2) =
      (s', Inr \<lparr>ga_request = sample_request, ga_grant_token_base64 = cx_b64 alias_codec g\<rparr>)"
    using alias_accepts by blast
  let ?t = "sample_request\<lparr>rt_from_user_id := ''ONE''\<rparr>"
  have "inj (cx_hex alias_codec)" unfolding alias_codec_simps by (rule injI) (metis toy_unhex(2) sum.inject(2))
  moreover have "cx_unb64 alias_codec (cx_b64 alias_codec b) = Inr b" for b unfolding alias_codec_simps by (rule toy_unb64)
  moreover have "requests_round_trip alias_serde" by (auto simp: requests_round_trip_def alias_serde_def split: if_splits)
  moreover have spelling: "''ONE'' \<noteq> rt_from_user_id sample_request"
    using replicate_not_ONE by (simp add: sample_request_def toy_codec_def bytes_str_def) metis
  moreover have "cx_unhex alias_codec ''ONE'' = cx_unhex alias_codec (rt_from_user_id sample_request)"
    unfolding sample_request_def RequestToken.simps alias_codec_simps by (simp add: alias_codec_def)
  moreover have "?t \<noteq> sample_request" using spelling by (metis RequestToken.select_convs(1) RequestToken.surjective RequestToken.update_convs(1))
  then have "sd_request alias_serde sample_request = Inr [1]" "sd_request alias_serde ?t = Inr [2]" by (simp_all add: alias_serde_def)
  moreover have "x_sha256 toy_crypto [1] = x_sha256 toy_crypto [2] \<Longrightarrow> [1 :: u8] = [2]" by (simp add: toy_crypto_def numeral_eq_Suc)
  moreover have "cx_hex alias_codec (x_sha256 toy_crypto [2]) \<notin> set (ls_accepted_request_ids (toy_client 2))"
    by (simp add: toy_client_def LocalState_default_def)
  ultimately obtain s'' out' where "accept_request_for_state_with_policy toy_crypto alias_codec alias_serde 0 (cx_b64 alias_codec [2])
      RequestPowPolicy_default 110 s' = (s'', Inr out')" "ga_grant_token_base64 out' = cx_b64 alias_codec g"
    using respelt_request_accepted [where k = alias_codec and original = "[1]" and respelt = "[2]", OF _ _ _ accepted, of "''ONE''"] by auto
  with accepted show ?thesis unfolding alias_codec_simps(2) by fastforce
qed

end
