(* ===== verification/Delivery.thy ===== *)
theory Delivery
  imports Bridge_Safety
begin

text \<open>
  The bridge behind the HTTP client of \<open>spex-transport/src/inbox.rs\<close>: what a \<open>GET\<close> of the client gets
  from the handlers of \<open>spex-bridge/src/lib.rs\<close>, and that the pages of the bridge are what the scan of the
  client relies on.

  Routing a URL to its path and query parameters (\<open>route\<close>) and the text of an HTTP error (\<open>err\<close>) belong to
  axum and reqwest.
\<close>

section \<open>The bridge as the client sees it\<close>

type_synonym routing = "string \<Rightarrow> (string \<times> InboxQuery) option"

definition bridge_get :: "codec \<Rightarrow> routing \<Rightarrow> (nat \<Rightarrow> string) \<Rightarrow> u64 \<Rightarrow> AppState http_get" where
  "bridge_get k route err now url s =
    (case route url of
       None \<Rightarrow> (Inl (err 404), s)
     | Some (inbox_key, query) \<Rightarrow>
         (case get_inbox k no_faults now inbox_key query s of
            (s', Inl e) \<Rightarrow> (Inl (err (error_status e)), s')
          | (s', Inr r) \<Rightarrow> (Inr \<lparr>bi_items = np_items r, bi_next_cursor = np_next_cursor r\<rparr>, s')))"

definition bridge_put ::
    "crypto \<Rightarrow> codec \<Rightarrow> (string \<Rightarrow> string option) \<Rightarrow> (BridgePublishRequest \<Rightarrow> InboxStoreRequest) \<Rightarrow> u64 \<times> u64 \<Rightarrow> IpAddr option \<Rightarrow>
      string \<Rightarrow> BridgePublishRequest \<Rightarrow> AppState \<Rightarrow> (string + nat \<times> string option) \<times> AppState" where
  "bridge_put x k route wire clock addr url request s =
    (case route url of
       None \<Rightarrow> (Inr (404, None), s)
     | Some inbox_key \<Rightarrow>
         (case put_inbox x k no_faults clock addr inbox_key (wire request) s of
            (s', Inl e) \<Rightarrow> (Inr (error_status e, Some (BridgeError_to_string e)), s')
          | (s', Inr _) \<Rightarrow> (Inr (204, None), s')))"

text \<open>The JSON of a publish request, read as the request type of the bridge: both declare the same fields.\<close>

definition wire_request :: "BridgePublishRequest \<Rightarrow> InboxStoreRequest" where
  "wire_request r =
    \<lparr>iq_data = br_data r,
     iq_grant = \<lparr>gp_user_id = bg_user_id (br_grant r), gp_role = bg_role (br_grant r), gp_flags = bg_flags (br_grant r),
       gp_expires_at = bg_expires_at (br_grant r), gp_verifying_key = bg_verifying_key (br_grant r),
       gp_signature = bg_signature (br_grant r)\<rparr>,
     iq_puzzle = \<lparr>pp_recipient_key = bz_recipient_key (br_puzzle r), pp_puzzle_input = bz_puzzle_input (br_puzzle r),
       pp_puzzle_output = bz_puzzle_output (br_puzzle r),
       pp_params = map_option (\<lambda>p. \<lparr>wp_memory_kib = bp_memory_kib p, wp_iterations = bp_iterations p,
         wp_parallelism = bp_parallelism p, wp_output_len = bp_output_len p\<rparr>) (bz_params (br_puzzle r))\<rparr>,
     iq_ttl_seconds = br_ttl_seconds r\<rparr>"

section \<open>Pages\<close>

lemma page_loop_prefix:
  assumes "page_loop limit max_bytes rows items total_bytes last_id = (items', last_id', has_more)"
  shows "\<exists>n \<le> length rows. items' = items @ map snd (take n rows) \<and>
    last_id' = (if n = 0 then last_id else Some (fst (rows ! (n - 1)))) \<and>
    (has_more \<longleftrightarrow> n < length rows) \<and>
    (length items \<le> limit \<longrightarrow> length items + n \<le> limit) \<and>
    (has_more \<longrightarrow> limit \<le> length items + n \<or> max_bytes < total_bytes + sum_list (map (\<lambda>r. length (snd r)) (take (Suc n) rows)))"
  using assms
proof (induction limit max_bytes rows items total_bytes last_id rule: page_loop.induct)
  case (2 limit max_bytes i item rows items total_bytes last_id)
  show ?case
  proof (cases "limit \<le> length items \<or> max_bytes < total_bytes + length item")
    case True
    then have "items' = items" "last_id' = last_id" has_more
      using "2.prems" by (auto split: if_splits)
    with True show ?thesis by (intro exI [of _ 0]) auto
  next
    case False
    then have "page_loop limit max_bytes rows (items @ [item]) (total_bytes + length item) (Some i) = (items', last_id', has_more)"
      using "2.prems" by simp
    from "2.IH" [OF _ _ this] False obtain n where n: "n \<le> length rows" "items' = (items @ [item]) @ map snd (take n rows)"
      "last_id' = (if n = 0 then Some i else Some (fst (rows ! (n - 1))))" "has_more \<longleftrightarrow> n < length rows"
      "length (items @ [item]) \<le> limit \<longrightarrow> length (items @ [item]) + n \<le> limit"
      "has_more \<longrightarrow> limit \<le> length (items @ [item]) + n \<or>
        max_bytes < total_bytes + length item + sum_list (map (\<lambda>r. length (snd r)) (take (Suc n) rows))"
      by blast
    with False show ?thesis by (intro exI [of _ "Suc n"]) (simp add: nth_Cons' algebra_simps)
  qed
qed auto

text \<open>With room for at least one item, a page never hides that rows are left.\<close>

lemma inbox_page_of:
  assumes "0 < limit" "\<forall>r \<in> set rows. length (snd r) \<le> max_bytes"
  shows "page_of k rows
    \<lparr>bi_items = map (cx_b64 k) (ip_items (inbox_page limit max_bytes (take (limit + 1) rows))),
     bi_next_cursor = ip_next_cursor (inbox_page limit max_bytes (take (limit + 1) rows))\<rparr>"
proof -
  let ?rows = "take (limit + 1) rows"
  obtain items last_id has_more where loop: "page_loop limit max_bytes ?rows [] 0 None = (items, last_id, has_more)"
    by (metis prod_cases3)
  then obtain n where n: "n \<le> length ?rows" "items = map snd (take n ?rows)"
    "last_id = (if n = 0 then None else Some (fst (?rows ! (n - 1))))" "has_more \<longleftrightarrow> n < length ?rows" "n \<le> limit"
    "has_more \<longrightarrow> limit \<le> n \<or> max_bytes < sum_list (map (\<lambda>r. length (snd r)) (take (Suc n) ?rows))"
    using page_loop_prefix [OF loop] by (simp only: append_Nil list.size add_0 le0 simp_thms) blast
  have page: "ip_items (inbox_page limit max_bytes ?rows) = map snd (take n rows)"
    "ip_next_cursor (inbox_page limit max_bytes ?rows) = (if has_more then last_id else None)"
    using loop n(2,5) by (simp_all add: inbox_page_def min_def)
  show ?thesis
  proof (cases has_more)
    case True
    have "0 < n"
    proof (rule ccontr)
      assume "\<not> 0 < n"
      then obtain r rest where "rows = r # rest" using n(4) True by (cases rows) auto
      then show False using n(6) True assms \<open>\<not> 0 < n\<close> by simp
    qed
    moreover have "n \<le> length rows" using n(1) by simp
    moreover have "?rows ! (n - 1) = rows ! (n - 1)" using n(5) \<open>0 < n\<close> by simp
    ultimately show ?thesis using True n(3) unfolding page_of_def page by (intro exI [of _ n]) simp
  next
    case False
    then have "length rows \<le> n" using n(1,4,5) by simp
    with False show ?thesis unfolding page_of_def page by (intro exI [of _ n]) simp
  qed
qed

section \<open>The bridge serves what the scan relies on\<close>

definition live_rows :: "string \<Rightarrow> u64 \<Rightarrow> AppState \<Rightarrow> (int \<times> bytes) list" where
  "live_rows inbox_key now s =
    map (\<lambda>r. (ir_id r, ir_item r)) (filter (live_item inbox_key (as_i64 now)) (db_inbox_items (as_db s)))"

text \<open>The router reads back the URLs the client writes.\<close>

definition routes :: "routing \<Rightarrow> string \<Rightarrow> string \<Rightarrow> int set \<Rightarrow> bool" where
  "routes route base inbox_key ids \<longleftrightarrow> (\<forall>cursor. cursor = None \<or> cursor \<in> Some ` ids \<longrightarrow>
    route (inbox_url base inbox_key cursor) =
      Some (inbox_key, \<lparr>nq_limit = Some 100, nq_cursor = cursor, nq_max_bytes = None\<rparr>))"

definition serves ::
    "codec \<Rightarrow> routing \<Rightarrow> string \<Rightarrow> string \<Rightarrow> u64 \<Rightarrow> AppState \<Rightarrow> bool" where
  "serves k route base inbox_key now s \<longleftrightarrow> codec_correct k \<and> inbox_ok (as_db s) \<and> as_limits s = RateLimitConfig_default \<and>
    inbox_key \<in> set (db_inbox_keys (as_db s)) \<and>
    routes route base inbox_key (fst ` set (live_rows inbox_key now s))"

lemma leads_load_inbox_items:
  assumes "inbox_key \<in> set (db_inbox_keys (as_db s))"
  shows "leads (load_inbox_items no_faults inbox_key now cursor limit max_bytes) s (as_db s)
    (Inr (Some (inbox_page limit max_bytes (map (\<lambda>r. (ir_id r, ir_item r)) (take (limit + 1) (sort_key ir_id
      (filter (\<lambda>r. live_item inbox_key (as_i64 now) r \<and> (case cursor of Some c \<Rightarrow> c | None \<Rightarrow> 0) < ir_id r)
        (db_inbox_items (as_db s)))))))))"
  unfolding load_inbox_items_def
proof (rule leads_with_conn)
  fix t :: AppState
  assume t: "as_db t = as_db s"
  show "leads (seq_res (sqlite no_faults (\<lambda>d. (d, Inr (inbox_key \<in> set (db_inbox_keys d))))) (\<lambda>exists s.
       if \<not> exists then (s, Inr None)
       else seq_res (sqlite no_faults (select_items inbox_key (as_i64 now) (case cursor of Some c \<Rightarrow> c | None \<Rightarrow> 0) (limit + 1)))
         (\<lambda>rows s. (s, Inr (Some (inbox_page limit max_bytes rows)))) s)) t (as_db s)
    (Inr (Some (inbox_page limit max_bytes (map (\<lambda>r. (ir_id r, ir_item r)) (take (limit + 1) (sort_key ir_id
      (filter (\<lambda>r. live_item inbox_key (as_i64 now) r \<and> (case cursor of Some c \<Rightarrow> c | None \<Rightarrow> 0) < ir_id r)
        (db_inbox_items (as_db s)))))))))"
    using assms t
    by (simp add: leads_def seq_res_def sqlite_def select_items_def)
qed

lemma behind_live_rows:
  assumes "inbox_ok (as_db s)"
  shows "behind cursor (live_rows inbox_key now s) = map (\<lambda>r. (ir_id r, ir_item r)) (sort_key ir_id
      (filter (\<lambda>r. live_item inbox_key (as_i64 now) r \<and> (case cursor of Some c \<Rightarrow> c | None \<Rightarrow> 0) < ir_id r)
        (db_inbox_items (as_db s))))"
proof -
  have "sorted_wrt (\<lambda>a b. ir_id a < ir_id b) (db_inbox_items (as_db s))"
    using assms by (simp add: inbox_ok_def sorted_wrt_map)
  then have "sorted (map ir_id (filter P (db_inbox_items (as_db s))))" for P
    by (intro sorted_wrt_map [THEN iffD2] sorted_wrt_filter) (auto elim: sorted_wrt_mono_rel [rotated])
  then show ?thesis
    by (simp add: behind_def live_rows_def filter_map sorted_sort_id sort_key_id_if_sorted comp_def conj_commute)
qed

lemma sorted_live_rows: "inbox_ok (as_db s) \<Longrightarrow> sorted_wrt (<) (map fst (live_rows inbox_key now s))"
  by (auto simp: live_rows_def inbox_ok_def sorted_wrt_map intro!: sorted_wrt_filter)

lemma live_rows_cong: "as_db s' = as_db s \<Longrightarrow> live_rows inbox_key now s' = live_rows inbox_key now s"
  by (simp add: live_rows_def)

lemma bridge_get_page:
  assumes s: "serves k route base inbox_key now s"
    and cursor: "cursor = None \<or> cursor \<in> Some ` fst ` set (live_rows inbox_key now s)"
  shows "\<exists>p s'. bridge_get k route err now (inbox_url base inbox_key cursor) s = (Inr p, s') \<and>
    page_of k (behind cursor (live_rows inbox_key now s)) p \<and>
    serves k route base inbox_key now s' \<and> live_rows inbox_key now s' = live_rows inbox_key now s"
proof -
  let ?rest = "behind cursor (live_rows inbox_key now s)"
  let ?page = "inbox_page 100 1048576 (take (100 + 1) ?rest)"
  have ok: "inbox_ok (as_db s)" and limits: "as_limits s = RateLimitConfig_default"
    and key: "inbox_key \<in> set (db_inbox_keys (as_db s))"
    and route: "route (inbox_url base inbox_key cursor) =
      Some (inbox_key, \<lparr>nq_limit = Some 100, nq_cursor = cursor, nq_max_bytes = None\<rparr>)"
    using s cursor by (auto simp: serves_def routes_def)
  have leads: "leads (load_inbox_items no_faults inbox_key now cursor 100 1048576) s (as_db s) (Inr (Some ?page))"
    unfolding behind_live_rows [OF ok] take_map by (rule leads_load_inbox_items [OF key])
  obtain s' r where m: "load_inbox_items no_faults inbox_key now cursor 100 1048576 s = (s', r)" by fastforce
  have load: "load_inbox_items no_faults inbox_key now cursor 100 1048576 s = (s', Inr (Some ?page))"
    and s': "as_db s' = as_db s" "as_limits s' = as_limits s"
    using leads unfolding leads_def m by (simp_all only: fst_conv snd_conv m)
  have "bridge_get k route err now (inbox_url base inbox_key cursor) s =
      (Inr \<lparr>bi_items = map (cx_b64 k) (ip_items ?page), bi_next_cursor = ip_next_cursor ?page\<rparr>, s')"
  proof -
    have "normalize_inbox_limit (Some 100) = 100" "normalize_inbox_max_bytes None (rl_max_bytes (as_limits s)) = 1048576"
      by (simp_all add: normalize_inbox_limit_def MAX_INBOX_PAGE_LIMIT_def normalize_inbox_max_bytes_def
          RateLimitConfig_default_def limits)
    then show ?thesis using route load by (simp add: bridge_get_def get_inbox_def seq_res_def)
  qed
  moreover have "\<forall>r \<in> set ?rest. length (snd r) \<le> 1048576"
    using ok by (fastforce simp: behind_def live_rows_def inbox_ok_def MAX_INBOX_ITEM_BYTES_def)
  then have "page_of k ?rest \<lparr>bi_items = map (cx_b64 k) (ip_items ?page), bi_next_cursor = ip_next_cursor ?page\<rparr>"
    by (intro inbox_page_of) simp_all
  moreover have "serves k route base inbox_key now s'"
    using s s' by (simp add: serves_def live_rows_cong [OF s'(1)])
  ultimately show ?thesis using live_rows_cong [OF s'(1)] by blast
qed

interpretation bridge_pages: paged_inbox k "bridge_get k route err now" base inbox_key "live_rows inbox_key now"
    "serves k route base inbox_key now"
  for k route err now base inbox_key
proof
  fix s :: AppState
  assume s: "serves k route base inbox_key now s"
  then show "codec_correct k" by (simp add: serves_def)
  show "sorted_wrt (<) (map fst (live_rows inbox_key now s))"
    using s by (intro sorted_live_rows) (simp add: serves_def)
  show "\<exists>p s'. bridge_get k route err now (inbox_url base inbox_key cursor) s = (Inr p, s') \<and>
      page_of k (behind cursor (live_rows inbox_key now s)) p \<and>
      serves k route base inbox_key now s' \<and> live_rows inbox_key now s' = live_rows inbox_key now s"
    if "cursor = None \<or> cursor \<in> Some ` fst ` set (live_rows inbox_key now s)" for cursor
    using s that by (rule bridge_get_page)
qed

lemma behind_none:
  assumes "inbox_ok (as_db s)"
  shows "behind None (live_rows inbox_key now s) = live_rows inbox_key now s"
  using assms by (auto simp: behind_def live_rows_def inbox_ok_def filter_id_conv)

section \<open>Publishing\<close>

lemma live_rows_stored:
  assumes "as_db t = logged row ident Accepted (inbox_stored i item e (as_db s))" "db_inbox_seq (as_db s) < 2 ^ 63 - 1"
    and "as_i64 now < as_i64 e"
  shows "live_rows i now t = live_rows i now s @ [(db_inbox_seq (as_db s) + 1, item)]"
  using assms
  by (simp add: live_rows_def logged_def inbox_stored_def insert_inbox_item_def insert_inbox_key_def live_item_def)

lemma built_request_valid:
  assumes "ed25519_correct x" "codec_correct k" "ed25519_sizes x k" "length seed = 32"
    and build: "build_bridge_publish_request x k rng seed inp = Inr request"
    and "now < sat_add (be_now_unix inp) (be_grant_ttl_seconds inp)"
  shows "validate_grant x k now (iq_grant (wire_request request)) = Inr ()"
    and "pow_at_least (be_pow_params inp) minimum \<Longrightarrow> validate_puzzle x k (iq_puzzle (wire_request request)) minimum = Inr ()"
    and "cx_unb64 k (iq_data (wire_request request)) = Inr (be_envelope inp)"
    and "identity_from_grant k (iq_grant (wire_request request)) = Inr (cx_hex k (be_sender_user_id inp))"
    and "iq_ttl_seconds (wire_request request) = be_inbox_ttl_seconds inp"
proof -
  have b64 [simp]: "cx_unb64 k (cx_b64 k b) = Inr b" for b using assms(2) by (simp add: codec_correct_def)
  define grant where "grant = \<lparr>gt_user_id = be_sender_user_id inp, gt_role = be_role inp, gt_flags = be_flags inp,
    gt_expires_at = Some (sat_add (be_now_unix inp) (be_grant_ttl_seconds inp)), gt_extensions = []\<rparr>"
  obtain b where b: "ctap2_canonical_value_bytes (GrantToken_to_cbor grant) = Inr b"
    using build by (auto simp: build_bridge_publish_request_def grant_def hash_ctap2_cbor_value_def Let_def)
  let ?sig = "x_sign x seed (x_sha256 x b)"
  obtain pout where pout: "validate_pow_puzzle x (be_recipient_key_seed inp)
      (build_puzzle_input (generate_pow_nonce rng pow_nonce_len) (be_recipient_key_seed inp)) pout
      (be_pow_params inp) pow_minimum = Inr ()"
    and request: "wire_request request =
      \<lparr>iq_data = cx_b64 k (be_envelope inp),
       iq_grant = \<lparr>gp_user_id = cx_b64 k (be_sender_user_id inp), gp_role = be_role inp, gp_flags = be_flags inp,
         gp_expires_at = gt_expires_at grant, gp_verifying_key = cx_b64 k (x_verifying_key x seed),
         gp_signature = cx_b64 k ?sig\<rparr>,
       iq_puzzle = \<lparr>pp_recipient_key = cx_b64 k (be_recipient_key_seed inp),
         pp_puzzle_input = cx_b64 k (build_puzzle_input (generate_pow_nonce rng pow_nonce_len) (be_recipient_key_seed inp)),
         pp_puzzle_output = cx_b64 k pout,
         pp_params = Some \<lparr>wp_memory_kib = pow_memory_kib (be_pow_params inp), wp_iterations = pow_iterations (be_pow_params inp),
           wp_parallelism = pow_parallelism (be_pow_params inp), wp_output_len = pow_output_len (be_pow_params inp)\<rparr>\<rparr>,
       iq_ttl_seconds = be_inbox_ttl_seconds inp\<rparr>"
    using build b
    by (auto simp: build_bridge_publish_request_def wire_request_def grant_def [symmetric] hash_ctap2_cbor_value_def
        hash_bytes_def ed25519_sign_hash_def ed25519_verify_key_def Let_def) (auto simp: grant_def)
  have "validate_grant_token x now grant (x_verifying_key x seed) ?sig = Inr ()"
    using assms(1,4,6) b by (auto simp: validate_grant_token_eq_Inr ed25519_correct_def grant_def)
  then show "validate_grant x k now (iq_grant (wire_request request)) = Inr ()"
    using assms(3,4)
    by (simp add: request validate_grant_def bridge_decode_base64_def bridge_decode_verifying_key_def ed25519_sizes_def
        bridge_decode_signature_def bridge_decode_fixed_bytes_def grant_of_payload_def grant_def)
  assume "pow_at_least (be_pow_params inp) minimum"
  then have "validate_pow_puzzle x (be_recipient_key_seed inp)
      (build_puzzle_input (generate_pow_nonce rng pow_nonce_len) (be_recipient_key_seed inp)) pout
      (be_pow_params inp) minimum = Inr ()"
    using pout by (auto simp: validate_pow_puzzle_def pow_at_least_def not_less split: if_splits)
  then show "validate_puzzle x k (iq_puzzle (wire_request request)) minimum = Inr ()"
    by (cases "be_pow_params inp") (simp add: request validate_puzzle_def bridge_decode_base64_def puzzle_params_def)
qed (use build assms(2) in \<open>auto simp: build_bridge_publish_request_def wire_request_def identity_from_grant_def
    bridge_decode_base64_def codec_correct_def Let_def\<close>)

text \<open>A bridge that has room for a request of the identity with \<open>len\<close> bytes, at the cost \<open>params\<close>: with the requests
  of the last minute the identity stays within 120 requests and 1048576 bytes, and the cost reaches the one the
  bridge asks of the identity.\<close>

definition admits :: "crypto \<Rightarrow> codec \<Rightarrow> u64 \<Rightarrow> string \<Rightarrow> nat \<Rightarrow> PowParams \<Rightarrow> AppState \<Rightarrow> bool" where
  "admits x k now ident len params s \<longleftrightarrow> bridge_reachable x k s \<and> log_fits (as_db s) \<and>
    length (db_request_logs (as_db s)) < 2 ^ 63 - 1 \<and> db_inbox_seq (as_db s) < 2 ^ 63 - 1 \<and>
    (let rows = window_rows (as_db s) ident (as_i64 (sat_sub now 60))
     in length rows < 120 \<and> sum_list (map lg_bytes rows) + int len \<le> 1048576) \<and>
    pow_at_least params (required_pow_params (snapshot_in (as_db s) ident now) RateLimitConfig_default)"

lemma admits_mono: "admits x k now ident len params s \<Longrightarrow> len' \<le> len \<Longrightarrow> admits x k now ident len' params s"
  by (simp add: admits_def Let_def)

text \<open>Fewer than 20 requests with fewer than 262144 bytes in the last minute leave the base cost as it is.\<close>

lemma base_cost_suffices:
  assumes "length (window_rows d ident (as_i64 (sat_sub now 60))) < 20"
    and "0 \<le> sum_list (map lg_bytes (window_rows d ident (as_i64 (sat_sub now 60))))"
      "sum_list (map lg_bytes (window_rows d ident (as_i64 (sat_sub now 60)))) < 262144"
  shows "pow_at_least pow_minimum (required_pow_params (snapshot_in d ident now) RateLimitConfig_default)"
proof -
  let ?rows = "window_rows d ident (as_i64 (sat_sub now 60))"
  have "unat (i64_as_u64 (int (length ?rows))) < 20" "unat (i64_as_u64 (sum_list (map lg_bytes ?rows))) < 262144"
    using assms by (simp_all add: unat_i64_as_u64 nat_less_iff)
  then have "i64_as_u64 (int (length ?rows)) div 20 = 0" "i64_as_u64 (sum_list (map lg_bytes ?rows)) div 262144 = 0"
    by (simp_all add: word_arith_nat_div)
  then have "required_pow_params (snapshot_in d ident now) RateLimitConfig_default = pow_minimum"
    by (simp add: required_pow_params_def snapshot_in_def RateLimitConfig_default_def pow_minimum_def sat_sub_def sat_add_def
        sat_mul_def Let_def)
  then show ?thesis by (simp add: pow_at_least_def)
qed

lemma room_enforced:
  assumes "log_fits d" "length rows < 120" "sum_list (map lg_bytes rows) + int len \<le> 1048576"
    and rows: "rows = window_rows d ident (as_i64 (sat_sub now 60))"
  shows "enforce_rate_limits (snapshot_in d ident now) RateLimitConfig_default len = Inr ()"
proof -
  have pos: "0 \<le> sum_list (map lg_bytes rows)"
    using assms(1) sum_list_filter_bounds [of "db_request_logs d" lg_bytes] by (simp add: rows log_fits_def window_rows_def)
  have requests: "unat (i64_as_u64 (int (length rows)) + 1) = length rows + 1"
    using assms(2) by (simp add: unat_word_ariths unat_i64_as_u64)
  have "len \<le> 1048576" "sum_list (map lg_bytes rows) \<le> 1048576" using assms(3) pos by linarith+
  then have "unat (i64_as_u64 (sum_list (map lg_bytes rows)) + word_of_nat len) = nat (sum_list (map lg_bytes rows)) + len"
    using pos by (simp add: unat_word_ariths unat_i64_as_u64 unat_of_nat)
  then show ?thesis
    using assms(2,3) pos requests
    by (simp add: enforce_rate_limits_def snapshot_in_def RateLimitConfig_default_def word_less_nat_alt rows [symmetric] Let_def)
qed

lemma published_envelope_stored:
  assumes laws: "ed25519_correct x" "codec_correct k" "ed25519_sizes x k" "length seed = 32"
    and bridge: "admits x k (fst clock) (cx_hex k (be_sender_user_id inp)) (length (be_envelope inp)) (be_pow_params inp) s"
    and request: "build_bridge_publish_request x k rng seed inp = Inr request"
      "length (be_envelope inp) \<le> MAX_INBOX_ITEM_BYTES"
      "snd clock < sat_add (be_now_unix inp) (be_grant_ttl_seconds inp)"
    and expiry: "compute_inbox_expiration (fst clock) (be_inbox_ttl_seconds inp) = Inr e"
    and url: "route_put (trim_end_slashes base_url @ ''/inbox/'' @ cx_hex k inbox_key) = Some (cx_hex k inbox_key)"
  obtains s1 where
    "publish_to_inbox k (bridge_put x k route_put wire_request clock addr) base_url inbox_key request s = (Inr (), s1)"
    "inbox_ok (as_db s1)" "as_limits s1 = RateLimitConfig_default"
    "db_inbox_keys (as_db s1) = List.insert (cx_hex k inbox_key) (db_inbox_keys (as_db s))"
    "\<And>now. as_i64 now < as_i64 e \<Longrightarrow>
      live_rows (cx_hex k inbox_key) now s1 = live_rows (cx_hex k inbox_key) now s @ [(db_inbox_seq (as_db s) + 1, be_envelope inp)]"
proof -
  let ?key = "cx_hex k inbox_key" and ?ident = "cx_hex k (be_sender_user_id inp)"
  have free: "log_fits (as_db s)" "length (db_request_logs (as_db s)) < 2 ^ 63 - 1" "db_inbox_seq (as_db s) < 2 ^ 63 - 1"
    and quota: "length (window_rows (as_db s) ?ident (as_i64 (sat_sub (fst clock) 60))) < 120"
      "sum_list (map lg_bytes (window_rows (as_db s) ?ident (as_i64 (sat_sub (fst clock) 60)))) + int (length (be_envelope inp)) \<le> 1048576"
    and cost: "pow_at_least (be_pow_params inp)
      (required_pow_params (snapshot_in (as_db s) ?ident (fst clock)) RateLimitConfig_default)"
    and inv: "app_inv (db_ok x k) s"
    using bridge by (simp_all add: admits_def reachable_app_inv Let_def)
  have limits: "as_limits s = RateLimitConfig_default" using inv by (simp add: app_inv_def)
  note valid = built_request_valid [OF laws request(1,3)]
  note paid = room_enforced [OF free(1) quota refl]
  have "leads (put_inbox x k no_faults clock addr ?key (wire_request request)) s
      (logged (request_row (fst clock) ?ident (extract_ip addr) None (length (be_envelope inp)) InboxKind Accepted) ?ident
        Accepted (inbox_stored ?key (be_envelope inp) e (as_db s))) (Inr ())"
    using free limits request(2) valid(1,3,4,5) valid(2) [OF cost] paid expiry
    by (intro put_inbox_accepted) (simp_all add: room_def)
  then obtain s1 where put: "put_inbox x k no_faults clock addr ?key (wire_request request) s = (s1, Inr ())"
    and db: "as_db s1 = logged (request_row (fst clock) ?ident (extract_ip addr) None (length (be_envelope inp)) InboxKind Accepted)
        ?ident Accepted (inbox_stored ?key (be_envelope inp) e (as_db s))"
    and limits1: "as_limits s1 = as_limits s"
    unfolding leads_def by (cases "put_inbox x k no_faults clock addr ?key (wire_request request) s") auto
  show ?thesis
  proof
    show "publish_to_inbox k (bridge_put x k route_put wire_request clock addr) base_url inbox_key request s = (Inr (), s1)"
      using put url by (simp add: publish_to_inbox_def bridge_put_def)
    have "app_inv (db_ok x k) s1"
      using keepsD [OF keeps_put_inbox inv, of no_faults clock addr ?key "wire_request request"] put by simp
    then show "inbox_ok (as_db s1)" by (simp add: app_inv_def db_ok_def)
    show "as_limits s1 = RateLimitConfig_default" using limits limits1 by simp
    show "db_inbox_keys (as_db s1) = List.insert ?key (db_inbox_keys (as_db s))"
      using free(3) by (simp add: db logged_def inbox_stored_def insert_inbox_item_def insert_inbox_key_def)
    show "live_rows ?key now s1 = live_rows ?key now s @ [(db_inbox_seq (as_db s) + 1, be_envelope inp)]"
      if "as_i64 now < as_i64 e" for now
      by (rule live_rows_stored [OF db free(3) that])
  qed
qed

text \<open>Scanning an inbox the bridge serves ends with its live items; scanning one it has never stored to is
  refused.\<close>

lemma scan_served:
  assumes "serves k route (trim_end_slashes base_url) (cx_hex k inbox_key) now s"
  obtains s' where "scan_inbox k (bridge_get k route err now) base_url inbox_key s =
    Some (Inr \<lparr>is_items = map snd (live_rows (cx_hex k inbox_key) now s), is_source = Inbox.Bridge\<rparr>, s')"
proof -
  have "inbox_ok (as_db s)" using assms by (simp add: serves_def)
  then show ?thesis
    using bridge_pages.scan_complete [OF assms refl refl, of err] that unfolding behind_none [OF \<open>inbox_ok (as_db s)\<close>] by blast
qed

lemma scan_missing:
  assumes "cx_hex k inbox_key \<notin> set (db_inbox_keys (as_db s))"
    and "route (inbox_url (trim_end_slashes base_url) (cx_hex k inbox_key) None) = Some (cx_hex k inbox_key, query)"
  obtains s' where "scan_inbox k (bridge_get k route err now) base_url inbox_key s = Some (Inl (Http (err 404)), s')"
proof -
  have "leads (load_inbox_items no_faults (cx_hex k inbox_key) now cursor limit max_bytes) s (as_db s) (Inr None)"
    for cursor limit max_bytes
    unfolding load_inbox_items_def
    by (rule leads_with_conn) (use assms(1) in \<open>simp add: leads_def seq_res_def sqlite_def\<close>)
  then have "snd (get_inbox k no_faults now (cx_hex k inbox_key) query s) = Inl NotFound"
    by (simp add: get_inbox_def leads_def seq_res_def split_beta)
  then obtain s' where "get_inbox k no_faults now (cx_hex k inbox_key) query s = (s', Inl NotFound)"
    by (metis prod.collapse)
  then show ?thesis
    using assms(2) that by (simp add: scan_inbox_def scan_loop.simps bridge_get_def)
qed

end
