(* ===== verification/Client_Delivery.thy ===== *)
theory Client_Delivery
  imports Client_Inbox Client_Request Delivery
begin

text \<open>
  The client library against the bridge: the publish request of the client can always be built, and what the
  client has sent is opened again by the other members of the thread.
\<close>

section \<open>Publishing\<close>

text \<open>Argon2id accepts the default parameters and returns as many bytes as they ask for.\<close>

definition argon2_solves :: "crypto \<Rightarrow> bool" where
  "argon2_solves x \<longleftrightarrow> x_argon2_params x pow_minimum = Inr () \<and>
    (\<forall>i s. length i < 2 ^ 32 \<and> length s = 32 \<longrightarrow> (\<exists>out. x_argon2 x pow_minimum i s = Inr out \<and> length out = 32))"

lemma pow_minimum_len: "pow_output_len pow_minimum = 32"
  by (simp add: pow_minimum_def)

lemma toy_argon2_solves [simp]: "argon2_solves toy_crypto"
  by (simp add: argon2_solves_def toy_crypto_def pow_minimum_len del: take_append)

lemma bridge_request_built:
  assumes "sha256_len x" "argon2_solves x" "length (rng 32) = 32" "length sender = 32" "length key = 32"
  shows "\<exists>request. build_bridge_publish_request x k rng seed
    \<lparr>be_sender_user_id = sender, be_recipient_key_seed = key, be_envelope = payload, be_role = role, be_flags = None,
     be_now_unix = now, be_grant_ttl_seconds = grant_ttl, be_inbox_ttl_seconds = ttl, be_pow_params = pow_minimum\<rparr> = Inr request"
proof -
  let ?input = "build_puzzle_input (generate_pow_nonce rng pow_nonce_len) key"
  have "length ?input < 2 ^ 32"
    using assms(3,5) by (simp add: build_puzzle_input_def generate_pow_nonce_def pow_nonce_len_def)
  moreover have "length (derive_recipient_salt x key) = 32"
    using assms(1) by (simp add: derive_recipient_salt_def derive_recipient_salt_with_context_def sha256_len_def)
  ultimately obtain out where out: "generate_puzzle_output x key ?input pow_minimum = Inr out" "length out = 32"
    using assms(2) by (auto simp: generate_puzzle_output_def to_argon2_def argon2_solves_def Let_def)
  have "validate_pow_puzzle x key ?input out pow_minimum pow_minimum = Inr ()"
    using out by (simp add: validate_pow_puzzle_def verify_puzzle_output_def meets_minimum_def pow_minimum_len)
  then show ?thesis
    using out(1) grant_encodable [OF assms(4), of role "Some (sat_add now grant_ttl)"]
    by (auto simp: build_bridge_publish_request_def hash_ctap2_cbor_value_def Let_def)
qed

lemma hex_inject: "codec_correct k \<Longrightarrow> cx_hex k a = cx_hex k b \<longleftrightarrow> a = b"
  by (metis codec_correct_def sum.inject(2))

text \<open>The bridge stores what a client publishes, under the hash of the key it is published for.\<close>

lemma envelope_published:
  assumes laws: "sha256_len x" "argon2_solves x" "ed25519_correct x" "codec_correct k" "ed25519_sizes x k"
    and input: "length (rng 32) = 32" "hex_of k 32 (cx_hex k key)" "identity_ok x k identity"
    and payload: "ctap2_canonical_value_bytes (Envelope_to_cbor envelope) = Inr payload"
      "length payload \<le> MAX_INBOX_ITEM_BYTES"
    and bridge: "admits x k (fst clock) (id_user_id_hex identity) (length payload) pow_minimum b"
    and times: "snd clock < sat_add now 300" "compute_inbox_expiration (fst clock) ttl = Inr e"
    and url: "route_put (trim_end_slashes base_url @ ''/inbox/'' @ inbox_key_hex x k key) = Some (inbox_key_hex x k key)"
  obtains b1 where
    "publish_via_bridge x k rng now (bridge_put x k route_put wire_request clock addr) identity key envelope base_url ttl b = (Inr (), b1)"
    "inbox_ok (as_db b1)" "as_limits b1 = RateLimitConfig_default"
    "db_inbox_keys (as_db b1) = List.insert (inbox_key_hex x k key) (db_inbox_keys (as_db b))"
    "\<And>later. as_i64 later < as_i64 e \<Longrightarrow>
      live_rows (inbox_key_hex x k key) later b1 = live_rows (inbox_key_hex x k key) later b @ [(db_inbox_seq (as_db b) + 1, payload)]"
proof -
  obtain sender seed where sender: "length sender = 32" "id_user_id_hex identity = cx_hex k sender"
    and seed: "length seed = 32" "signing_key_from_hex k (id_signing_key_hex identity) = Inr seed"
    by (rule identity_keys [OF laws(4) input(3)])
  have key: "length key = 32" using input(2) hex_inject [OF laws(4)] by (auto simp: hex_of_def)
  let ?inp = "\<lparr>be_sender_user_id = sender, be_recipient_key_seed = key, be_envelope = payload, be_role = 1, be_flags = None,
     be_now_unix = now, be_grant_ttl_seconds = 300, be_inbox_ttl_seconds = ttl, be_pow_params = pow_minimum\<rparr>"
  obtain request where request: "build_bridge_publish_request x k rng seed ?inp = Inr request"
    using bridge_request_built [where rng = rng, OF laws(1,2) input(1) sender(1) key] by blast
  obtain b1 where
    "publish_to_inbox k (bridge_put x k route_put wire_request clock addr) base_url
      (sr_hashed_key (derive_inbox_scan_key x Sha256 key)) request b = (Inr (), b1)"
    and b1: "inbox_ok (as_db b1)" "as_limits b1 = RateLimitConfig_default"
      "db_inbox_keys (as_db b1) = List.insert (inbox_key_hex x k key) (db_inbox_keys (as_db b))"
      "\<And>later. as_i64 later < as_i64 e \<Longrightarrow>
        live_rows (inbox_key_hex x k key) later b1 = live_rows (inbox_key_hex x k key) later b @ [(db_inbox_seq (as_db b) + 1, payload)]"
    unfolding inbox_key_hex_def
    by (rule published_envelope_stored [where route_put = route_put and inbox_key = "sr_hashed_key (derive_inbox_scan_key x Sha256 key)"
        and inp = ?inp, simplified BridgeEnvelopePublishInput.select_convs, OF laws(3-5) seed(1) bridge [unfolded sender(2)] request payload(2) times url [unfolded inbox_key_hex_def]]) blast
  then have "publish_via_bridge x k rng now (bridge_put x k route_put wire_request clock addr) identity key envelope base_url ttl b =
      (Inr (), b1)"
    using sender(2) seed(2) payload(1) request laws(4) by (simp add: publish_via_bridge_def unhex_hex)
  then show ?thesis using b1 by (rule that)
qed

section \<open>Receiving\<close>

lemma sent_message:
  assumes "send_thread_message_for_state x k j rng now thread_id_hex text s = Some (s', Inr d)"
    and "ls_identity s = Some identity" "ls_threads s thread_id_hex = Some t"
  obtains t1 where "encrypt_and_chunk_message x k j rng identity (str_bytes text) t =
      Some (t1, Inr (td_envelope d, td_manifest d, td_chunks d))"
    "inbox_keys_for_thread k t1 (id_user_id_hex identity) = Inr (td_recipient_inbox_keys d)"
proof (cases "encrypt_and_chunk_message x k j rng identity (str_bytes text) t")
  case None
  then show ?thesis using assms
    by (simp add: send_thread_message_for_state_def clone_identity_from_state_def publish_thread_message_transport_def)
next
  case (Some p)
  obtain t1 m where p: "p = (t1, m)" by fastforce
  show ?thesis
  proof (cases m)
    case (Inl e)
    then show ?thesis using assms Some p
      by (simp add: send_thread_message_for_state_def clone_identity_from_state_def publish_thread_message_transport_def)
  next
    case (Inr q)
    obtain envelope manifest chunks where q: "q = (envelope, manifest, chunks)" by (rule prod_cases3)
    show ?thesis
    proof (cases "inbox_keys_for_thread k t1 (id_user_id_hex identity)")
      case (Inl e)
      then show ?thesis using assms Some p \<open>m = Inr q\<close> q
        by (simp add: send_thread_message_for_state_def clone_identity_from_state_def publish_thread_message_transport_def)
    next
      case keys: (Inr keys)
      have "td_envelope d = envelope \<and> td_manifest d = manifest \<and> td_chunks d = chunks \<and> td_recipient_inbox_keys d = keys"
        using assms Some p Inr q keys
        by (auto simp: send_thread_message_for_state_def clone_identity_from_state_def publish_thread_message_transport_def
            Let_def apsnd_def map_prod_def map_res_eq_Inr split_beta)
      then show ?thesis using that [of t1] Some p Inr q keys by simp
    qed
  qed
qed

text \<open>A message that another member sent is opened in the receiver's state.\<close>

lemma sent_message_opens:
  assumes laws: "aead_correct x" "codec_correct k" "ed25519_correct x" "ed25519_sizes x k" "cbor_laws j" "length (rng 12) = 12"
    and sent: "encrypt_and_chunk_message x k j rng identity plaintext t = Some (t1, Inr (envelope, manifest, chunks))"
    and names: "th_thread_id_hex t = cx_hex k thread_id" "id_user_id_hex identity = cx_hex k sender"
      "signing_key_from_hex k (id_signing_key_hex identity) = Inr seed"
    and receiver: "ls_threads r (cx_hex k thread_id) = Some t'" "same_group t t'"
      "knows_sender k r t' (cx_hex k sender) (x_verifying_key x seed)"
  obtains payload where "ctap2_canonical_value_bytes (Envelope_to_cbor envelope) = Inr payload"
    "decrypt_item x k j r payload = Some (Inr \<lparr>di_thread_id_hex = cx_hex k thread_id, di_sender_user_id_hex = cx_hex k sender,
      di_plaintext = plaintext\<rparr>)"
proof -
  obtain grp payload where
    seal: "seal_message x k j rng identity t1 grp (ucast (g_epoch grp)) (th_next_seq t) plaintext = Inr (envelope, payload)"
    and payload: "ctap2_canonical_value_bytes (Envelope_to_cbor envelope) = Inr payload"
    by (rule encrypted_message [OF sent]) blast
  obtain c where env: "build_envelope x k identity t1 (ucast (g_epoch grp)) (th_next_seq t) c = Inr envelope"
    using seal by (auto simp: seal_message_def Let_def)
  have "env_extensions envelope = []" by (rule built_envelope [OF env]) simp
  note parsed = parse_sent_payload [OF laws(5) this payload]
  note opened = sealed_message_decrypted [OF laws(1-4,6) sent names receiver(2,3)]
  have "decrypt_item x k j r payload = Some (Inr \<lparr>di_thread_id_hex = cx_hex k thread_id, di_sender_user_id_hex = cx_hex k sender,
      di_plaintext = plaintext\<rparr>)"
    using parsed opened receiver(1) by (simp add: decrypt_item_def)
  with payload show ?thesis by (rule that)
qed

text \<open>An inbox on the bridge whose items the receiver can all open.\<close>

definition opens :: "crypto \<Rightarrow> codec \<Rightarrow> serde \<Rightarrow> LocalState \<Rightarrow> bytes \<Rightarrow> DecryptedInboxItem \<Rightarrow> bool" where
  "opens x k j r payload item \<longleftrightarrow> decrypt_item x k j r payload = Some (Inr item)"

lemma traverse_opens:
  "list_all2 (opens x k j r) payloads items \<Longrightarrow> traverse_opt (decrypt_item x k j r) payloads = Some (Inr items)"
  by (induction rule: list_all2_induct) (simp_all add: opens_def)

lemma inbox_received:
  assumes "ls_p2p_inbox r (inbox_key_hex x k inbox_scan_key) = None"
    and "scan_inbox k get base_url inbox_scan_key b = Some (Inr \<lparr>is_items = payloads, is_source = Inbox.Bridge\<rparr>, b')"
    and "list_all2 (opens x k j r) payloads items"
  shows "receive_inbox_messages x k j get inbox_scan_key (Some base_url) (r, b) =
    Some ((r, b'), Inr \<lparr>dr_items = items, dr_source = Inbox.Bridge\<rparr>)"
  using assms traverse_opens [OF assms(3)] by (simp add: receive_inbox_messages_def resolve_inbox_from_state_def Let_def)

lemma opened_thread: "opens x k j r payload item \<Longrightarrow> ls_threads r (di_thread_id_hex item) \<noteq> None"
  by (auto simp: opens_def decrypt_item_def Let_def split: sum.splits option.splits)

text \<open>Items with readable texts, of threads the client has, are all recorded, each at the end of its thread.\<close>

lemma items_recorded:
  assumes "\<forall>i \<in> set items. from_utf8 (di_plaintext i) \<noteq> None \<and> ls_threads r (di_thread_id_hex i) \<noteq> None"
  shows "\<exists>r' receipts. record_inbox_messages stamps items r = (r', Inr receipts) \<and> length receipts = length items \<and>
    (\<forall>h. (ls_threads r' h = None \<longleftrightarrow> ls_threads r h = None) \<and> (\<forall>t. ls_threads r h = Some t \<longrightarrow>
      (\<exists>ms. ls_threads r' h = Some (t\<lparr>th_messages := th_messages t @ ms\<rparr>) \<and>
        length ms = length (filter (\<lambda>i. di_thread_id_hex i = h) items))))"
  using assms
proof (induction items arbitrary: r stamps)
  case (Cons i items)
  obtain body t where body: "from_utf8 (di_plaintext i) = Some body" and t: "ls_threads r (di_thread_id_hex i) = Some t"
    using Cons.prems by auto
  let ?m = "\<lparr>msg_sender_user_id = di_sender_user_id_hex i, msg_text = body, msg_sent_at = stamps 0\<rparr>"
  let ?r = "r\<lparr>ls_threads := (ls_threads r)(di_thread_id_hex i \<mapsto> t\<lparr>th_messages := th_messages t @ [?m]\<rparr>)\<rparr>"
  have first: "record_message (stamps 0) i r = (?r, Inr \<lparr>re_thread_id_hex = di_thread_id_hex i,
      re_sender_user_id_hex = di_sender_user_id_hex i, re_text = body\<rparr>)"
    using body t by (simp add: record_message_def)
  have "\<forall>i \<in> set items. from_utf8 (di_plaintext i) \<noteq> None \<and> ls_threads ?r (di_thread_id_hex i) \<noteq> None"
    using Cons.prems by simp
  from Cons.IH [OF this, of "\<lambda>n. stamps (n + 1)"] obtain r' receipts where
    rest: "record_inbox_messages (\<lambda>n. stamps (n + 1)) items ?r = (r', Inr receipts)" "length receipts = length items"
    and keys: "\<And>h. ls_threads r' h = None \<longleftrightarrow> ls_threads ?r h = None"
    and msgs: "\<And>h t. ls_threads ?r h = Some t \<Longrightarrow> \<exists>ms. ls_threads r' h = Some (t\<lparr>th_messages := th_messages t @ ms\<rparr>) \<and>
      length ms = length (filter (\<lambda>i. di_thread_id_hex i = h) items)"
    by blast
  have "\<exists>ms. ls_threads r' h = Some (u\<lparr>th_messages := th_messages u @ ms\<rparr>) \<and>
      length ms = length (filter (\<lambda>i. di_thread_id_hex i = h) (i # items))" if u: "ls_threads r h = Some u" for h u
  proof (cases "h = di_thread_id_hex i")
    case True
    then have "u = t" using u t by simp
    obtain ms where "ls_threads r' h = Some (t\<lparr>th_messages := (th_messages t @ [?m]) @ ms\<rparr>)"
      "length ms = length (filter (\<lambda>i. di_thread_id_hex i = h) items)"
      using msgs [of h "t\<lparr>th_messages := th_messages t @ [?m]\<rparr>"] True by auto
    then show ?thesis using True \<open>u = t\<close> by (intro exI [of _ "?m # ms"]) simp
  next
    case False
    then show ?thesis using msgs [of h u] u by simp
  qed
  moreover have "ls_threads r' h = None \<longleftrightarrow> ls_threads r h = None" for h using keys [of h] t by auto
  ultimately show ?case using first rest by simp
qed auto

lemma record_snoc:
  "record_inbox_messages stamps items r = (r', Inr receipts) \<Longrightarrow>
    record_inbox_messages stamps (items @ [i]) r = apsnd (map_res (\<lambda>receipt. receipts @ [receipt])) (record_message (stamps (length items)) i r')"
proof (induction items arbitrary: stamps r receipts)
  case Nil
  then show ?case by (cases "record_message (stamps 0) i r'"; cases "snd (record_message (stamps 0) i r')") auto
next
  case (Cons a items)
  obtain r1 q where q: "record_message (stamps 0) a r = (r1, Inr q)"
    using Cons.prems by (cases "record_message (stamps 0) a r"; cases "snd (record_message (stamps 0) a r)") auto
  obtain rest where "record_inbox_messages (\<lambda>n. stamps (n + 1)) items r1 = (r', Inr rest)" "receipts = q # rest"
    using Cons.prems q by (cases "record_inbox_messages (\<lambda>n. stamps (n + 1)) items r1"; cases "snd (record_inbox_messages (\<lambda>n. stamps (n + 1)) items r1)") auto
  from Cons.IH [OF this(1)] q this(2) show ?case
    by (cases "record_message (stamps (Suc (length items))) i r'"; cases "snd (record_message (stamps (Suc (length items))) i r')") auto
qed

lemma message_recorded:
  assumes "utf8_ok (map of_char text)" "ls_threads r h = Some t"
    and "\<forall>i \<in> set waiting. from_utf8 (di_plaintext i) \<noteq> None \<and> ls_threads r (di_thread_id_hex i) \<noteq> None"
  shows "\<exists>r' receipts ms. record_inbox_messages stamps
      (waiting @ [\<lparr>di_thread_id_hex = h, di_sender_user_id_hex = sender, di_plaintext = str_bytes text\<rparr>]) r =
      (r', Inr (receipts @ [\<lparr>re_thread_id_hex = h, re_sender_user_id_hex = sender, re_text = text\<rparr>])) \<and>
    length receipts = length waiting \<and>
    ls_threads r' h = Some (t\<lparr>th_messages := th_messages t @ ms @ [\<lparr>msg_sender_user_id = sender, msg_text = text,
       msg_sent_at = stamps (length waiting)\<rparr>]\<rparr>) \<and>
    length ms = length (filter (\<lambda>i. di_thread_id_hex i = h) waiting)"
proof -
  obtain r1 receipts ms where r1: "record_inbox_messages stamps waiting r = (r1, Inr receipts)" "length receipts = length waiting"
    "ls_threads r1 h = Some (t\<lparr>th_messages := th_messages t @ ms\<rparr>)"
    "length ms = length (filter (\<lambda>i. di_thread_id_hex i = h) waiting)"
    using items_recorded [OF assms(3), of stamps] assms(2) by blast
  from record_snoc [OF r1(1), of "\<lparr>di_thread_id_hex = h, di_sender_user_id_hex = sender, di_plaintext = str_bytes text\<rparr>"]
    r1(2-) assms(1) show ?thesis by (auto simp: record_message_def from_utf8_str_bytes intro: exI [of _ ms])
qed

section \<open>The two ends\<close>

text \<open>The sender's end: the message is sent, and every other member of the thread that knows the sender can
  open it.\<close>

lemma sent_message_readable:
  assumes laws: "sha256_len x" "ed25519_correct x" "ed25519_sizes x k" "aead_correct x" "aead_seals x"
      "codec_correct k" "cbor_laws j" "manifests_serialize j" "length (rng 12) = 12"
    and sender: "ls_identity s = Some identity" "identity_ok x k identity" "ls_threads s h = Some t" "thread_ok k h t"
    and members: "\<forall>m \<in> set (th_members t). hex_of k 32 m" "length (th_members t) < 2 ^ 32"
    and short: "length text < 2 ^ 32"
    and receiver: "ls_threads r h = Some t'" "same_group t t'" "id_verifying_key_hex identity = cx_hex k verifying_key"
      "knows_sender k r t' (id_user_id_hex identity) verifying_key"
  obtains s' d payload where "send_thread_message_for_state x k j rng now h text s = Some (s', Inr d)"
    "ctap2_canonical_value_bytes (Envelope_to_cbor (td_envelope d)) = Inr payload" "length payload \<le> length text + 273"
    "\<And>key. cx_hex k key \<in> set (th_members t) \<Longrightarrow> cx_hex k key \<noteq> id_user_id_hex identity \<Longrightarrow>
      key \<in> set (td_recipient_inbox_keys d)"
    "decrypt_item x k j r payload = Some (Inr \<lparr>di_thread_id_hex = h, di_sender_user_id_hex = id_user_id_hex identity,
      di_plaintext = str_bytes text\<rparr>)"
proof -
  obtain user seed where user: "id_user_id_hex identity = cx_hex k user"
    and seed: "signing_key_from_hex k (id_signing_key_hex identity) = Inr seed"
    and verifying: "id_verifying_key_hex identity = cx_hex k (x_verifying_key x seed)"
    by (rule identity_keys [OF laws(6) sender(2)])
  have vk: "verifying_key = x_verifying_key x seed" using receiver(3) verifying hex_inject [OF laws(6)] by simp
  obtain thread_id where h: "h = cx_hex k thread_id" "th_thread_id_hex t = cx_hex k thread_id"
    using sender(4) by (auto simp: thread_ok_def hex_of_def)
  obtain s' d payload where sent: "send_thread_message_for_state x k j rng now h text s = Some (s', Inr d)"
    and payload: "ctap2_canonical_value_bytes (Envelope_to_cbor (td_envelope d)) = Inr payload" "length payload \<le> length text + 273"
    and keys: "\<And>key. cx_hex k key \<in> set (th_members t) \<Longrightarrow> cx_hex k key \<noteq> id_user_id_hex identity \<Longrightarrow>
      key \<in> set (td_recipient_inbox_keys d)"
    by (rule message_sent [where rng = rng, OF laws(1,5,6,3,8,9) sender members short]) blast
  obtain t1 where sealed: "encrypt_and_chunk_message x k j rng identity (str_bytes text) t =
      Some (t1, Inr (td_envelope d, td_manifest d, td_chunks d))"
    by (rule sent_message [OF sent sender(1,3)])
  obtain payload' where "ctap2_canonical_value_bytes (Envelope_to_cbor (td_envelope d)) = Inr payload'"
    "decrypt_item x k j r payload' = Some (Inr \<lparr>di_thread_id_hex = h, di_sender_user_id_hex = id_user_id_hex identity,
      di_plaintext = str_bytes text\<rparr>)"
    unfolding h(1) user
    by (rule sent_message_opens [where rng = rng, OF laws(4,6,2,3,7,9) sealed h(2) user seed
          receiver(1) [unfolded h(1)] receiver(2,4) [unfolded user vk]])
  with payload(1) have "decrypt_item x k j r payload = Some (Inr \<lparr>di_thread_id_hex = h,
      di_sender_user_id_hex = id_user_id_hex identity, di_plaintext = str_bytes text\<rparr>)"
    by simp
  with sent payload keys show ?thesis by (rule that)
qed

text \<open>The receiver's end: what is published for a key is received under the hash of that key.\<close>

lemma published_message_received:
  assumes laws: "sha256_len x" "argon2_solves x" "ed25519_correct x" "codec_correct k" "ed25519_sizes x k"
    and input: "length (rng 32) = 32" "hex_of k 32 (cx_hex k key)" "identity_ok x k identity"
    and payload: "ctap2_canonical_value_bytes (Envelope_to_cbor envelope) = Inr payload"
      "length payload \<le> MAX_INBOX_ITEM_BYTES" "decrypt_item x k j r payload = Some (Inr item)"
    and receiver: "ls_p2p_inbox r (inbox_key_hex x k (x_sha256 x key)) = None"
    and bridge: "admits x k (fst clock) (id_user_id_hex identity) (length payload) pow_minimum b"
      "list_all2 (opens x k j r) (map snd (live_rows (inbox_key_hex x k key) later b)) waiting"
    and clocks: "snd clock < sat_add now 300" "compute_inbox_expiration (fst clock) ttl = Inr e" "as_i64 later < as_i64 e"
    and urls: "route_put (trim_end_slashes base_url @ ''/inbox/'' @ inbox_key_hex x k key) = Some (inbox_key_hex x k key)"
      "routes route (trim_end_slashes base_url) (inbox_key_hex x k key)
        (insert (db_inbox_seq (as_db b) + 1) (fst ` set (live_rows (inbox_key_hex x k key) later b)))"
  obtains b1 b2 where
    "publish_via_bridge x k rng now (bridge_put x k route_put wire_request clock addr) identity key envelope base_url ttl b = (Inr (), b1)"
    "receive_inbox_messages x k j (bridge_get k route err later) (x_sha256 x key) (Some base_url) (r, b1) =
      Some ((r, b2), Inr \<lparr>dr_items = waiting @ [item], dr_source = Inbox.Bridge\<rparr>)"
proof -
  obtain b1 where
    put: "publish_via_bridge x k rng now (bridge_put x k route_put wire_request clock addr) identity key envelope
        base_url ttl b = (Inr (), b1)"
    and b1: "inbox_ok (as_db b1)" "as_limits b1 = RateLimitConfig_default"
      "db_inbox_keys (as_db b1) = List.insert (inbox_key_hex x k key) (db_inbox_keys (as_db b))"
    and rows: "\<And>later. as_i64 later < as_i64 e \<Longrightarrow>
      live_rows (inbox_key_hex x k key) later b1 = live_rows (inbox_key_hex x k key) later b @ [(db_inbox_seq (as_db b) + 1, payload)]"
    by (rule envelope_published [where rng = rng and route_put = route_put, OF laws input payload(1,2) bridge(1)
          clocks(1,2) urls(1)]) blast
  have key: "cx_hex k (x_sha256 x key) = inbox_key_hex x k key"
    by (simp add: inbox_key_hex_def derive_inbox_scan_key_def hash_bytes_def Let_def)
  note live = rows [OF clocks(3)]
  then have serves: "serves k route (trim_end_slashes base_url) (cx_hex k (x_sha256 x key)) later b1"
    using laws(4) b1 urls(2) by (simp add: serves_def key)
  obtain b2 where "scan_inbox k (bridge_get k route err later) base_url (x_sha256 x key) b1 =
      Some (Inr \<lparr>is_items = map snd (live_rows (cx_hex k (x_sha256 x key)) later b1), is_source = Inbox.Bridge\<rparr>, b2)"
    by (rule scan_served [OF serves])
  then have "receive_inbox_messages x k j (bridge_get k route err later) (x_sha256 x key) (Some base_url) (r, b1) =
      Some ((r, b2), Inr \<lparr>dr_items = waiting @ [item], dr_source = Inbox.Bridge\<rparr>)"
    using bridge(2) payload(3) by (intro inbox_received [OF receiver]) (auto simp: key live opens_def intro: list_all2_appendI)
  with put show ?thesis by (rule that)
qed

text \<open>Under the key itself the bridge has nothing.\<close>

lemma published_message_missed:
  assumes laws: "sha256_len x" "argon2_solves x" "ed25519_correct x" "codec_correct k" "ed25519_sizes x k"
    and input: "length (rng 32) = 32" "hex_of k 32 (cx_hex k key)" "identity_ok x k identity"
    and payload: "ctap2_canonical_value_bytes (Envelope_to_cbor envelope) = Inr payload"
      "length payload \<le> MAX_INBOX_ITEM_BYTES"
    and receiver: "ls_p2p_inbox r (inbox_key_hex x k key) = None" "x_sha256 x key \<noteq> key"
    and bridge: "admits x k (fst clock) (id_user_id_hex identity) (length payload) pow_minimum b" "cx_hex k key \<notin> set (db_inbox_keys (as_db b))"
    and clocks: "snd clock < sat_add now 300" "compute_inbox_expiration (fst clock) ttl = Inr e" "as_i64 later < as_i64 e"
    and urls: "route_put (trim_end_slashes base_url @ ''/inbox/'' @ inbox_key_hex x k key) = Some (inbox_key_hex x k key)"
      "route (inbox_url (trim_end_slashes base_url) (cx_hex k key) None) = Some (cx_hex k key, query)"
  obtains b1 b2 where
    "publish_via_bridge x k rng now (bridge_put x k route_put wire_request clock addr) identity key envelope base_url ttl b = (Inr (), b1)"
    "payload \<in> snd ` set (live_rows (inbox_key_hex x k key) later b1)"
    "receive_inbox_messages x k j (bridge_get k route err later) key (Some base_url) (r, b1) =
      Some ((r, b2), Inl (CTransport (''http error: '' @ err 404)))"
proof -
  obtain b1 where
    put: "publish_via_bridge x k rng now (bridge_put x k route_put wire_request clock addr) identity key envelope
        base_url ttl b = (Inr (), b1)"
    and keys: "db_inbox_keys (as_db b1) = List.insert (inbox_key_hex x k key) (db_inbox_keys (as_db b))"
    and rows: "\<And>later. as_i64 later < as_i64 e \<Longrightarrow>
      live_rows (inbox_key_hex x k key) later b1 = live_rows (inbox_key_hex x k key) later b @ [(db_inbox_seq (as_db b) + 1, payload)]"
    by (rule envelope_published [where rng = rng and route_put = route_put, OF laws input payload(1,2) bridge(1)
          clocks(1,2) urls(1)]) blast
  have "inbox_key_hex x k key \<noteq> cx_hex k key"
    using receiver(2) hex_inject [OF laws(4)] by (simp add: inbox_key_hex_def derive_inbox_scan_key_def hash_bytes_def Let_def)
  then have "cx_hex k key \<notin> set (db_inbox_keys (as_db b1))" using bridge(2) by (simp add: keys)
  then obtain b2 where "scan_inbox k (bridge_get k route err later) base_url key b1 = Some (Inl (Http (err 404)), b2)"
    by (rule scan_missing [where route = route, OF _ urls(2)])
  then have "receive_inbox_messages x k j (bridge_get k route err later) key (Some base_url) (r, b1) =
      Some ((r, b2), Inl (CTransport (''http error: '' @ err 404)))"
    using receiver(1) by (simp add: receive_inbox_messages_def resolve_inbox_from_state_def transport_error_def Let_def)
  with put show ?thesis using rows [OF clocks(3)] by (intro that) simp_all
qed

section \<open>Instances for evaluation\<close>

definition sample_crypto :: crypto where
  "sample_crypto = toy_crypto\<lparr>x_sha256 := (\<lambda>d. map ((+) 1) (take 32 (d @ replicate 32 0))),
    x_seal := (\<lambda>_ _ _ p. Some (p @ replicate 16 0)), x_open := (\<lambda>_ _ _ c. Some (take (length c - 16) c))\<rparr>"

lemma sample_crypto_laws [simp]:
  "sha256_len sample_crypto" "ed25519_correct sample_crypto" "ed25519_sizes sample_crypto toy_codec"
  "aead_correct sample_crypto" "aead_seals sample_crypto" "argon2_solves sample_crypto"
proof -
  show "argon2_solves sample_crypto" "sha256_len sample_crypto" "ed25519_sizes sample_crypto toy_codec"
    by (simp_all add: sample_crypto_def toy_crypto_def toy_codec_def argon2_solves_def pow_minimum_len sha256_len_def
        ed25519_sizes_def del: take_append)
qed (simp_all add: sample_crypto_def toy_crypto_def ed25519_correct_def aead_correct_def aead_seals_def)

definition sample_serde :: serde where
  "sample_serde = toy_serde\<lparr>sd_manifest := (\<lambda>_. Inr [])\<rparr>"

lemma sample_serde_laws [simp]: "cbor_laws sample_serde" "manifests_serialize sample_serde"
  by (simp_all add: sample_serde_def toy_serde_def cbor_laws_def manifests_serialize_def ref_de_conforms ref_access_conforms)

abbreviation sample_name :: "u8 \<Rightarrow> string" where
  "sample_name b \<equiv> cx_hex toy_codec (replicate 32 b)"

text \<open>A thread of two clients that know each other.\<close>

definition sample_thread :: ThreadState where
  "sample_thread = \<lparr>th_thread_id_hex = sample_name 7, th_members = [sample_name 1, sample_name 2], th_created_at = 4,
    th_messages = [], th_proto_major = 1, th_proto_minor = 1, th_ciphersuite_id = 1, th_cfg_hash_id = 1,
    th_cfg_hash_hex = sample_name 8, th_flags = 0, th_initial_secret_hex = sample_name 9, th_next_seq = 0, th_epoch = 2\<rparr>"

definition sample_client :: "u8 \<Rightarrow> u8 \<Rightarrow> LocalState" where
  "sample_client own other = (toy_client own)
    \<lparr>ls_threads := [sample_name 7 \<mapsto> sample_thread],
     ls_contacts := [sample_name other \<mapsto> \<lparr>co_user_id_hex = sample_name other, co_verifying_key_hex = sample_name other,
       co_fingerprint = fingerprint_hex sample_crypto toy_codec (replicate 32 other), co_device_id_hex = '''', co_last_seen_at = 4\<rparr>]\<rparr>"

lemma sample_names [simp]: "hex_of toy_codec 32 (sample_name b)" "sample_name b = sample_name c \<longleftrightarrow> b = c"
proof -
  show "hex_of toy_codec 32 (sample_name b)" unfolding hex_of_def by (rule exI [of _ "replicate 32 b"]) simp
  show "sample_name b = sample_name c \<longleftrightarrow> b = c" using hex_inject [OF toy_codec_correct] by simp
qed

lemma sample_client_simps [simp]:
  "ls_identity (sample_client own other) = Some (toy_identity own)"
  "ls_threads (sample_client own other) (sample_name 7) = Some sample_thread"
  "ls_p2p_inbox (sample_client own other) key = None"
  "thread_ok toy_codec (sample_name 7) sample_thread" "th_members sample_thread = [sample_name 1, sample_name 2]"
  "identity_ok sample_crypto toy_codec (toy_identity own)" "same_group sample_thread sample_thread"
proof -
  have "identity_ok toy_crypto toy_codec (toy_identity own)" unfolding toy_identity_def by (rule created_identity_ok) simp
  then show "identity_ok sample_crypto toy_codec (toy_identity own)" by (simp add: identity_ok_def sample_crypto_def)
qed (simp_all add: sample_client_def toy_client_def LocalState_default_def thread_ok_def sample_thread_def same_group_def)

lemma sample_sender_known:
  assumes "own \<noteq> other" "sample_name other \<in> set (th_members sample_thread)"
  shows "knows_sender toy_codec (sample_client own other) sample_thread (sample_name other) (replicate 32 other)"
proof -
  have "resolve_sender_verifying_key toy_codec (sample_client own other) (sample_name other) = Inr (replicate 32 other)"
    using assms(1) by (simp add: resolve_sender_verifying_key_def sample_client_def into_array_def)
  then show ?thesis using assms(2) by (simp only: knows_sender_def simp_thms)
qed

definition sample_routes :: "string \<Rightarrow> routing" where
  "sample_routes inbox_key url = Some (inbox_key, \<lparr>nq_limit = Some 100,
     nq_cursor = (if url = inbox_url ''http://bridge'' inbox_key None then None else Some 1), nq_max_bytes = None\<rparr>)"

lemma sample_routes_ok: "routes (sample_routes inbox_key) (trim_end_slashes ''http://bridge/'') inbox_key {1}"
proof -
  have "inbox_url ''http://bridge'' inbox_key (Some 1) \<noteq> inbox_url ''http://bridge'' inbox_key None" by (simp add: inbox_url_def)
  then show ?thesis by (simp add: routes_def sample_routes_def trim_end_slashes_def)
qed

lemma fresh_bridge_admits: "len \<le> 1048576 \<Longrightarrow> admits x k now ident len pow_minimum fresh_bridge"
  using base_cost_suffices [of "as_db fresh_bridge" ident now]
  by (simp add: admits_def fresh_bridge_reachable log_fits_def window_rows_def)

lemma fresh_bridge_empty: "live_rows inbox_key now fresh_bridge = []"
  by (simp add: live_rows_def)

lemma sample_expiry: "compute_inbox_expiration (fst (4, 5 :: u64)) None = Inr 86404" "as_i64 8 < as_i64 86404"
  by (simp_all add: compute_inbox_expiration_def DEFAULT_INBOX_TTL_SECONDS_def MAX_INBOX_TTL_SECONDS_def checked_add_def as_i64_uint)

end
