(* ===== verification/Client_Store.thy ===== *)
theory Client_Store
  imports Client_Inbox
begin

text \<open>
  The encrypted state file of the client library, \<open>spex-client/src/lib.rs\<close>: where it is, how its key is
  found, and how the state is written and read.

  The machine is its files and its keychain entry; each operation on them may be refused.  The environment,
  the home directory (\<open>dirs\<close>), the keychain (\<open>keyring\<close>) and the password hash (\<open>argon2\<close> with its default
  parameters) are fields of a record \<open>host\<close>.  The outer option of \<open>decrypt_state_file\<close> and \<open>load_state\<close> is the
  panic of \<open>Nonce::from_slice\<close> on a nonce that is not 12 bytes long.
\<close>

section \<open>The machine\<close>

record machine =
  mc_files :: files
  mc_keychain :: "string option"

record host =
  ho_var :: "string \<Rightarrow> string option"
  ho_path :: "string \<Rightarrow> fs_path"
  ho_home :: "fs_path option"
  ho_no_home :: string
  ho_read :: "fs_path \<Rightarrow> string option"
  ho_missing :: string
  ho_not_text :: string
  ho_mkdir :: "string option"
  ho_write :: "(string \<times> bytes option) option"
  ho_entry :: "string option"
  ho_get_password :: "string option"
  ho_set_password :: "string option"
  ho_argon2 :: "bytes \<Rightarrow> bytes \<Rightarrow> string + bytes"

text \<open>\<open>fs::read_to_string\<close>\<close>

definition read_to_string :: "host \<Rightarrow> fs_path \<Rightarrow> machine \<Rightarrow> string + string" where
  "read_to_string h path m =
    (case ho_read h path of
       Some e \<Rightarrow> Inl e
     | None \<Rightarrow> bind_res (ok_or (ho_missing h) (mc_files m path)) (\<lambda>bs. ok_or (ho_not_text h) (from_utf8 bs)))"

text \<open>\<open>str::trim\<close>: the characters with the Unicode property \<open>White_Space\<close>, in UTF-8.\<close>

definition white_space :: "string list" where
  "white_space = map bytes_str ([[0x09], [0x0a], [0x0b], [0x0c], [0x0d], [0x20], [0xc2, 0x85], [0xc2, 0xa0],
    [0xe1, 0x9a, 0x80]] @ map (\<lambda>b. [0xe2, 0x80, b]) [0x80, 0x81, 0x82, 0x83, 0x84, 0x85, 0x86, 0x87, 0x88, 0x89, 0x8a,
    0xa8, 0xa9, 0xaf] @ [[0xe2, 0x81, 0x9f], [0xe3, 0x80, 0x80]])"

text \<open>Removes every leading occurrence of one of the words \<open>ws\<close>.\<close>

function strip_words :: "string list \<Rightarrow> string \<Rightarrow> string" where
  "strip_words ws s =
    (case find (\<lambda>w. w \<noteq> [] \<and> take (length w) s = w) ws of
       None \<Rightarrow> s
     | Some w \<Rightarrow> strip_words ws (drop (length w) s))"
  by pat_completeness auto

termination
proof (relation "measure (\<lambda>(ws, s). length s)")
  fix ws :: "string list" and s w
  assume "find (\<lambda>w. w \<noteq> [] \<and> take (length w) s = w) ws = Some w"
  then have "w \<noteq> []" "take (length w) s = w" by (auto simp: find_Some_iff)
  then show "((ws, drop (length w) s), (ws, s)) \<in> measure (\<lambda>(ws, s). length s)"
    by (cases s) (auto simp: neq_Nil_conv)
qed simp

declare strip_words.simps [simp del]

definition str_trim :: "string \<Rightarrow> string" where
  "str_trim s = rev (strip_words (map rev white_space) (rev (strip_words white_space s)))"

section \<open>Keys\<close>

datatype StateKeySource = Passphrase string | Keychain bytes

definition STATE_ENCRYPTION_FORMAT :: string where "STATE_ENCRYPTION_FORMAT = ''spex_encrypted_state''"
definition STATE_ENCRYPTION_VERSION :: u8 where "STATE_ENCRYPTION_VERSION = 1"
definition STATE_ENCRYPTION_AAD :: bytes where "STATE_ENCRYPTION_AAD = str_bytes ''spex-local-state''"
definition STATE_PASSPHRASE_FILE_ENV :: string where "STATE_PASSPHRASE_FILE_ENV = ''SPEX_STATE_PASSPHRASE_FILE''"
definition STATE_SALT_BYTES :: nat where "STATE_SALT_BYTES = 16"

definition state_path :: "host \<Rightarrow> ClientError + fs_path" where
  "state_path h =
    (case ho_var h ''SPEX_STATE_PATH'' of
       Some path \<Rightarrow> Inr (ho_path h path)
     | None \<Rightarrow> map_res (\<lambda>home. home @ [''.spex'', ''state.json'']) (ok_or (Io (ho_no_home h)) (ho_home h)))"

definition resolve_passphrase_from_file :: "host \<Rightarrow> machine \<Rightarrow> ClientError + string" where
  "resolve_passphrase_from_file h m =
    bind_res (ok_or (StateEncryption ''missing passphrase file variable'') (ho_var h STATE_PASSPHRASE_FILE_ENV)) (\<lambda>path.
    bind_res (map_err Io (read_to_string h (ho_path h path) m)) (\<lambda>contents.
    let passphrase = str_trim contents
    in if passphrase = '''' then Inl (StateEncryption ''passphrase file is empty'') else Inr passphrase))"

text \<open>Creates the entry when there is none.  \<open>rng\<close> supplies the new key.\<close>

definition resolve_keychain_key ::
    "codec \<Rightarrow> host \<Rightarrow> (nat \<Rightarrow> bytes) \<Rightarrow> machine \<Rightarrow> machine \<times> (ClientError + bytes)" where
  "resolve_keychain_key k h rng m =
    (case ho_entry h of
       Some e \<Rightarrow> (m, Inl (StateEncryption e))
     | None \<Rightarrow>
         (case ho_get_password h of
            Some e \<Rightarrow> (m, Inl (StateEncryption e))
          | None \<Rightarrow>
              (case mc_keychain m of
                 Some password \<Rightarrow> (m, map_err StateEncryption (cx_unb64 k password))
               | None \<Rightarrow>
                   (let key = rng 32; encoded = cx_b64 k key
                    in case ho_set_password h of
                         Some e \<Rightarrow> (m, Inl (StateEncryption e))
                       | None \<Rightarrow> (m\<lparr>mc_keychain := Some encoded\<rparr>, Inr key)))))"

definition resolve_state_key_source ::
    "codec \<Rightarrow> host \<Rightarrow> (nat \<Rightarrow> bytes) \<Rightarrow> machine \<Rightarrow> machine \<times> (ClientError + StateKeySource)" where
  "resolve_state_key_source k h rng m =
    (if ho_var h STATE_PASSPHRASE_FILE_ENV \<noteq> None
     then (m, map_res Passphrase (resolve_passphrase_from_file h m))
     else apsnd (map_res Keychain) (resolve_keychain_key k h rng m))"

definition derive_key_from_passphrase :: "host \<Rightarrow> string \<Rightarrow> bytes \<Rightarrow> ClientError + bytes" where
  "derive_key_from_passphrase h passphrase salt = map_err StateEncryption (ho_argon2 h (str_bytes passphrase) salt)"

text \<open>One word of the operating system's random source for each byte; a read may fail.\<close>

definition generate_state_salt :: "(nat \<Rightarrow> string + u32) \<Rightarrow> ClientError + bytes" where
  "generate_state_salt words =
    traverse (\<lambda>i. map_res ucast (map_err StateEncryption (words i))) [0 ..< STATE_SALT_BYTES]"

definition parse_keychain_key :: "bytes \<Rightarrow> ClientError + bytes" where
  "parse_keychain_key bs =
    (if length bs \<noteq> 32 then Inl (StateEncryption ''keychain key must be 32 bytes'') else Inr bs)"

section \<open>Encryption of the file\<close>

text \<open>The key with the name of its derivation and the salt, and what the key seals.\<close>

definition state_key :: "codec \<Rightarrow> host \<Rightarrow> (nat \<Rightarrow> string + u32) \<Rightarrow> StateKeySource \<Rightarrow> ClientError + string \<times> string \<times> bytes" where
  "state_key k h words key_source =
    (case key_source of
       Passphrase passphrase \<Rightarrow>
         bind_res (generate_state_salt words) (\<lambda>salt.
         bind_res (derive_key_from_passphrase h passphrase salt) (\<lambda>key.
         Inr (''argon2id'', cx_b64 k salt, key)))
     | Keychain key_bytes \<Rightarrow> bind_res (parse_keychain_key key_bytes) (\<lambda>key. Inr (''raw'', '''', key)))"

definition seal_state :: "crypto \<Rightarrow> codec \<Rightarrow> serde \<Rightarrow> bytes \<Rightarrow> bytes \<Rightarrow> string \<times> string \<times> bytes \<Rightarrow> ClientError + string" where
  "seal_state x k j nonce plaintext = (\<lambda>(kdf, salt_base64, key).
    if length key \<noteq> 32 then Inl (StateEncryption (sd_cipher_key_error j))
    else
      bind_res (ok_or (StateEncryption (sd_cipher_error j)) (x_seal x key nonce STATE_ENCRYPTION_AAD plaintext)) (\<lambda>ciphertext.
      map_err Json (sd_state_file j
        \<lparr>es_format = STATE_ENCRYPTION_FORMAT, es_version = STATE_ENCRYPTION_VERSION, es_kdf = kdf,
         es_salt_base64 = salt_base64, es_nonce_base64 = cx_b64 k nonce,
         es_ciphertext_base64 = cx_b64 k ciphertext\<rparr>)))"

definition encrypt_state_file ::
    "crypto \<Rightarrow> codec \<Rightarrow> serde \<Rightarrow> host \<Rightarrow> entropy \<Rightarrow> (nat \<Rightarrow> string + u32) \<Rightarrow> LocalState \<Rightarrow> machine \<Rightarrow> machine \<times> (ClientError + string)" where
  "encrypt_state_file x k j h rnd words s m =
    (case map_err Json (sd_state j s) of
       Inl e \<Rightarrow> (m, Inl e)
     | Inr plaintext \<Rightarrow>
         (let nonce = rnd 0 12;
              (m', key_source) = resolve_state_key_source k h (rnd 1) m
          in (m', bind_res key_source (\<lambda>key_source.
                  bind_res (state_key k h words key_source) (seal_state x k j nonce plaintext)))))"

definition parse_encrypted_state_file :: "serde \<Rightarrow> string \<Rightarrow> EncryptedStateFile option" where
  "parse_encrypted_state_file j contents =
    (case sd_parse_state_file j contents of
       Inl _ \<Rightarrow> None
     | Inr parsed \<Rightarrow> if es_format parsed \<noteq> STATE_ENCRYPTION_FORMAT then None else Some parsed)"

text \<open>The key a state file names, which may create the keychain entry.\<close>

definition state_file_key ::
    "codec \<Rightarrow> host \<Rightarrow> (nat \<Rightarrow> bytes) \<Rightarrow> EncryptedStateFile \<Rightarrow> machine \<Rightarrow> machine \<times> (ClientError + bytes)" where
  "state_file_key k h rng f m =
    (if es_kdf f = ''argon2id'' then
       (m, bind_res (resolve_passphrase_from_file h m) (\<lambda>passphrase.
           bind_res (map_err StateEncryption (cx_unb64 k (es_salt_base64 f))) (\<lambda>salt.
           derive_key_from_passphrase h passphrase salt)))
     else if es_kdf f = ''raw'' then
       apsnd (\<lambda>r. bind_res r parse_keychain_key) (resolve_keychain_key k h rng m)
     else (m, Inl (StateEncryption (''unknown kdf '' @ es_kdf f))))"

definition decrypt_state_file ::
    "crypto \<Rightarrow> codec \<Rightarrow> serde \<Rightarrow> host \<Rightarrow> (nat \<Rightarrow> bytes) \<Rightarrow> EncryptedStateFile \<Rightarrow> machine \<Rightarrow> (machine \<times> (ClientError + LocalState)) option" where
  "decrypt_state_file x k j h rng f m =
    (if es_version f \<noteq> STATE_ENCRYPTION_VERSION
     then Some (m, Inl (StateEncryption (''unsupported state version '' @ show_nat (unat (es_version f)))))
     else
       case bind_res (map_err StateEncryption (cx_unb64 k (es_nonce_base64 f))) (\<lambda>nonce.
            map_res (Pair nonce) (map_err StateEncryption (cx_unb64 k (es_ciphertext_base64 f)))) of
         Inl e \<Rightarrow> Some (m, Inl e)
       | Inr (nonce, ciphertext) \<Rightarrow>
           (case state_file_key k h rng f m of
              (m', Inl e) \<Rightarrow> Some (m', Inl e)
            | (m', Inr key) \<Rightarrow>
                if length key \<noteq> 32 then Some (m', Inl (StateEncryption (sd_cipher_key_error j)))
                else if length nonce \<noteq> 12 then None
                else Some (m', bind_res (ok_or (StateEncryption (sd_cipher_error j))
                       (x_open x key nonce STATE_ENCRYPTION_AAD ciphertext)) (\<lambda>plaintext.
                     map_err Json (sd_parse_state j plaintext)))))"

section \<open>Loading and saving\<close>

definition load_state ::
    "crypto \<Rightarrow> codec \<Rightarrow> serde \<Rightarrow> host \<Rightarrow> (nat \<Rightarrow> bytes) \<Rightarrow> machine \<Rightarrow> (machine \<times> (ClientError + LocalState)) option" where
  "load_state x k j h rng m =
    (case state_path h of
       Inl e \<Rightarrow> Some (m, Inl e)
     | Inr path \<Rightarrow>
         if mc_files m path = None then Some (m, Inr LocalState_default)
         else
           (case read_to_string h path m of
              Inl e \<Rightarrow> Some (m, Inl (Io e))
            | Inr contents \<Rightarrow>
                (case parse_encrypted_state_file j contents of
                   Some encrypted \<Rightarrow> decrypt_state_file x k j h rng encrypted m
                 | None \<Rightarrow> Some (m, map_err Json (sd_parse_state j (str_bytes contents))))))"

definition save_state ::
    "crypto \<Rightarrow> codec \<Rightarrow> serde \<Rightarrow> host \<Rightarrow> entropy \<Rightarrow> (nat \<Rightarrow> string + u32) \<Rightarrow> LocalState \<Rightarrow> machine \<Rightarrow> machine \<times> (ClientError + unit)" where
  "save_state x k j h rnd words s m =
    (case state_path h of
       Inl e \<Rightarrow> (m, Inl e)
     | Inr path \<Rightarrow>
         (case (if path_parent path = None then None else ho_mkdir h) of
            Some e \<Rightarrow> (m, Inl (Io e))
          | None \<Rightarrow>
              (case encrypt_state_file x k j h rnd words s m of
                 (m', Inl e) \<Rightarrow> (m', Inl e)
               | (m', Inr contents) \<Rightarrow>
                   (case ho_write h of
                      Some (e, left) \<Rightarrow> (m'\<lparr>mc_files := (mc_files m')(path := left)\<rparr>, Inl (Io e))
                    | None \<Rightarrow> (m'\<lparr>mc_files := (mc_files m')(path \<mapsto> str_bytes contents)\<rparr>, Inr ())))))"

section \<open>What is saved is loaded\<close>

text \<open>\<open>serde_json\<close> reads back what it wrote, and writes UTF-8.\<close>

definition state_serde :: "serde \<Rightarrow> bool" where
  "state_serde j \<longleftrightarrow> (\<forall>s b. sd_state j s = Inr b \<longrightarrow> sd_parse_state j b = Inr s) \<and>
    (\<forall>f c. sd_state_file j f = Inr c \<longrightarrow> utf8_ok (map of_char c) \<and> sd_parse_state_file j c = Inr f)"

lemma keychain_key_again:
  assumes "resolve_keychain_key k h rng m = (m1, Inr key)" "codec_correct k" "mc_keychain m2 = mc_keychain m1"
  shows "resolve_keychain_key k h rng' m2 = (m2, Inr key)" "mc_files m1 = mc_files m"
  using assms by (auto simp: resolve_keychain_key_def codec_correct_def Let_def split: option.splits)

lemma passphrase_again:
  assumes "\<And>p. ho_var h STATE_PASSPHRASE_FILE_ENV = Some p \<Longrightarrow> mc_files m2 (ho_path h p) = mc_files m (ho_path h p)"
  shows "resolve_passphrase_from_file h m2 = resolve_passphrase_from_file h m"
  using assms by (cases "ho_var h STATE_PASSPHRASE_FILE_ENV") (simp_all add: resolve_passphrase_from_file_def read_to_string_def split: option.split)

text \<open>The key of a file that was written is found again on every machine with the same keychain entry and the
  same passphrase file.\<close>

lemma sealed_state:
  assumes "seal_state x k j nonce plaintext (kdf, salt_base64, key) = Inr contents"
  obtains c where "length key = 32" "x_seal x key nonce STATE_ENCRYPTION_AAD plaintext = Some c"
    "sd_state_file j \<lparr>es_format = STATE_ENCRYPTION_FORMAT, es_version = STATE_ENCRYPTION_VERSION, es_kdf = kdf,
       es_salt_base64 = salt_base64, es_nonce_base64 = cx_b64 k nonce, es_ciphertext_base64 = cx_b64 k c\<rparr> = Inr contents"
  using assms by (auto simp: seal_state_def split: if_splits)

definition reads_key :: "codec \<Rightarrow> host \<Rightarrow> EncryptedStateFile \<Rightarrow> bytes \<Rightarrow> machine \<Rightarrow> machine \<Rightarrow> bool" where
  "reads_key k h f key m m1 \<longleftrightarrow> mc_files m1 = mc_files m \<and> (\<forall>m2 rng. mc_keychain m2 = mc_keychain m1 \<longrightarrow>
    (\<forall>p. ho_var h STATE_PASSPHRASE_FILE_ENV = Some p \<longrightarrow> mc_files m2 (ho_path h p) = mc_files m (ho_path h p)) \<longrightarrow>
    state_file_key k h rng f m2 = (m2, Inr key))"

lemma resolved_key:
  assumes "resolve_state_key_source k h rng m = (m1, Inr key_source)" "state_key k h words key_source = Inr (kdf, salt_base64, key)"
    and "codec_correct k" "es_kdf f = kdf" "es_salt_base64 f = salt_base64"
  shows "reads_key k h f key m m1"
proof (cases "ho_var h STATE_PASSPHRASE_FILE_ENV")
  case (Some p)
  then have "m = m1 \<and> (\<exists>p. resolve_passphrase_from_file h m = Inr p \<and> key_source = Passphrase p)"
    using assms(1) by (simp add: resolve_state_key_source_def) blast
  then obtain passphrase where source: "resolve_passphrase_from_file h m = Inr passphrase" "key_source = Passphrase passphrase"
    and m1: "m1 = m"
    by blast
  then obtain salt where salt: "derive_key_from_passphrase h passphrase salt = Inr key" "kdf = ''argon2id''" "salt_base64 = cx_b64 k salt"
    using assms(2) by (auto simp: state_key_def)
  have "state_file_key k h rng' f m2 = (m2, Inr key)"
    if "\<forall>p. ho_var h STATE_PASSPHRASE_FILE_ENV = Some p \<longrightarrow> mc_files m2 (ho_path h p) = mc_files m (ho_path h p)" for m2 rng'
    using passphrase_again [of h m2 m] that source(1) salt assms(3-5) by (simp add: state_file_key_def codec_correct_def)
  then show ?thesis by (simp add: reads_key_def m1)
next
  case None
  then obtain bytes where bytes: "resolve_keychain_key k h rng m = (m1, Inr bytes)" "key_source = Keychain bytes"
    using assms(1) by (cases "resolve_keychain_key k h rng m") (auto simp: resolve_state_key_source_def)
  then have "parse_keychain_key bytes = Inr key" "kdf = ''raw''" using assms(2) by (auto simp: state_key_def)
  then show ?thesis
    using keychain_key_again [OF bytes(1) assms(3)] assms(4) by (simp add: reads_key_def state_file_key_def)
qed

lemma encrypted_state_file:
  assumes "encrypt_state_file x k j h rnd words s m = (m1, Inr contents)" "codec_correct k"
  obtains f key plaintext c where "sd_state j s = Inr plaintext" "sd_state_file j f = Inr contents"
    "es_format f = STATE_ENCRYPTION_FORMAT" "es_version f = STATE_ENCRYPTION_VERSION"
    "es_nonce_base64 f = cx_b64 k (rnd 0 12)" "es_ciphertext_base64 f = cx_b64 k c"
    "x_seal x key (rnd 0 12) STATE_ENCRYPTION_AAD plaintext = Some c" "length key = 32" "reads_key k h f key m m1"
proof -
  obtain plaintext where plaintext: "sd_state j s = Inr plaintext"
    using assms(1) by (cases "sd_state j s") (simp_all add: encrypt_state_file_def)
  obtain m' r where r: "resolve_state_key_source k h (rnd 1) m = (m', r)" by fastforce
  with assms(1) plaintext obtain key_source kdf salt_base64 key where source: "resolve_state_key_source k h (rnd 1) m = (m1, Inr key_source)"
    and key: "state_key k h words key_source = Inr (kdf, salt_base64, key)"
    and sealed: "seal_state x k j (rnd 0 12) plaintext (kdf, salt_base64, key) = Inr contents"
    by (auto simp: encrypt_state_file_def Let_def)
  obtain c where c: "length key = 32" "x_seal x key (rnd 0 12) STATE_ENCRYPTION_AAD plaintext = Some c"
    and written: "sd_state_file j \<lparr>es_format = STATE_ENCRYPTION_FORMAT, es_version = STATE_ENCRYPTION_VERSION, es_kdf = kdf,
      es_salt_base64 = salt_base64, es_nonce_base64 = cx_b64 k (rnd 0 12), es_ciphertext_base64 = cx_b64 k c\<rparr> = Inr contents"
    by (rule sealed_state [OF sealed])
  show ?thesis
    by (rule that [OF plaintext written _ _ _ _ c(2,1) resolved_key [OF source key assms(2)]]) simp_all
qed

lemma saved_load:
  assumes laws: "aead_correct x" "codec_correct k" "state_serde j"
    and saved: "save_state x k j h rnd words s m = (m', Inr ())" "length (rnd 0 12) = 12"
    and path: "state_path h = Inr path" "ho_read h path = None"
      "\<And>p. ho_var h STATE_PASSPHRASE_FILE_ENV = Some p \<Longrightarrow> ho_path h p \<noteq> path"
  shows "load_state x k j h rng m' = Some (m', Inr s) \<and> (\<forall>p. p \<noteq> path \<longrightarrow> mc_files m' p = mc_files m p)"
proof -
  obtain m1 contents where encrypted: "encrypt_state_file x k j h rnd words s m = (m1, Inr contents)"
    and m': "m' = m1\<lparr>mc_files := (mc_files m1)(path \<mapsto> str_bytes contents)\<rparr>"
    using saved(1) path(1) by (auto simp: save_state_def split: option.splits sum.splits prod.splits if_splits)
  obtain f key plaintext c where f: "sd_state j s = Inr plaintext" "sd_state_file j f = Inr contents"
    "es_format f = STATE_ENCRYPTION_FORMAT" "es_version f = STATE_ENCRYPTION_VERSION"
    "es_nonce_base64 f = cx_b64 k (rnd 0 12)" "es_ciphertext_base64 f = cx_b64 k c"
    "x_seal x key (rnd 0 12) STATE_ENCRYPTION_AAD plaintext = Some c" "length key = 32" "reads_key k h f key m m1"
    by (rule encrypted_state_file [OF encrypted laws(2)])
  have files: "mc_files m1 = mc_files m" using f(9) by (simp add: reads_key_def)
  have "state_file_key k h rng f m' = (m', Inr key)" using path(3) f(9) by (auto simp: m' reads_key_def)
  then have "decrypt_state_file x k j h rng f m' = Some (m', Inr s)"
    using f laws saved(2) by (simp add: decrypt_state_file_def codec_correct_def aead_correct_def state_serde_def)
  moreover have "read_to_string h path m' = Inr contents" "parse_encrypted_state_file j contents = Some f"
    using path(2) laws(3) f(2,3)
    by (simp_all add: read_to_string_def m' state_serde_def from_utf8_str_bytes parse_encrypted_state_file_def)
  ultimately show ?thesis using path(1) files by (simp add: load_state_def m')
qed

section \<open>The store as an interface\<close>

text \<open>What a program that keeps its state between runs relies on: a state that was saved is the state that is
  loaded, and loading it leaves the machine as it is.  \<open>ready\<close> is what saving needs of its environment.\<close>

locale state_store =
  fixes load :: "'r \<Rightarrow> 'm \<Rightarrow> ('m \<times> ('e + 's)) option"
    and save :: "'q \<Rightarrow> 's \<Rightarrow> 'm \<Rightarrow> 'm \<times> ('e + unit)"
    and ready :: "'q \<Rightarrow> bool"
    and absent :: "'m \<Rightarrow> bool"
    and initial :: 's
  assumes load_saved: "ready q \<Longrightarrow> save q s m = (m', Inr ()) \<Longrightarrow> load r m' = Some (m', Inr s)"
    and load_absent: "absent m \<Longrightarrow> load r m = Some (m, Inr initial)"
begin

text \<open>A run loads the state, transforms it and saves it, and may change the rest of the machine while it
  works.  What every transformation keeps holds of the state that is there after any number of runs.\<close>

lemma first_run: "absent m \<Longrightarrow> P initial \<Longrightarrow> \<exists>s. P s \<and> (\<forall>r. load r m = Some (m, Inr s))"
  using load_absent by blast

lemma next_run:
  assumes before: "\<exists>s. P s \<and> (\<forall>r. load r m = Some (m, Inr s))"
    and run: "load r m = Some (m1, Inr s)" "P s \<Longrightarrow> P s1" "ready q" "save q s1 m2 = (m', Inr ())"
  shows "\<exists>s. P s \<and> (\<forall>r. load r m' = Some (m', Inr s))"
proof -
  have "P s1" using before run(1,2) by auto
  then show ?thesis using load_saved [OF run(3,4)] by blast
qed

end

text \<open>The laws of the libraries, and what the machine must leave alone: the file of the state can be read, and
  it is not the passphrase file.\<close>

definition store_ready :: "crypto \<Rightarrow> codec \<Rightarrow> serde \<Rightarrow> host \<Rightarrow> bool" where
  "store_ready x k j h \<longleftrightarrow> aead_correct x \<and> codec_correct k \<and> state_serde j \<and>
    (case state_path h of
       Inl _ \<Rightarrow> False
     | Inr path \<Rightarrow> ho_read h path = None \<and>
         (case ho_var h STATE_PASSPHRASE_FILE_ENV of None \<Rightarrow> True | Some p \<Rightarrow> ho_path h p \<noteq> path))"

definition no_state :: "host \<Rightarrow> machine \<Rightarrow> bool" where
  "no_state h m = (case state_path h of Inl _ \<Rightarrow> False | Inr path \<Rightarrow> mc_files m path = None)"

interpretation state_file: state_store "load_state x k j h"
    "\<lambda>(rnd, words). save_state x k j h rnd words"
    "\<lambda>(rnd, words). store_ready x k j h \<and> length (rnd 0 12) = 12" "no_state h" LocalState_default
  for x k j h
proof
  fix q :: "entropy \<times> (nat \<Rightarrow> string + u32)" and s m m' r
  assume ready: "case q of (rnd, words) \<Rightarrow> store_ready x k j h \<and> length (rnd 0 12) = 12"
    and saved: "(case q of (rnd, words) \<Rightarrow> save_state x k j h rnd words) s m = (m', Inr ())"
  obtain rnd words where q: "q = (rnd, words)" by fastforce
  obtain path where path: "state_path h = Inr path" "ho_read h path = None"
    and other: "\<forall>p. ho_var h STATE_PASSPHRASE_FILE_ENV = Some p \<longrightarrow> ho_path h p \<noteq> path"
    using ready q by (cases "ho_var h STATE_PASSPHRASE_FILE_ENV") (auto simp: store_ready_def split: sum.splits)
  show "load_state x k j h r m' = Some (m', Inr s)"
    using saved_load [OF _ _ _ _ _ path] other ready saved q by (simp add: store_ready_def)
qed (auto simp: no_state_def load_state_def split: sum.splits)

text \<open>C11. A state that was saved is the state that is loaded, whether its key comes from the passphrase file or
  from the keychain, with whatever random source, and loading leaves the machine as it is.  Saving changes no
  other file.\<close>

theorem saved_state_loaded:
  assumes laws: "aead_correct x" "codec_correct k" "state_serde j"
    and saved: "save_state x k j h rnd words s m = (m', Inr ())" "length (rnd 0 12) = 12"
    and path: "state_path h = Inr path" "ho_read h path = None"
      "\<And>p. ho_var h STATE_PASSPHRASE_FILE_ENV = Some p \<Longrightarrow> ho_path h p \<noteq> path"
  shows "load_state x k j h rng m' = Some (m', Inr s) \<and> (\<forall>p. p \<noteq> path \<longrightarrow> mc_files m' p = mc_files m p)"
  by (rule saved_load [OF laws saved path])

text \<open>A machine with a keychain, and a serializer that knows two states and the files made with one nonce.\<close>

definition sample_host :: host where
  "sample_host = \<lparr>ho_var = (\<lambda>_. None), ho_path = (\<lambda>p. [p]), ho_home = Some [''home''], ho_no_home = '''',
    ho_read = (\<lambda>_. None), ho_missing = '''', ho_not_text = '''', ho_mkdir = None, ho_write = None, ho_entry = None,
    ho_get_password = None, ho_set_password = None, ho_argon2 = (\<lambda>_ _. Inl '''')\<rparr>"

definition sample_file :: "string \<Rightarrow> EncryptedStateFile" where
  "sample_file c = \<lparr>es_format = STATE_ENCRYPTION_FORMAT, es_version = STATE_ENCRYPTION_VERSION, es_kdf = ''raw'',
    es_salt_base64 = '''', es_nonce_base64 = cx_b64 toy_codec (replicate 12 5), es_ciphertext_base64 = c\<rparr>"

definition state_sample_serde :: serde where
  "state_sample_serde = toy_serde\<lparr>sd_state := (\<lambda>s. if s = toy_client 1 then Inr [1] else if s = LocalState_default then Inr [0]
      else Inl ''unknown state''),
    sd_parse_state := (\<lambda>b. Inr (if b = [0] then LocalState_default else toy_client 1)),
    sd_state_file := (\<lambda>f. if f = sample_file (es_ciphertext_base64 f) \<and> utf8_ok (map of_char (es_ciphertext_base64 f))
      then Inr (es_ciphertext_base64 f) else Inl ''unknown file''),
    sd_parse_state_file := (\<lambda>c. Inr (sample_file c))\<rparr>"

lemma sample_serde_ok: "state_serde state_sample_serde"
  by (auto simp: state_serde_def state_sample_serde_def sample_file_def split: if_splits)

lemma sample_path: "state_path sample_host = Inr [''home'', ''.spex'', ''state.json'']"
  by (simp add: state_path_def sample_host_def)

abbreviation sample_save :: "LocalState \<Rightarrow> machine \<Rightarrow> machine \<times> (ClientError + unit)" where
  "sample_save \<equiv> save_state toy_crypto toy_codec state_sample_serde sample_host (\<lambda>_ n. replicate n 5) (\<lambda>_. Inl '''')"

lemma sample_saved:
  assumes "mc_keychain m = None \<or> mc_keychain m = Some (cx_b64 toy_codec (replicate 32 5))"
    and "s = toy_client 1 \<or> s = LocalState_default"
  obtains m' where "sample_save s m = (m', Inr ())" "mc_keychain m' = Some (cx_b64 toy_codec (replicate 32 5))"
proof -
  have "\<exists>b. sd_state state_sample_serde s = Inr [b] \<and> b \<in> {0, 1}"
    using assms(2) by (cases "s = toy_client 1") (simp_all add: state_sample_serde_def)
  then obtain b where b: "sd_state state_sample_serde s = Inr [b]" "b \<in> {0, 1}" by blast
  let ?c = "bytes_str (replicate 32 5 @ replicate 12 5 @ STATE_ENCRYPTION_AAD @ [b])"
  let ?m = "m\<lparr>mc_keychain := Some (cx_b64 toy_codec (replicate 32 5))\<rparr>"
  have "utf8_ok (map of_char (bytes_str (replicate 32 5 @ replicate 12 5 @ STATE_ENCRYPTION_AAD @ [0])))"
    "utf8_ok (map of_char (bytes_str (replicate 32 5 @ replicate 12 5 @ STATE_ENCRYPTION_AAD @ [1])))" by code_simp+
  then have ascii: "utf8_ok (map of_char ?c)" using b(2) by blast
  have key: "resolve_state_key_source toy_codec sample_host (\<lambda>n. replicate n 5) m = (?m, Inr (Keychain (replicate 32 5)))"
    using assms(1) by (auto simp: resolve_state_key_source_def resolve_keychain_key_def sample_host_def toy_codec_def Let_def)
  have "seal_state toy_crypto toy_codec state_sample_serde (replicate 12 5) [b] (''raw'', '''', replicate 32 5) = Inr ?c"
    using ascii by (simp add: seal_state_def toy_crypto_def state_sample_serde_def sample_file_def) (simp add: toy_codec_def)
  then have "encrypt_state_file toy_crypto toy_codec state_sample_serde sample_host (\<lambda>_ n. replicate n 5) (\<lambda>_. Inl '''')
      s m = (?m, Inr ?c)"
    using key b(1) by (simp add: encrypt_state_file_def state_key_def parse_keychain_key_def)
  moreover have "ho_mkdir sample_host = None" "ho_write sample_host = None" by (simp_all add: sample_host_def)
  ultimately have "sample_save s m = (?m\<lparr>mc_files := (mc_files m)([''home'', ''.spex'', ''state.json''] \<mapsto> str_bytes ?c)\<rparr>, Inr ())"
    by (simp add: save_state_def sample_path)
  then show ?thesis by (rule that) simp
qed

theorem saved_state_loaded_witness:
  "\<exists>m'. sample_save (toy_client 1) \<lparr>mc_files = Map.empty, mc_keychain = None\<rparr> = (m', Inr ()) \<and>
    load_state toy_crypto toy_codec state_sample_serde sample_host (\<lambda>n. replicate n 6) m' = Some (m', Inr (toy_client 1))"
proof -
  obtain m' where saved: "sample_save (toy_client 1) \<lparr>mc_files = Map.empty, mc_keychain = None\<rparr> = (m', Inr ())"
    by (rule sample_saved [of "\<lparr>mc_files = Map.empty, mc_keychain = None\<rparr>" "toy_client 1"]) simp_all
  with saved_state_loaded [OF toy_crypto_laws(4) toy_codec_correct sample_serde_ok saved _ sample_path, of "\<lambda>n. replicate n 6"]
  show ?thesis by (simp add: sample_host_def)
qed

end
