(* ===== verification/Cli.thy ===== *)
theory Cli
  imports Client_Store Client_Request P2p_Flow Bridge_Store
begin

text \<open>
  The command line program, \<open>spex-cli/main.rs\<close>: the commands, and the run that loads the state, dispatches
  one command and saves the state.

  Parsing of the arguments is \<open>clap\<close>'s: a run starts from a value of \<open>Commands\<close>.  The network is the
  bridge's and the swarm's models; the lines printed on standard output are kept in order.
\<close>

section \<open>Commands\<close>

datatype IdentityCommand = NewIdentity | Rotate

datatype CardCommand = CreateCard | RedeemCard string

datatype RequestCommand = SendRequest string u64

datatype GrantCommand = AcceptRequest string | DenyRequest string

datatype ThreadCommand = NewThread "string list"

text \<open>The flags \<open>--p2p\<close>, \<open>--peer\<close>, \<open>--bootstrap\<close>, \<open>--listen-addr\<close> and \<open>--p2p-wait-secs\<close> of two commands.\<close>

record p2p_flags =
  pf_p2p :: bool
  pf_peer :: "string list"
  pf_bootstrap :: "string list"
  pf_listen_addr :: "string list"
  pf_wait_secs :: u64

datatype MsgCommand = SendMsg string string "string option" "u64 option" p2p_flags

datatype InboxCommand = Poll "string option" "string option" p2p_flags

datatype LogCommand =
    AppendCheckpoint
  | CreateRecoveryKey
  | RevokeKey string "string option" "string option"
  | ExportLog string
  | ExportAbuse string string AbuseLogFilter
  | ImportLog string
  | GossipVerify string
  | LogInfo

datatype Commands =
    IdentityCmd IdentityCommand
  | CardCmd CardCommand
  | RequestCmd RequestCommand
  | GrantCmd GrantCommand
  | ThreadCmd ThreadCommand
  | MsgCmd MsgCommand
  | InboxCmd InboxCommand
  | LogCmd LogCommand

section \<open>The world of a run\<close>

text \<open>
  \<open>ce_rnd i\<close> is the random source of the \<open>i\<close>-th part of a run: loading, the command, saving, and the
  publication to each recipient.
\<close>

record 'b cli_env =
  ce_host :: host
  ce_rnd :: "nat \<Rightarrow> entropy"
  ce_words :: "nat \<Rightarrow> string + u32"
  ce_now :: "nat \<Rightarrow> u64"
  ce_get :: "'b http_get"
  ce_put :: "string \<Rightarrow> BridgePublishRequest \<Rightarrow> 'b \<Rightarrow> (string + nat \<times> string option) \<times> 'b"
  ce_lib :: p2p_lib
  ce_parse_addr :: "string \<Rightarrow> string + multiaddr"
  ce_listen :: "multiaddr \<Rightarrow> string + unit"
  ce_peer_id :: peer_id
  ce_node_start :: nat
  ce_node_events :: "(nat \<times> swarm_event) list"
  ce_sqlite :: sqlite_faults
  ce_record_json :: "AbuseLogRecord \<Rightarrow> string + string"

record 'b world =
  w_machine :: machine
  w_bridge :: 'b
  w_audit :: AppState
  w_out :: "string list"

definition println :: "string \<Rightarrow> 'b world \<Rightarrow> 'b world" where
  "println line w = w\<lparr>w_out := w_out w @ [line]\<rparr>"

definition write_file :: "host \<Rightarrow> fs_path \<Rightarrow> bytes \<Rightarrow> 'b world \<Rightarrow> 'b world \<times> (ClientError + unit)" where
  "write_file h path contents w =
    (case ho_write h of
       Some (e, left) \<Rightarrow>
         (w\<lparr>w_machine := (w_machine w)\<lparr>mc_files := (mc_files (w_machine w))(path := left)\<rparr>\<rparr>, Inl (Io e))
     | None \<Rightarrow>
         (w\<lparr>w_machine := (w_machine w)\<lparr>mc_files := (mc_files (w_machine w))(path \<mapsto> contents)\<rparr>\<rparr>, Inr ()))"

section \<open>Helpers\<close>

definition parse_multiaddrs :: "(string \<Rightarrow> string + multiaddr) \<Rightarrow> string list \<Rightarrow> ClientError + multiaddr list" where
  "parse_multiaddrs parse values =
    traverse (\<lambda>v. map_err (\<lambda>e. CTransport (''invalid multiaddr: '' @ e)) (parse v)) values"

definition build_p2p_config ::
    "multiaddr list \<Rightarrow> multiaddr list \<Rightarrow> multiaddr list \<Rightarrow> nat \<Rightarrow> nat \<Rightarrow> nat \<Rightarrow> P2pNodeConfig" where
  "build_p2p_config listen_addrs peers bootstrap_nodes publish_wait manifest_wait query_timeout =
    (let config = P2pNodeConfig_default;
         config = (if listen_addrs \<noteq> [] then config\<lparr>nc_listen_addrs := listen_addrs\<rparr> else config)
     in config\<lparr>nc_peers := peers, nc_bootstrap_nodes := bootstrap_nodes, nc_publish_wait := publish_wait,
               nc_manifest_wait := manifest_wait, nc_query_timeout := query_timeout\<rparr>)"

definition should_use_p2p :: "bool \<Rightarrow> string list \<Rightarrow> string list \<Rightarrow> string list \<Rightarrow> bool" where
  "should_use_p2p enabled peers bootstrap listen \<longleftrightarrow> enabled \<or> peers \<noteq> [] \<or> bootstrap \<noteq> [] \<or> listen \<noteq> []"

text \<open>\<open>None\<close> is a node whose wait for a listen address never ends.\<close>

definition build_p2p_transport ::
    "'b cli_env \<Rightarrow> p2p_flags \<Rightarrow> 'b world \<Rightarrow> ('b world \<times> (ClientError + P2pTransport)) option" where
  "build_p2p_transport env f w =
    (let wait_duration = secs (unat (pf_wait_secs f)) in
     case bind_res (parse_multiaddrs (ce_parse_addr env) (pf_listen_addr f)) (\<lambda>listen_addrs.
          bind_res (parse_multiaddrs (ce_parse_addr env) (pf_peer f)) (\<lambda>peers.
          bind_res (parse_multiaddrs (ce_parse_addr env) (pf_bootstrap f)) (\<lambda>bootstrap_nodes.
          Inr (build_p2p_config listen_addrs peers bootstrap_nodes wait_duration wait_duration wait_duration)))) of
       Inl e \<Rightarrow> Some (w, Inl e)
     | Inr node_config \<Rightarrow>
         map_option (\<lambda>(fs, r). (w\<lparr>w_machine := (w_machine w)\<lparr>mc_files := fs\<rparr>\<rparr>, map_err transport_error r))
           (P2pTransport_new (ce_lib env) (ce_listen env) TransportConfig_default node_config (ce_peer_id env)
             (ce_node_start env) (ce_node_events env) (mc_files (w_machine w))))"

text \<open>The files the node leaves are the machine's.\<close>

definition keep_node_files :: "P2pTransport \<Rightarrow> 'b world \<Rightarrow> 'b world" where
  "keep_node_files t w = w\<lparr>w_machine := (w_machine w)\<lparr>mc_files := pt_files t\<rparr>\<rparr>"

definition recover_payloads_with_fallback ::
    "crypto \<Rightarrow> codec \<Rightarrow> 'b cli_env \<Rightarrow> P2pTransport \<Rightarrow> bytes \<Rightarrow> nat \<Rightarrow> string option \<Rightarrow> 'b world \<Rightarrow>
      ('b world \<times> (ClientError + InboxScanResponse)) option" where
  "recover_payloads_with_fallback x k env transport inbox_key wait bridge w =
    (case recover_payloads_for_inbox x k (ce_lib env) inbox_key wait transport of
       None \<Rightarrow> None
     | Some (t, r) \<Rightarrow>
         (let w1 = keep_node_files t w;
              scan = (\<lambda>base_url. map_option (\<lambda>(r, b). (w1\<lparr>w_bridge := b\<rparr>, map_err transport_error r))
                (scan_inbox k (ce_get env) base_url inbox_key (w_bridge w1)))
          in case r of
               Inl err \<Rightarrow>
                 (case bridge of
                    Some base_url \<Rightarrow> scan base_url
                  | None \<Rightarrow> Some (w1, Inl (transport_error err)))
             | Inr payloads \<Rightarrow>
                 if payloads \<noteq> [] then Some (w1, Inr \<lparr>is_items = payloads, is_source = Kademlia\<rparr>)
                 else
                   (case bridge of
                      Some base_url \<Rightarrow> scan base_url
                    | None \<Rightarrow> Some (w1, Inr \<lparr>is_items = [], is_source = Kademlia\<rparr>))))"

text \<open>\<open>lines.join("\n")\<close>\<close>

fun join_lines :: "string list \<Rightarrow> string" where
  "join_lines [] = ''''"
| "join_lines [l] = l"
| "join_lines (l # ls) = l @ [CHR 0x0A] @ join_lines ls"

definition export_abuse_log_file ::
    "'b cli_env \<Rightarrow> string \<Rightarrow> AbuseLogRecord list \<Rightarrow> 'b world \<Rightarrow> 'b world \<times> (ClientError + unit)" where
  "export_abuse_log_file env path records w =
    (case traverse (\<lambda>r. map_err Json (ce_record_json env r)) records of
       Inl e \<Rightarrow> (w, Inl e)
     | Inr lines \<Rightarrow> write_file (ce_host env) (ho_path (ce_host env) path) (str_bytes (join_lines lines)) w)"

definition digest_prefix :: "crypto \<Rightarrow> codec \<Rightarrow> string \<Rightarrow> string" where
  "digest_prefix x k v = take 16 (cx_hex k (hash_bytes x Sha256 (str_bytes v)))"

section \<open>Identity, cards, requests, grants and threads\<close>

type_synonym 'b step = "LocalState \<times> 'b world \<Rightarrow> ((LocalState \<times> 'b world) \<times> (ClientError + unit)) option"

definition run_identity :: "crypto \<Rightarrow> codec \<Rightarrow> serde \<Rightarrow> 'b cli_env \<Rightarrow> IdentityCommand \<Rightarrow> 'b step" where
  "run_identity x k j env command = (\<lambda>(s, w).
    case command of
      NewIdentity \<Rightarrow>
        (let (s', identity) = create_identity_in_state x k (ce_rnd env 1) s
         in case unhex k (id_verifying_key_hex identity) of
              Inl e \<Rightarrow> Some ((s', w), Inl e)
            | Inr vk \<Rightarrow>
                Some ((s', println (''fingerprint: '' @ fingerprint_hex x k vk)
                  (println (''user_id digest: '' @ digest_prefix x k (id_user_id_hex identity))
                  (println ''identity created'' w))), Inr ()))
    | Rotate \<Rightarrow>
        (case rotate_identity_in_state x k j (ce_rnd env 1) (ce_now env) s of
           (s', Inl e) \<Rightarrow> Some ((s', w), Inl e)
         | (s', Inr rotation) \<Rightarrow>
             (let w1 = println (''new user_id digest: '' @ digest_prefix x k (id_user_id_hex (ro_new_identity rotation)))
                    (println ''identity rotated'' w)
              in case unhex k (id_verifying_key_hex (ro_new_identity rotation)) of
                   Inl e \<Rightarrow> Some ((s', w1), Inl e)
                 | Inr vk \<Rightarrow> Some ((s', println (''new fingerprint: '' @ fingerprint_hex x k vk) w1), Inr ()))))"

definition run_card :: "crypto \<Rightarrow> codec \<Rightarrow> serde \<Rightarrow> 'b cli_env \<Rightarrow> CardCommand \<Rightarrow> 'b step" where
  "run_card x k j env command = (\<lambda>(s, w).
    case command of
      CreateCard \<Rightarrow>
        (case bind_res (ok_or MissingIdentity (ls_identity s)) (create_contact_card_payload x k (ce_now env 0)) of
           Inl e \<Rightarrow> Some ((s, w), Inl e)
         | Inr payload \<Rightarrow>
             Some ((s, println (''card generated (base64_len: '' @ show_nat (length payload) @ '', sha256: '' @
               digest_prefix x k payload @ '')'') w), Inr ()))
    | RedeemCard crd \<Rightarrow>
        (case redeem_contact_card_to_state x k j (ce_now env 0) crd s of
           (s', Inl e) \<Rightarrow> Some ((s', w), Inl e)
         | (s', Inr outcome) \<Rightarrow>
             (let w1 = (case (ContactRedeemOutcome_failure_reason outcome, cr_previous_fingerprint outcome) of
                          (Some reason, Some previous) \<Rightarrow>
                            println (''ALERT: '' @ ClientFailureReason_to_string reason @ '' (old '' @ previous @
                              '', new '' @ co_fingerprint (cr_contact outcome) @ '')'') w
                        | _ \<Rightarrow> w)
              in Some ((s', println (''fingerprint: '' @ co_fingerprint (cr_contact outcome))
                   (println (''contact saved digest: '' @ digest_prefix x k (co_user_id_hex (cr_contact outcome))) w1)),
                   Inr ()))))"

definition run_request :: "crypto \<Rightarrow> codec \<Rightarrow> serde \<Rightarrow> 'b cli_env \<Rightarrow> RequestCommand \<Rightarrow> 'b step" where
  "run_request x k j env command = (\<lambda>(s, w).
    case command of SendRequest to role \<Rightarrow>
      (case create_request_for_state x k j (ce_rnd env 1 0) (ce_now env 0) to role s of
         (s', Inl e) \<Rightarrow> Some ((s', w), Inl e)
       | (s', Inr outcome) \<Rightarrow>
           Some ((s', println (''request generated (base64_len: '' @ show_nat (length (rc_token_base64 outcome)) @
             '', sha256: '' @ digest_prefix x k (rc_token_base64 outcome) @ '')'') w), Inr ())))"

definition run_grant :: "crypto \<Rightarrow> codec \<Rightarrow> serde \<Rightarrow> 'b cli_env \<Rightarrow> GrantCommand \<Rightarrow> 'b step" where
  "run_grant x k j env command = (\<lambda>(s, w).
    case command of
      AcceptRequest request \<Rightarrow>
        (case accept_request_for_state x k j (ce_now env) request s of
           (s', Inl e) \<Rightarrow> Some ((s', w), Inl e)
         | (s', Inr outcome) \<Rightarrow>
             Some ((s', println (''grant generated (base64_len: '' @ show_nat (length (ga_grant_token_base64 outcome)) @
               '', sha256: '' @ digest_prefix x k (ga_grant_token_base64 outcome) @ '')'') w), Inr ()))
    | DenyRequest request \<Rightarrow>
        (case parse_request_token k j request of
           Inl e \<Rightarrow> Some ((s, w), Inl e)
         | Inr request_token \<Rightarrow>
             Some ((s, println (''request denied (role '' @ show_nat (unat (rt_role request_token)) @ '')'') w), Inr ())))"

definition run_thread :: "crypto \<Rightarrow> codec \<Rightarrow> 'b cli_env \<Rightarrow> ThreadCommand \<Rightarrow> 'b step" where
  "run_thread x k env command = (\<lambda>(s, w).
    case command of NewThread members \<Rightarrow>
      (case create_thread_for_state x k (ce_rnd env 1) (ce_now env 0) members s of
         None \<Rightarrow> None
       | Some (s', Inl e) \<Rightarrow> Some ((s', w), Inl e)
       | Some (s', Inr thread_id) \<Rightarrow> Some ((s', println (''thread: '' @ thread_id) w), Inr ())))"

section \<open>Messages\<close>

text \<open>The loop over the recipients of \<open>msg send --bridge-url\<close>.\<close>

primrec publish_each_recipient ::
    "crypto \<Rightarrow> codec \<Rightarrow> 'b cli_env \<Rightarrow> nat \<Rightarrow> IdentityState \<Rightarrow> Envelope \<Rightarrow> string \<Rightarrow> u64 option \<Rightarrow> bytes list \<Rightarrow> 'b \<Rightarrow>
      (ClientError + unit) \<times> 'b" where
  "publish_each_recipient x k env i identity envelope url ttl [] b = (Inr (), b)"
| "publish_each_recipient x k env i identity envelope url ttl (key # keys) b =
    (case publish_via_bridge x k (ce_rnd env i 0) (ce_now env i) (ce_put env) identity key envelope url ttl b of
       (Inl e, b') \<Rightarrow> (Inl e, b')
     | (Inr _, b') \<Rightarrow> publish_each_recipient x k env (i + 1) identity envelope url ttl keys b')"

definition publish_on_bridge ::
    "crypto \<Rightarrow> codec \<Rightarrow> 'b cli_env \<Rightarrow> IdentityState \<Rightarrow> ThreadMessageDispatch \<Rightarrow> string option \<Rightarrow> u64 option \<Rightarrow> 'b world \<Rightarrow>
      'b world \<times> (ClientError + unit)" where
  "publish_on_bridge x k env identity dispatch bridge_url ttl w =
    (case bridge_url of
       None \<Rightarrow> (w, Inr ())
     | Some url \<Rightarrow>
         (case publish_each_recipient x k env 3 identity (td_envelope dispatch) url ttl (td_recipient_inbox_keys dispatch)
              (w_bridge w) of
            (Inl e, b) \<Rightarrow> (w\<lparr>w_bridge := b\<rparr>, Inl e)
          | (Inr _, b) \<Rightarrow>
              (println (''bridge: published envelope to '' @ show_nat (length (td_recipient_inbox_keys dispatch)) @
                '' inboxes'') (w\<lparr>w_bridge := b\<rparr>), Inr ())))"

definition publish_on_p2p ::
    "crypto \<Rightarrow> codec \<Rightarrow> 'b cli_env \<Rightarrow> ThreadMessageDispatch \<Rightarrow> p2p_flags \<Rightarrow> 'b world \<Rightarrow> ('b world \<times> (ClientError + unit)) option" where
  "publish_on_p2p x k env dispatch f w =
    (if should_use_p2p (pf_p2p f) (pf_peer f) (pf_bootstrap f) (pf_listen_addr f) then
       (case build_p2p_transport env f w of
          None \<Rightarrow> None
        | Some (w1, Inl e) \<Rightarrow> Some (w1, Inl e)
        | Some (w1, Inr transport) \<Rightarrow>
            (case publish_to_inboxes x k (ce_lib env) (td_recipient_inbox_keys dispatch) (td_manifest dispatch)
                (td_chunks dispatch) transport of
               (t, Inl e) \<Rightarrow> Some (keep_node_files t w1, Inl (transport_error e))
             | (t, Inr _) \<Rightarrow>
                 Some (println (''p2p: published manifest to '' @ show_nat (length (td_recipient_inbox_keys dispatch)) @
                   '' inboxes'') (keep_node_files t w1), Inr ())))
     else Some (w, Inr ()))"

definition run_msg :: "crypto \<Rightarrow> codec \<Rightarrow> serde \<Rightarrow> 'b cli_env \<Rightarrow> MsgCommand \<Rightarrow> 'b step" where
  "run_msg x k j env command = (\<lambda>(s, w).
    case command of SendMsg thread text bridge_url ttl f \<Rightarrow>
      (case ls_identity s of
         None \<Rightarrow> Some ((s, w), Inl MissingIdentity)
       | Some sender_identity \<Rightarrow>
           (case send_thread_message_for_state x k j (ce_rnd env 1 0) (ce_now env) thread text s of
              None \<Rightarrow> None
            | Some (s', Inl e) \<Rightarrow> Some ((s', w), Inl e)
            | Some (s', Inr dispatch) \<Rightarrow>
                (case publish_on_bridge x k env sender_identity dispatch bridge_url ttl w of
                   (w1, Inl e) \<Rightarrow> Some ((s', w1), Inl e)
                 | (w1, Inr _) \<Rightarrow>
                     (case publish_on_p2p x k env dispatch f w1 of
                        None \<Rightarrow> None
                      | Some (w2, Inl e) \<Rightarrow> Some ((s', w2), Inl e)
                      | Some (w2, Inr _) \<Rightarrow>
                          Some ((s', println (''message published via transport ('' @ show_nat (td_chunk_count dispatch) @
                            '' chunks)'') w2), Inr ()))))))"

section \<open>The inbox\<close>

text \<open>\<open>str::chars().count()\<close>\<close>

definition char_count :: "string \<Rightarrow> nat" where
  "char_count s = length (filter (\<lambda>c. \<not> utf8_cont (of_char c)) s)"

fun InboxSource_debug :: "InboxSource \<Rightarrow> string" where
  "InboxSource_debug Kademlia = ''Kademlia''"
| "InboxSource_debug Bridge = ''Bridge''"

definition print_receipts :: "crypto \<Rightarrow> codec \<Rightarrow> InboxMessageReceipt list \<Rightarrow> InboxSource \<Rightarrow> 'b world \<Rightarrow> 'b world" where
  "print_receipts x k receipts origin w =
    println (''inbox: '' @ show_nat (length receipts) @ '' items (source: '' @ InboxSource_debug origin @ '')'')
      (foldl (\<lambda>w receipt. println (''message: sender_digest='' @ digest_prefix x k (re_sender_user_id_hex receipt) @
          '' chars='' @ show_nat (char_count (re_text receipt))) w) w receipts)"

definition poll_p2p :: "crypto \<Rightarrow> codec \<Rightarrow> serde \<Rightarrow> 'b cli_env \<Rightarrow> string option \<Rightarrow> bytes \<Rightarrow> p2p_flags \<Rightarrow> 'b step" where
  "poll_p2p x k j env bridge_url inbox_key f = (\<lambda>(s, w).
    case build_p2p_transport env f w of
      None \<Rightarrow> None
    | Some (w1, Inl e) \<Rightarrow> Some ((s, w1), Inl e)
    | Some (w1, Inr transport) \<Rightarrow>
        (case recover_payloads_with_fallback x k env transport inbox_key (secs (unat (pf_wait_secs f))) bridge_url w1 of
           None \<Rightarrow> None
         | Some (w2, Inl e) \<Rightarrow> Some ((s, w2), Inl e)
         | Some (w2, Inr response) \<Rightarrow>
             (case ingest_inbox_payloads x k j (ce_now env) (is_items response) s of
                None \<Rightarrow> None
              | Some (s', Inl e) \<Rightarrow> Some ((s', w2), Inl e)
              | Some (s', Inr receipts) \<Rightarrow> Some ((s', print_receipts x k receipts (is_source response) w2), Inr ()))))"

definition poll_local ::
    "crypto \<Rightarrow> codec \<Rightarrow> serde \<Rightarrow> 'b cli_env \<Rightarrow> string option \<Rightarrow> bytes \<Rightarrow> LocalState \<times> 'b world \<Rightarrow>
      ((LocalState \<times> 'b world) \<times> (ClientError + InboxDecryptionResponse)) option" where
  "poll_local x k j env bridge_url inbox_key = (\<lambda>(s, w).
    if transport_inbox_has_items x k s inbox_key
    then map_option (\<lambda>(s', r). ((s', w), r)) (receive_transport_messages x k j inbox_key s)
    else map_option (\<lambda>((s', b), r). ((s', w\<lparr>w_bridge := b\<rparr>), r))
           (receive_inbox_messages x k j (ce_get env) inbox_key bridge_url (s, w_bridge w)))"

definition run_inbox :: "crypto \<Rightarrow> codec \<Rightarrow> serde \<Rightarrow> 'b cli_env \<Rightarrow> InboxCommand \<Rightarrow> 'b step" where
  "run_inbox x k j env command = (\<lambda>(s, w).
    case command of Poll bridge_url inbox_key f \<Rightarrow>
      (case inbox_key of
         None \<Rightarrow> Some ((s\<lparr>ls_inbox := []\<rparr>, println (''local inbox: '' @ show_nat (length (ls_inbox s)) @ '' items'') w), Inr ())
       | Some inbox_key \<Rightarrow>
           (case unhex k inbox_key of
              Inl e \<Rightarrow> Some ((s, w), Inl e)
            | Inr inbox_key_bytes \<Rightarrow>
                if should_use_p2p (pf_p2p f) (pf_peer f) (pf_bootstrap f) (pf_listen_addr f)
                then poll_p2p x k j env bridge_url inbox_key_bytes f (s, w)
                else
                  (case poll_local x k j env bridge_url inbox_key_bytes (s, w) of
                     None \<Rightarrow> None
                   | Some (sw, Inl e) \<Rightarrow> Some (sw, Inl e)
                   | Some ((s1, w1), Inr response) \<Rightarrow>
                       (case record_inbox_messages (ce_now env) (dr_items response) s1 of
                          (s2, Inl e) \<Rightarrow> Some ((s2, w1), Inl e)
                        | (s2, Inr receipts) \<Rightarrow> Some ((s2, print_receipts x k receipts (dr_source response) w1), Inr ()))))))"

section \<open>The checkpoint log\<close>

definition append_and_save ::
    "crypto \<Rightarrow> codec \<Rightarrow> serde \<Rightarrow> CheckpointEntry \<Rightarrow> LocalState \<Rightarrow> LocalState \<times> (ClientError + nat)" where
  "append_and_save x k j entry s =
    (case bind_res (load_checkpoint_log x k j s) (append_or_log_error x entry) of
       Inl e \<Rightarrow> (s, Inl e)
     | Inr log \<Rightarrow> apsnd (map_res (\<lambda>_. length (log_entries log))) (save_checkpoint_log k j log s))"

definition checkpoint_appended :: "nat \<Rightarrow> string" where
  "checkpoint_appended n = ''checkpoint appended (len: '' @ show_nat n @ '')''"

definition run_append_checkpoint :: "crypto \<Rightarrow> codec \<Rightarrow> serde \<Rightarrow> 'b cli_env \<Rightarrow> 'b step" where
  "run_append_checkpoint x k j env = (\<lambda>(s, w).
    case bind_res (ok_or MissingIdentity (ls_identity s)) (create_checkpoint_entry k (ce_now env 0)) of
      Inl e \<Rightarrow> Some ((s, w), Inl e)
    | Inr entry \<Rightarrow>
        (case append_and_save x k j (Key entry) s of
           (s', Inl e) \<Rightarrow> Some ((s', w), Inl e)
         | (s', Inr n) \<Rightarrow> Some ((s', println (checkpoint_appended n) w), Inr ())))"

definition run_create_recovery_key :: "crypto \<Rightarrow> codec \<Rightarrow> serde \<Rightarrow> 'b cli_env \<Rightarrow> 'b step" where
  "run_create_recovery_key x k j env = (\<lambda>(s, w).
    case bind_res (ok_or MissingIdentity (ls_identity s)) (create_recovery_entry k (ce_rnd env 1 0) (ce_now env 0)) of
      Inl e \<Rightarrow> Some ((s, w), Inl e)
    | Inr entry \<Rightarrow>
        (case append_and_save x k j (Recovery entry) s of
           (s', Inl e) \<Rightarrow> Some ((s', w), Inl e)
         | (s', Inr n) \<Rightarrow>
             (let recovery_hex = cx_hex k (rk_recovery_key entry)
              in Some ((s', println (checkpoint_appended n)
                   (println (''recovery key generated (hex_len: '' @ show_nat (length recovery_hex) @ '', sha256: '' @
                     digest_prefix x k recovery_hex @ '')'') w)), Inr ()))))"

definition run_revoke_key ::
    "crypto \<Rightarrow> codec \<Rightarrow> serde \<Rightarrow> 'b cli_env \<Rightarrow> string \<Rightarrow> string option \<Rightarrow> string option \<Rightarrow> 'b step" where
  "run_revoke_key x k j env key_hex recovery_hex reason = (\<lambda>(s, w).
    case bind_res (ok_or MissingIdentity (ls_identity s)) (\<lambda>identity.
         bind_res (load_checkpoint_log x k j s) (\<lambda>log.
         bind_res (create_revocation_entry x k (ce_now env 0) identity key_hex recovery_hex reason) (\<lambda>entry.
         case append_revocation_entry_checked x k (ce_now env 1) identity entry (60 * 60 * 24 * 365) log of
           (_, Inl e) \<Rightarrow> Inl e
         | (log', Inr changed) \<Rightarrow> Inr (log', changed)))) of
      Inl e \<Rightarrow> Some ((s, w), Inl e)
    | Inr (log, changed) \<Rightarrow>
        if changed then
          (case save_checkpoint_log k j log s of
             (s', Inl e) \<Rightarrow> Some ((s', w), Inl e)
           | (s', Inr _) \<Rightarrow>
               Some ((s', println (''revocation appended (len: '' @ show_nat (length (log_entries log)) @ '')'') w), Inr ()))
        else
          Some ((s, println (''revocation already present (len: '' @ show_nat (length (log_entries log)) @ '')'') w), Inr ()))"

definition run_export_log :: "crypto \<Rightarrow> codec \<Rightarrow> serde \<Rightarrow> 'b cli_env \<Rightarrow> string \<Rightarrow> 'b step" where
  "run_export_log x k j env path = (\<lambda>(s, w).
    case bind_res (load_checkpoint_log x k j s) (\<lambda>log.
         map_err log_error (export_base64 (sd_entries j) (sd_reader j) (cx_b64 k) log)) of
      Inl e \<Rightarrow> Some ((s, w), Inl e)
    | Inr encoded \<Rightarrow>
        (case write_file (ce_host env) (ho_path (ce_host env) path) (str_bytes encoded) w of
           (w', Inl e) \<Rightarrow> Some ((s, w'), Inl e)
         | (w', Inr _) \<Rightarrow> Some ((s, println ''log exported'' w'), Inr ())))"

text \<open>The audit database stands for the file at \<open>db_path\<close>.\<close>

definition run_export_abuse :: "crypto \<Rightarrow> codec \<Rightarrow> 'b cli_env \<Rightarrow> string \<Rightarrow> AbuseLogFilter \<Rightarrow> 'b step" where
  "run_export_abuse x k env path f = (\<lambda>(s, w).
    case export_abuse_logs x k (ce_sqlite env) f (w_audit w) of
      (a, Inl e) \<Rightarrow> Some ((s, w\<lparr>w_audit := a\<rparr>), Inl (Log (BridgeError_to_string e)))
    | (a, Inr records) \<Rightarrow>
        (case export_abuse_log_file env path records (w\<lparr>w_audit := a\<rparr>) of
           (w', Inl e) \<Rightarrow> Some ((s, w'), Inl e)
         | (w', Inr _) \<Rightarrow>
             Some ((s, println (''abuse log exported (records: '' @ show_nat (length records) @ '')'') w'), Inr ())))"

definition read_log_file :: "crypto \<Rightarrow> codec \<Rightarrow> serde \<Rightarrow> 'b cli_env \<Rightarrow> string \<Rightarrow> 'b world \<Rightarrow> ClientError + CheckpointLog" where
  "read_log_file x k j env path w =
    bind_res (map_err Io (read_to_string (ce_host env) (ho_path (ce_host env) path) (w_machine w))) (\<lambda>encoded.
    map_err log_error (import_base64 x (sd_parse_entries j) (cx_unb64 k) (str_trim encoded)))"

definition run_import_log :: "crypto \<Rightarrow> codec \<Rightarrow> serde \<Rightarrow> 'b cli_env \<Rightarrow> string \<Rightarrow> 'b step" where
  "run_import_log x k j env path = (\<lambda>(s, w).
    case read_log_file x k j env path w of
      Inl e \<Rightarrow> Some ((s, w), Inl e)
    | Inr log \<Rightarrow>
        (case save_checkpoint_log k j log s of
           (s', Inl e) \<Rightarrow> Some ((s', w), Inl e)
         | (s', Inr _) \<Rightarrow>
             Some ((s', println (''log imported (len: '' @ show_nat (length (log_entries log)) @ '')'') w), Inr ())))"

fun LogConsistency_text :: "LogConsistency \<Rightarrow> string" where
  "LogConsistency_text Identical = ''identical''"
| "LogConsistency_text LocalBehind = ''local-behind''"
| "LogConsistency_text LocalAhead = ''local-ahead''"
| "LogConsistency_text Diverged = ''diverged''"

definition run_gossip_verify :: "crypto \<Rightarrow> codec \<Rightarrow> serde \<Rightarrow> 'b cli_env \<Rightarrow> string \<Rightarrow> 'b step" where
  "run_gossip_verify x k j env path = (\<lambda>(s, w).
    case bind_res (read_log_file x k j env path w) (\<lambda>remote.
         bind_res (load_checkpoint_log x k j s) (\<lambda>local.
         bind_res (map_err log_error (merkle_root x local)) (\<lambda>local_root.
         bind_res (map_err log_error (merkle_root x remote)) (\<lambda>remote_root.
         Inr (local, remote, local_root, remote_root))))) of
      Inl e \<Rightarrow> Some ((s, w), Inl e)
    | Inr (local, remote, local_root, remote_root) \<Rightarrow>
        Some ((s, foldl (\<lambda>w line. println line w) w
          [''local entries: '' @ show_nat (length (log_entries local)),
           ''remote entries: '' @ show_nat (length (log_entries remote)),
           ''local root: '' @ cx_hex k local_root,
           ''remote root: '' @ cx_hex k remote_root,
           ''consistency: '' @ LogConsistency_text (log_consistency local remote)]), Inr ()))"

definition run_log_info :: "crypto \<Rightarrow> codec \<Rightarrow> serde \<Rightarrow> 'b step" where
  "run_log_info x k j = (\<lambda>(s, w).
    case bind_res (load_checkpoint_log x k j s) (\<lambda>log. map_res (Pair log) (map_err log_error (merkle_root x log))) of
      Inl e \<Rightarrow> Some ((s, w), Inl e)
    | Inr (log, root) \<Rightarrow>
        Some ((s, println (''root: '' @ cx_hex k root)
          (println (''entries: '' @ show_nat (length (log_entries log))) w)), Inr ()))"

fun run_log :: "crypto \<Rightarrow> codec \<Rightarrow> serde \<Rightarrow> 'b cli_env \<Rightarrow> LogCommand \<Rightarrow> 'b step" where
  "run_log x k j env AppendCheckpoint sw = run_append_checkpoint x k j env sw"
| "run_log x k j env CreateRecoveryKey sw = run_create_recovery_key x k j env sw"
| "run_log x k j env (RevokeKey key_hex recovery_hex reason) sw = run_revoke_key x k j env key_hex recovery_hex reason sw"
| "run_log x k j env (ExportLog path) sw = run_export_log x k j env path sw"
| "run_log x k j env (ExportAbuse db_path path f) sw = run_export_abuse x k env path f sw"
| "run_log x k j env (ImportLog path) sw = run_import_log x k j env path sw"
| "run_log x k j env (GossipVerify path) sw = run_gossip_verify x k j env path sw"
| "run_log x k j env LogInfo sw = run_log_info x k j sw"

section \<open>A run\<close>

fun run_command :: "crypto \<Rightarrow> codec \<Rightarrow> serde \<Rightarrow> 'b cli_env \<Rightarrow> Commands \<Rightarrow> 'b step" where
  "run_command x k j env (IdentityCmd c) sw = run_identity x k j env c sw"
| "run_command x k j env (CardCmd c) sw = run_card x k j env c sw"
| "run_command x k j env (RequestCmd c) sw = run_request x k j env c sw"
| "run_command x k j env (GrantCmd c) sw = run_grant x k j env c sw"
| "run_command x k j env (ThreadCmd c) sw = run_thread x k env c sw"
| "run_command x k j env (MsgCmd c) sw = run_msg x k j env c sw"
| "run_command x k j env (InboxCmd c) sw = run_inbox x k j env c sw"
| "run_command x k j env (LogCmd c) sw = run_log x k j env c sw"

text \<open>An error of the command returns before the state is saved.\<close>

definition run_cli :: "crypto \<Rightarrow> codec \<Rightarrow> serde \<Rightarrow> 'b cli_env \<Rightarrow> Commands \<Rightarrow> 'b world \<Rightarrow> ('b world \<times> (ClientError + unit)) option" where
  "run_cli x k j env command w =
    (case load_state x k j (ce_host env) (ce_rnd env 0 0) (w_machine w) of
       None \<Rightarrow> None
     | Some (m, Inl e) \<Rightarrow> Some (w\<lparr>w_machine := m\<rparr>, Inl e)
     | Some (m, Inr s) \<Rightarrow>
         (case run_command x k j env command (s, w\<lparr>w_machine := m\<rparr>) of
            None \<Rightarrow> None
          | Some ((_, w1), Inl e) \<Rightarrow> Some (w1, Inl e)
          | Some ((s1, w1), Inr _) \<Rightarrow>
              (case save_state x k j (ce_host env) (ce_rnd env 2) (ce_words env) s1 (w_machine w1) of
                 (m', r) \<Rightarrow> Some (w1\<lparr>w_machine := m'\<rparr>, r))))"

text \<open>\<open>main\<close>: the two lines on standard error and the exit status.\<close>

definition cli_main :: "crypto \<Rightarrow> codec \<Rightarrow> serde \<Rightarrow> 'b cli_env \<Rightarrow> Commands \<Rightarrow> 'b world \<Rightarrow> ('b world \<times> string list \<times> int) option" where
  "cli_main x k j env command w =
    map_option (\<lambda>(w', r). case r of
        Inl err \<Rightarrow> (w', [''Error: '' @ ClientFailureReason_to_string (ClientFailureReason_from err),
                         ''Details: '' @ ClientError_to_string err], 1)
      | Inr _ \<Rightarrow> (w', [], 0))
      (run_cli x k j env command w)"

end
