(* ===== verification/Client_Invariant.thy ===== *)
theory Client_Invariant
  imports Client_Request Client_Inbox
begin

text \<open>
  The well-formedness of the client state: what every operation of \<open>spex-client/src/lib.rs\<close> that changes a
  \<open>LocalState\<close> keeps, whether it succeeds or not, and what it excludes.
\<close>

section \<open>Well-formed states\<close>

definition contact_ok :: "crypto \<Rightarrow> codec \<Rightarrow> string \<Rightarrow> ContactState \<Rightarrow> bool" where
  "contact_ok x k h c \<longleftrightarrow> co_user_id_hex c = h \<and> (\<exists>user device. h = cx_hex k user \<and> co_device_id_hex c = cx_hex k device) \<and>
    (\<exists>key. co_verifying_key_hex c = cx_hex k key \<and> co_fingerprint c = fingerprint_hex x k key)"

definition chunk_ok :: "crypto \<Rightarrow> codec \<Rightarrow> string \<Rightarrow> string \<Rightarrow> bool" where
  "chunk_ok x k h d \<longleftrightarrow> (\<exists>data. h = fingerprint_hex x k data \<and> d = cx_b64 k data)"

text \<open>A client state whose identity, contacts, threads and cached chunks are well-formed, and which has
  recorded one grant for each accepted request, and no request twice.\<close>

definition state_ok :: "crypto \<Rightarrow> codec \<Rightarrow> LocalState \<Rightarrow> bool" where
  "state_ok x k s \<longleftrightarrow> pred_option (identity_ok x k) (ls_identity s) \<and>
    (\<forall>h. pred_option (contact_ok x k h) (ls_contacts s h)) \<and> (\<forall>h. pred_option (thread_ok k h) (ls_threads s h)) \<and>
    (\<forall>h. pred_option (chunk_ok x k h) (ls_transport_chunk_store s h)) \<and>
    distinct (ls_accepted_request_ids s) \<and> length (ls_grants s) = length (ls_accepted_request_ids s)"

lemma state_ok_frame [simp]:
  "state_ok x k (s\<lparr>ls_inbox := a\<rparr>) = state_ok x k s" "state_ok x k (s\<lparr>ls_requests := b\<rparr>) = state_ok x k s"
  "state_ok x k (s\<lparr>ls_log_base64 := c\<rparr>) = state_ok x k s" "state_ok x k (s\<lparr>ls_transport_outbox := d\<rparr>) = state_ok x k s"
  "state_ok x k (s\<lparr>ls_p2p_inbox := e\<rparr>) = state_ok x k s" "state_ok x k (s\<lparr>ls_transport_gossip := f\<rparr>) = state_ok x k s"
  "state_ok x k (s\<lparr>ls_key_rotations := g\<rparr>) = state_ok x k s"
  by (simp_all add: state_ok_def)

lemma state_ok_default: "state_ok x k LocalState_default"
  by (simp add: state_ok_def LocalState_default_def)

lemma state_ok_identity: "state_ok x k s \<Longrightarrow> identity_ok x k i \<Longrightarrow> state_ok x k (s\<lparr>ls_identity := Some i\<rparr>)"
  by (simp add: state_ok_def)

lemma state_ok_thread: "state_ok x k s \<Longrightarrow> thread_ok k h t \<Longrightarrow> state_ok x k (s\<lparr>ls_threads := (ls_threads s)(h \<mapsto> t)\<rparr>)"
  by (simp add: state_ok_def)

lemma state_ok_threadD: "state_ok x k s \<Longrightarrow> ls_threads s h = Some t \<Longrightarrow> thread_ok k h t"
  by (metis state_ok_def option.pred_inject(2))

lemma state_ok_identityD: "state_ok x k s \<Longrightarrow> ls_identity s = Some i \<Longrightarrow> identity_ok x k i"
  by (simp add: state_ok_def)

lemma thread_ok_updates [simp]:
  "thread_ok k h (t\<lparr>th_members := a\<rparr>) = thread_ok k h t" "thread_ok k h (t\<lparr>th_messages := b\<rparr>) = thread_ok k h t"
  "thread_ok k h (t\<lparr>th_next_seq := c\<rparr>) = thread_ok k h t" "thread_ok k h (t\<lparr>th_epoch := d\<rparr>) = thread_ok k h t"
  by (simp_all add: thread_ok_def)

section \<open>The operations keep it\<close>

text \<open>A random source that hands out as many bytes as it is asked for.\<close>

definition fills :: "entropy \<Rightarrow> bool" where
  "fills rnd \<longleftrightarrow> (\<forall>i n. length (rnd i n) = n)"

lemma create_identity_keeps: "fills rnd \<Longrightarrow> state_ok x k s \<Longrightarrow> state_ok x k (fst (create_identity_in_state x k rnd s))"
  by (simp add: create_identity_in_state_def state_ok_identity created_identity_ok fills_def Let_def)

lemma rotated_identity_ok: "fills rnd \<Longrightarrow> identity_ok x k i \<Longrightarrow> identity_ok x k (rotate_identity x k rnd i)"
  unfolding identity_ok_def hex_of_def rotate_identity_def random_bytes_def fills_def Let_def by auto

lemma save_log_keeps: "state_ok x k (fst (save_checkpoint_log k j log s)) = state_ok x k s"
  by (simp add: save_checkpoint_log_def split: sum.split)

lemma rotate_identity_keeps:
  assumes "fills rnd" "state_ok x k s"
  shows "state_ok x k (fst (rotate_identity_in_state x k j rnd now s))"
proof (cases "ls_identity s")
  case (Some i)
  then have "identity_ok x k (rotate_identity x k rnd i)"
    using assms by (intro rotated_identity_ok state_ok_identityD)
  then show ?thesis
    using assms(2) Some
    by (simp add: rotate_identity_in_state_def append_rotation_checkpoint_def save_log_keeps state_ok_identity Let_def split: sum.split)
qed (simp add: rotate_identity_in_state_def assms(2))

lemma redeem_card_keeps: "state_ok x k s \<Longrightarrow> state_ok x k (fst (redeem_contact_card_to_state x k j now payload s))"
  unfolding redeem_contact_card_to_state_def Let_def
  by (cases "redeem_contact_card_payload x k j payload") (auto simp: state_ok_def contact_ok_def)

lemma create_request_keeps: "state_ok x k s \<Longrightarrow> state_ok x k (fst (create_request_for_state x k j rng now to role s))"
  by (simp add: create_request_for_state_def split: sum.split prod.split)

lemma accept_request_keeps:
  assumes "state_ok x k s"
  shows "state_ok x k (fst (accept_request_for_state_with_policy x k j stamp payload policy now s))"
proof (cases "accept_request_for_state_with_policy x k j stamp payload policy now s")
  case (Pair s' r)
  show ?thesis
  proof (cases r)
    case (Inl e)
    then have "s' = s" using Pair accept_state_eq_Inl by simp
    then show ?thesis using Pair assms by simp
  next
    case (Inr out)
    then have "accept_request_for_state_with_policy x k j stamp payload policy now s = (s', Inr out)" using Pair by simp
    then show ?thesis using Pair assms unfolding accept_state_eq_Inr by (auto simp: state_ok_def)
  qed
qed

lemma created_thread_ok:
  assumes "sha256_len x" "fills rnd" "create_thread_state x k rnd now identity members = Some (Inr t)"
  shows "thread_ok k (th_thread_id_hex t) t"
proof -
  obtain cfg_hash where cfg: "build_thread_cfg_hash x k (random_hex k (rnd 0) 32) \<lparr>ps_major = 1, ps_minor = 1, ps_ciphersuite_id = 1\<rparr> =
      Inr cfg_hash"
    and t: "th_thread_id_hex t = random_hex k (rnd 0) 32" "th_cfg_hash_hex t = cx_hex k cfg_hash"
      "th_initial_secret_hex t = random_hex k (rnd 1) 32" "th_cfg_hash_id t = 1" "th_flags t = 0"
    using assms(3) by (auto simp: create_thread_state_def Let_def split: sum.splits)
  have "length cfg_hash = 32"
    using cfg assms(1) by (auto simp: build_thread_cfg_hash_def cfg_hash_for_thread_config_def hash_ctap2_cbor_value_def
        hash_bytes_def sha256_len_def Let_def)
  then show ?thesis using t assms(2) by (auto simp: thread_ok_def hex_of_def random_hex_def random_bytes_def fills_def)
qed

lemma create_thread_keeps:
  assumes "sha256_len x" "fills rnd" "create_thread_for_state x k rnd now members s = Some (s', r)" "state_ok x k s"
  shows "state_ok x k s'"
proof (cases "clone_identity_from_state s")
  case (Inr identity)
  obtain m where m: "create_thread_state x k rnd now identity members = Some m"
    using assms(3) Inr by (auto simp: create_thread_for_state_def)
  show ?thesis
    using assms(3,4) Inr m created_thread_ok [OF assms(1,2), of k now identity members]
    by (cases m) (auto simp: create_thread_for_state_def intro!: state_ok_thread)
qed (use assms in \<open>simp add: create_thread_for_state_def\<close>)

lemma commit_keeps:
  "state_ok x k s \<Longrightarrow> ls_threads s h = Some t \<Longrightarrow>
    state_ok x k (s\<lparr>ls_threads := (ls_threads s)(h \<mapsto> fst (apply_thread_commit_with_events c t))\<rparr>)"
  by (rule state_ok_thread) (simp_all add: apply_thread_commit_with_events_def state_ok_threadD Let_def)

lemma record_message_keeps: "state_ok x k s \<Longrightarrow> state_ok x k (fst (record_message now item s))"
  by (simp add: record_message_def state_ok_thread state_ok_threadD split: option.split)

lemma record_messages_keep: "state_ok x k s \<Longrightarrow> state_ok x k (fst (record_inbox_messages now items s))"
proof (induction items arbitrary: now s)
  case (Cons item items)
  show ?case
  proof (cases "record_message (now 0) item s")
    case (Pair s' r)
    then have "state_ok x k s'" using record_message_keeps [OF Cons.prems, of "now 0" item] by simp
    then show ?thesis using Pair Cons.IH by (cases r) simp_all
  qed
qed simp

lemma ingest_keeps:
  "ingest_inbox_payloads x k j now payloads s = Some (s', r) \<Longrightarrow> state_ok x' k' s \<Longrightarrow> state_ok x' k' s'"
proof (induction payloads arbitrary: now s s' r)
  case (Cons p ps)
  show ?case
  proof (cases "decrypt_item x k j s p")
    case (Some m)
    show ?thesis
    proof (cases m)
      case (Inr item)
      obtain s1 r1 where rec: "record_message (now 0) item s = (s1, r1)" by fastforce
      then have "state_ok x' k' s1" using record_message_keeps [OF Cons.prems(2), of "now 0" item] by simp
      then show ?thesis using Cons Some Inr rec by (cases r1) auto
    qed (use Cons.prems Some in simp)
  qed (use Cons.prems in simp)
qed simp

lemma resolve_inbox_keeps:
  "resolve_inbox_from_state x k get inbox_scan_key bridge sb = Some (sb', r) \<Longrightarrow> state_ok x' k' (fst sb) \<Longrightarrow> state_ok x' k' (fst sb')"
  by (auto simp: resolve_inbox_from_state_def Let_def split: option.splits)

lemma receive_inbox_keeps:
  "receive_inbox_messages x k j get inbox_scan_key bridge sb = Some (sb', r) \<Longrightarrow> state_ok x' k' (fst sb) \<Longrightarrow> state_ok x' k' (fst sb')"
  by (auto simp: receive_inbox_messages_def dest!: resolve_inbox_keeps split: option.splits sum.splits)

lemma receive_transport_keeps:
  "receive_transport_messages x k j inbox_scan_key s = Some (s', r) \<Longrightarrow> state_ok x' k' s \<Longrightarrow> state_ok x' k' s'"
  by (auto simp: receive_transport_messages_def Let_def)

subsection \<open>Sending\<close>

lemma encrypt_keeps:
  "encrypt_and_chunk_message x k j rng identity p t = Some (t', r) \<Longrightarrow> thread_ok k' h t \<Longrightarrow> thread_ok k' h t'"
  by (auto simp: encrypt_and_chunk_message_def Let_def split: option.splits sum.splits if_splits prod.splits)

lemma encrypted_chunks:
  assumes "encrypt_and_chunk_message x k j rng identity p t = Some (t', Inr (envelope, manifest, chunks))" "c \<in> set chunks"
  shows "ch_hash c = hash_bytes x Sha256 (ch_data c)"
proof -
  obtain payload where "chunk_data x (tr_chunking TransportConfig_default) payload = Some chunks"
    by (rule encrypted_message [OF assms(1)]) (simp add: TransportConfig_default_def)
  from chunk_data_well_hashed [OF this assms(2)] show ?thesis
    by (simp add: well_hashed_def TransportConfig_default_def ChunkingConfig_default_def)
qed

lemma stored_chunks_ok:
  "\<forall>h. pred_option (chunk_ok x k h) (m h) \<Longrightarrow> \<forall>c \<in> set cs. ch_hash c = hash_bytes x Sha256 (ch_data c) \<Longrightarrow>
    \<forall>h. pred_option (chunk_ok x k h) (foldl (store_chunk k) m cs h)"
proof (induction cs arbitrary: m)
  case (Cons c cs)
  then have "chunk_ok x k (cx_hex k (ch_hash c)) (cx_b64 k (ch_data c))" by (auto simp: chunk_ok_def fingerprint_hex_def)
  with Cons.prems(1) have "\<forall>h. pred_option (chunk_ok x k h) (store_chunk k m c h)" by (simp add: store_chunk_def Let_def)
  then show ?case using Cons by simp
qed simp

lemma staged_keeps:
  assumes "state_ok x k s" "\<forall>c \<in> set chunks. ch_hash c = hash_bytes x Sha256 (ch_data c)"
  shows "state_ok x k (fst (stage_transport_delivery_for_members x k j members sender manifest chunks s))"
proof -
  have "\<forall>h. pred_option (chunk_ok x k h) (foldl (store_chunk k) (ls_transport_chunk_store s) chunks h)"
    using assms by (intro stored_chunks_ok) (simp_all add: state_ok_def)
  then show ?thesis
    using assms(1) by (auto simp: stage_transport_delivery_for_members_def state_ok_def split: sum.split prod.split)
qed

lemma send_keeps:
  assumes "send_thread_message_for_state x k j rng now h text s = Some (s', r)" "state_ok x k s"
  shows "state_ok x k s'"
proof (cases "ls_identity s")
  case (Some identity)
  show ?thesis
  proof (cases "ls_threads s h")
    case t: (Some t)
    obtain t1 m where m: "encrypt_and_chunk_message x k j rng identity (str_bytes text) t = Some (t1, m)"
      using assms(1) Some t
      by (cases "encrypt_and_chunk_message x k j rng identity (str_bytes text) t")
        (auto simp: send_thread_message_for_state_def clone_identity_from_state_def publish_thread_message_transport_def)
    have t1: "thread_ok k h t1" using encrypt_keeps [OF m] state_ok_threadD [OF assms(2) t] by blast
    have s1: "state_ok x k (s\<lparr>ls_threads := (ls_threads s)(h \<mapsto> t1)\<rparr>)" by (rule state_ok_thread [OF assms(2) t1])
    show ?thesis
    proof (cases m)
      case (Inl e)
      then show ?thesis using assms(1) Some t m s1
        by (auto simp: send_thread_message_for_state_def clone_identity_from_state_def publish_thread_message_transport_def)
    next
      case (Inr q)
      obtain envelope manifest chunks where q: "q = (envelope, manifest, chunks)" by (rule prod_cases3)
      have hashed: "\<forall>c \<in> set chunks. ch_hash c = hash_bytes x Sha256 (ch_data c)"
        using encrypted_chunks m Inr q by blast
      have "state_ok x k (fst (stage_transport_delivery_for_members x k j members sender manifest chunks
          (s\<lparr>ls_threads := (ls_threads s)(h \<mapsto> t1\<lparr>th_messages := ms\<rparr>), ls_transport_outbox := items\<rparr>)))" for members sender ms items
        by (rule staged_keeps [OF _ hashed]) (simp add: state_ok_thread [OF assms(2)] t1)
      then show ?thesis using assms(1) Some t m Inr q s1
        by (cases "inbox_keys_for_thread k t1 (id_user_id_hex identity)")
          (auto simp: send_thread_message_for_state_def clone_identity_from_state_def publish_thread_message_transport_def
            Let_def apsnd_def map_prod_def split_beta)
    qed
  qed (use assms Some in \<open>simp add: send_thread_message_for_state_def clone_identity_from_state_def\<close>)
qed (use assms in \<open>simp add: send_thread_message_for_state_def clone_identity_from_state_def\<close>)

section \<open>No operation on a well-formed state panics\<close>

lemma encrypt_returns: "codec_correct k \<Longrightarrow> thread_ok k h t \<Longrightarrow> encrypt_and_chunk_message x k j rng identity p t \<noteq> None"
  using thread_group_built [of k h t x]
  by (auto simp: encrypt_and_chunk_message_def chunk_data_def ChunkingConfig_default_def Let_def split: sum.split prod.split)

lemma send_returns:
  assumes "codec_correct k" "state_ok x k s"
  shows "send_thread_message_for_state x k j rng now h text s \<noteq> None"
proof (cases "ls_threads s h")
  case (Some t)
  then have "encrypt_and_chunk_message x k j rng identity p t \<noteq> None" for identity p
    using assms encrypt_returns state_ok_threadD by blast
  then show ?thesis
    using Some by (simp add: send_thread_message_for_state_def publish_thread_message_transport_def Let_def
        split: sum.split prod.split option.split) (metis option.simps(3))
qed (simp add: send_thread_message_for_state_def split: sum.split)

lemma decrypt_returns:
  assumes "codec_correct k" "state_ok x k s"
  shows "decrypt_item x k j s payload \<noteq> None"
proof -
  have "decrypt_thread_envelope x k j s t envelope \<noteq> None" if "ls_threads s h = Some t" for h t envelope
    using thread_group_built [OF assms(1) state_ok_threadD [OF assms(2) that], of x]
    by (auto simp: decrypt_thread_envelope_def split: sum.split)
  then show ?thesis by (simp add: decrypt_item_def Let_def split: sum.split option.split)
qed

lemma create_thread_returns:
  assumes "sha256_len x" "codec_correct k"
  shows "create_thread_for_state x k rnd now members s \<noteq> None"
proof -
  have "create_thread_state x k rnd now identity ms \<noteq> None" for identity ms
  proof -
    have "build_group_for_members x k ms' cfg_hash (random_hex k (rnd 1) 32) suite \<noteq> None"
      if "build_thread_cfg_hash x k thread_id suite = Inr cfg_hash" for ms' cfg_hash suite thread_id
    proof -
      have "length cfg_hash = 32"
        using that assms(1) by (auto simp: build_thread_cfg_hash_def cfg_hash_for_thread_config_def hash_ctap2_cbor_value_def
            hash_bytes_def sha256_len_def Let_def)
      then show ?thesis using group_built [OF assms(2), of cfg_hash x ms'] by (fastforce simp: random_hex_def)
    qed
    then show ?thesis by (simp add: create_thread_state_def Let_def split: sum.split)
  qed
  then show ?thesis by (cases "clone_identity_from_state s") (simp_all add: create_thread_for_state_def)
qed

lemma ingest_returns:
  assumes "codec_correct k" "state_ok x k s"
  shows "ingest_inbox_payloads x k j now payloads s \<noteq> None"
  using assms(2)
proof (induction payloads arbitrary: now s)
  case (Cons p ps)
  obtain m where m: "decrypt_item x k j s p = Some m" using decrypt_returns [OF assms(1) Cons.prems] by blast
  show ?case
  proof (cases m)
    case (Inr item)
    obtain s1 r1 where rec: "record_message (now 0) item s = (s1, r1)" by fastforce
    then have "state_ok x k s1" using record_message_keeps [OF Cons.prems, of "now 0" item] by simp
    then show ?thesis using Cons.IH m Inr rec by (cases r1) auto
  qed (simp add: m)
qed simp

section \<open>Reachable states\<close>

text \<open>The states a client can be in: from the default state, by any sequence of operations, whether they
  succeed or not, with any clock, any payloads and any bridge.  The chunks a caller stages by hand carry their hashes, as
  \<open>chunk_data\<close> builds them; \<open>stage_transport_delivery\<close> is the step \<open>stage\<close> for the members of a thread.\<close>

inductive client_reachable :: "crypto \<Rightarrow> codec \<Rightarrow> serde \<Rightarrow> LocalState \<Rightarrow> bool" for x k j where
  start: "client_reachable x k j LocalState_default"
| identity: "client_reachable x k j s \<Longrightarrow> fills rnd \<Longrightarrow> client_reachable x k j (fst (create_identity_in_state x k rnd s))"
| rotate: "client_reachable x k j s \<Longrightarrow> fills rnd \<Longrightarrow> client_reachable x k j (fst (rotate_identity_in_state x k j rnd now s))"
| redeem: "client_reachable x k j s \<Longrightarrow> client_reachable x k j (fst (redeem_contact_card_to_state x k j stamp payload s))"
| request: "client_reachable x k j s \<Longrightarrow> client_reachable x k j (fst (create_request_for_state x k j rng stamp to role s))"
| accept: "client_reachable x k j s \<Longrightarrow>
    client_reachable x k j (fst (accept_request_for_state_with_policy x k j stamp payload policy stamp' s))"
| thread: "client_reachable x k j s \<Longrightarrow> fills rnd \<Longrightarrow> create_thread_for_state x k rnd stamp members s = Some (s', r) \<Longrightarrow>
    client_reachable x k j s'"
| commit: "client_reachable x k j s \<Longrightarrow> ls_threads s h = Some t \<Longrightarrow>
    client_reachable x k j (s\<lparr>ls_threads := (ls_threads s)(h \<mapsto> fst (apply_thread_commit_with_events c t))\<rparr>)"
| send: "client_reachable x k j s \<Longrightarrow> send_thread_message_for_state x k j rng now h message s = Some (s', rs) \<Longrightarrow>
    client_reachable x k j s'"
| cache: "client_reachable x k j s \<Longrightarrow> client_reachable x k j (fst (stage_p2p_inbox_delivery x k t sender envelope s))"
| stage: "client_reachable x k j s \<Longrightarrow> \<forall>c \<in> set chunks. ch_hash c = hash_bytes x Sha256 (ch_data c) \<Longrightarrow>
    client_reachable x k j (fst (stage_transport_delivery_for_members x k j members sender manifest chunks s))"
| receive: "client_reachable x k j s \<Longrightarrow>
    receive_inbox_messages x k j (get :: nat http_get) inbox_scan_key bridge (s, b) = Some ((s', b'), rr) \<Longrightarrow> client_reachable x k j s'"
| receive_transport: "client_reachable x k j s \<Longrightarrow>
    receive_transport_messages x k j inbox_scan_key s = Some (s', rr) \<Longrightarrow> client_reachable x k j s'"
| record_messages: "client_reachable x k j s \<Longrightarrow> client_reachable x k j (fst (record_inbox_messages now items s))"
| ingest: "client_reachable x k j s \<Longrightarrow> ingest_inbox_payloads x k j now payloads s = Some (s', ri) \<Longrightarrow> client_reachable x k j s'"

lemma reachable_state_ok: "client_reachable x k j s \<Longrightarrow> sha256_len x \<Longrightarrow> state_ok x k s"
proof (induction rule: client_reachable.induct)
  case (cache s t sender envelope)
  then show ?case by (simp add: stage_p2p_inbox_delivery_def split: sum.split prod.split)
next
  case (receive s get inbox_scan_key bridge b s' b' rr)
  then show ?case using receive_inbox_keeps by (metis fst_conv)
qed (simp_all add: state_ok_default create_identity_keeps rotate_identity_keeps redeem_card_keeps create_request_keeps staged_keeps
    accept_request_keeps commit_keeps record_messages_keep create_thread_keeps send_keeps receive_transport_keeps ingest_keeps)

text \<open>C7. Every state a client reaches is well-formed: the identity has a 32-byte identifier and a verifying key
  that belongs to its signing key, each contact and each thread is stored under its own identifier, with the
  fingerprint of its key and with 32-byte identifier, configuration hash and secret, cached chunks are stored
  under their hashes, and there is exactly one grant for every accepted request, none of them accepted twice.
  In such a state no operation panics: creating a thread, sending and ingesting return whatever their input.\<close>

theorem client_well_formed:
  assumes "sha256_len x" "codec_correct k" "client_reachable x k j s"
  shows "state_ok x k s \<and> (\<forall>rnd stamp members. create_thread_for_state x k rnd stamp members s \<noteq> None) \<and>
    (\<forall>rng now h message. send_thread_message_for_state x k j rng now h message s \<noteq> None) \<and>
    (\<forall>now payloads. ingest_inbox_payloads x k j now payloads s \<noteq> None)"
proof -
  have "state_ok x k s" by (rule reachable_state_ok [OF assms(3,1)])
  with assms(1,2) show ?thesis by (intro conjI allI create_thread_returns send_returns ingest_returns)
qed

text \<open>A client that has created its identity and redeemed a payload.\<close>

theorem client_well_formed_witness:
  "state_ok toy_crypto toy_codec
    (fst (redeem_contact_card_to_state toy_crypto toy_codec toy_serde 4 ''card''
      (fst (create_identity_in_state toy_crypto toy_codec (\<lambda>_ n. replicate n 1) LocalState_default))))"
proof -
  have "fills (\<lambda>_ n. replicate n 1)" by (simp add: fills_def)
  then have "client_reachable toy_crypto toy_codec toy_serde
      (fst (redeem_contact_card_to_state toy_crypto toy_codec toy_serde 4 ''card''
        (fst (create_identity_in_state toy_crypto toy_codec (\<lambda>_ n. replicate n 1) LocalState_default))))"
    by (intro client_reachable.redeem client_reachable.identity client_reachable.start)
  from client_well_formed [OF toy_crypto_laws(1) toy_codec_correct this] show ?thesis by blast
qed

end
