(* ===== verification/Cli_State.thy ===== *)
theory Cli_State
  imports Cli Client_Invariant
begin

text \<open>
  A run of the command line client from end to end: the state it finds, the command, and the state it leaves,
  which is well-formed again.
\<close>

section \<open>Commands keep the state well-formed\<close>

lemma run_identity_keeps:
  assumes "run_identity x k j env command (s, w) = Some ((s', w'), r)" "fills (ce_rnd env 1)" "state_ok x k s"
  shows "state_ok x k s'"
  using assms(1) create_identity_keeps [OF assms(2,3)] rotate_identity_keeps [OF assms(2,3), of j "ce_now env"]
  by (cases command) (auto simp: run_identity_def Let_def split: prod.splits sum.splits)

lemma run_card_keeps:
  assumes "run_card x k j env command (s, w) = Some ((s', w'), r)" "state_ok x k s"
  shows "state_ok x k s'"
proof (cases command)
  case CreateCard
  then show ?thesis using assms by (auto simp: run_card_def split: sum.splits)
next
  case (RedeemCard payload)
  obtain s1 r1 where r1: "redeem_contact_card_to_state x k j (ce_now env 0) payload s = (s1, r1)" by fastforce
  then have "s' = s1" using assms(1) RedeemCard by (cases r1) (simp_all add: run_card_def Let_def)
  then show ?thesis using redeem_card_keeps [OF assms(2), of j "ce_now env 0" payload] r1 by simp
qed

lemma run_request_keeps:
  assumes "run_request x k j env command (s, w) = Some ((s', w'), r)" "state_ok x k s"
  shows "state_ok x k s'"
proof (cases command)
  case (SendRequest to role)
  obtain s1 r1 where r1: "create_request_for_state x k j (ce_rnd env 1 0) (ce_now env 0) to role s = (s1, r1)" by fastforce
  then have "s' = s1" using assms(1) SendRequest by (cases r1) (simp_all add: run_request_def)
  then show ?thesis using create_request_keeps [OF assms(2), of j "ce_rnd env 1 0" "ce_now env 0" to role] r1 by simp
qed

lemma run_grant_keeps:
  assumes "run_grant x k j env command (s, w) = Some ((s', w'), r)" "state_ok x k s"
  shows "state_ok x k s'"
proof (cases command)
  case (AcceptRequest request)
  obtain s1 r1 where r1: "accept_request_for_state x k j (ce_now env) request s = (s1, r1)" by fastforce
  then have "s' = s1" using assms(1) AcceptRequest by (cases r1) (simp_all add: run_grant_def)
  then show ?thesis
    using accept_request_keeps [OF assms(2), of j "ce_now env 1" request RequestPowPolicy_default "ce_now env 0"] r1
    by (simp add: accept_request_for_state_def)
next
  case (DenyRequest request)
  then show ?thesis using assms by (auto simp: run_grant_def split: sum.splits)
qed

lemma run_thread_keeps:
  assumes "run_thread x k env command (s, w) = Some ((s', w'), r)" "sha256_len x" "fills (ce_rnd env 1)" "state_ok x k s"
  shows "state_ok x k s'"
proof (cases command)
  case (NewThread members)
  obtain r1 where "create_thread_for_state x k (ce_rnd env 1) (ce_now env 0) members s = Some (s', r1)"
    using assms(1) NewThread by (auto simp: run_thread_def split: option.splits sum.splits)
  from create_thread_keeps [OF assms(2,3) this assms(4)] show ?thesis .
qed

lemma run_msg_keeps:
  assumes "run_msg x k j env command (s, w) = Some ((s', w'), r)" "state_ok x k s"
  shows "state_ok x k s'"
proof (cases command)
  case (SendMsg thread message bridge_url ttl f)
  show ?thesis
  proof (cases "send_thread_message_for_state x k j (ce_rnd env 1 0) (ce_now env) thread message s")
    case None
    then show ?thesis using assms SendMsg by (auto simp: run_msg_def split: option.splits)
  next
    case (Some p)
    obtain s1 r1 where p: "p = (s1, r1)" by fastforce
    have "state_ok x k s1" using send_keeps Some p assms(2) by blast
    then show ?thesis using assms SendMsg Some p
      by (auto simp: run_msg_def split: option.splits sum.splits prod.splits)
  qed
qed

lemma poll_p2p_keeps:
  assumes "poll_p2p x k j env bridge_url inbox_key f (s, w) = Some ((s', w'), r)" "state_ok x k s"
  shows "state_ok x k s'"
  using assms ingest_keeps [of x k j "ce_now env"]
  by (auto simp: poll_p2p_def split: option.splits sum.splits prod.splits)

lemma poll_local_keeps:
  assumes "poll_local x k j env bridge_url inbox_key (s, w) = Some ((s', w'), r)" "state_ok x k s"
  shows "state_ok x k s'"
  using assms receive_transport_keeps [of x k j inbox_key s] receive_inbox_keeps [of x k j "ce_get env" inbox_key bridge_url "(s, w_bridge w)"]
  by (auto simp: poll_local_def split: if_splits)

lemma run_inbox_keeps:
  assumes "run_inbox x k j env command (s, w) = Some ((s', w'), r)" "state_ok x k s"
  shows "state_ok x k s'"
proof (cases command)
  case (Poll bridge_url inbox_key f)
  show ?thesis
  proof (cases inbox_key)
    case None
    then show ?thesis using assms Poll by (auto simp: run_inbox_def)
  next
    case (Some key)
    show ?thesis
    proof (cases "unhex k key")
      case (Inl e)
      then show ?thesis using assms Poll Some by (auto simp: run_inbox_def)
    next
      case (Inr key_bytes)
      show ?thesis
      proof (cases "should_use_p2p (pf_p2p f) (pf_peer f) (pf_bootstrap f) (pf_listen_addr f)")
        case True
        then show ?thesis using assms Poll Some Inr poll_p2p_keeps by (auto simp: run_inbox_def)
      next
        case False
        then obtain s1 w1 r1 where local: "poll_local x k j env bridge_url key_bytes (s, w) = Some ((s1, w1), r1)"
          and rest: "case r1 of Inl e \<Rightarrow> s' = s1
            | Inr response \<Rightarrow> s' = fst (record_inbox_messages (ce_now env) (dr_items response) s1)"
          using assms(1) Poll Some Inr
          by (cases "poll_local x k j env bridge_url key_bytes (s, w)")
            (auto simp: run_inbox_def split: sum.splits prod.splits)
        have "state_ok x k s1" by (rule poll_local_keeps [OF local assms(2)])
        then show ?thesis using rest record_messages_keep by (cases r1) auto
      qed
    qed
  qed
qed

lemma append_and_save_keeps: "state_ok x k (fst (append_and_save x k j entry s)) = state_ok x k s"
  by (simp add: append_and_save_def save_log_keeps split: sum.split)

lemma run_log_keeps:
  assumes "run_log x k j env command (s, w) = Some ((s', w'), r)" "state_ok x k s"
  shows "state_ok x k s'"
proof -
  have appended: "state_ok x k s1" if "append_and_save x k j entry s = (s1, q)" for entry s1 q
    using append_and_save_keeps [of x k j entry s] that assms(2) by simp
  have saved: "state_ok x k s1" if "save_checkpoint_log k j log s = (s1, q)" for log s1 q
    using save_log_keeps [of x k j log s] that assms(2) by simp
  show ?thesis
    using assms appended saved
    by (cases command)
      (auto simp: run_append_checkpoint_def run_create_recovery_key_def run_revoke_key_def run_export_log_def run_export_abuse_def
        run_import_log_def run_gossip_verify_def run_log_info_def Let_def split: sum.splits prod.splits if_splits)
qed

lemma run_command_keeps:
  assumes "run_command x k j env command (s, w) = Some ((s', w'), r)" "sha256_len x" "fills (ce_rnd env 1)" "state_ok x k s"
  shows "state_ok x k s'"
  using assms
  by (cases command) (auto intro: run_identity_keeps run_card_keeps run_request_keeps run_grant_keeps run_thread_keeps
      run_msg_keeps run_inbox_keeps run_log_keeps)

section \<open>A run leaves a state that can be loaded\<close>

lemma run_cli_saves:
  assumes "run_cli x k j env command w = Some (w', Inr ())"
  obtains m s s1 w1 where "load_state x k j (ce_host env) (ce_rnd env 0 0) (w_machine w) = Some (m, Inr s)"
    "run_command x k j env command (s, w\<lparr>w_machine := m\<rparr>) = Some ((s1, w1), Inr ())"
    "save_state x k j (ce_host env) (ce_rnd env 2) (ce_words env) s1 (w_machine w1) = (w_machine w', Inr ())"
  using assms by (auto simp: run_cli_def split: option.splits sum.splits prod.splits)

text \<open>The worlds that runs of the program leave, one after the other, on a machine that had no state: between
  two runs everything but the machine may change, and so may the clock, the random source and the network.\<close>

inductive cli_runs :: "crypto \<Rightarrow> codec \<Rightarrow> serde \<Rightarrow> host \<Rightarrow> 'b world \<Rightarrow> bool" for x k j h where
  new: "no_state h (w_machine w) \<Longrightarrow> cli_runs x k j h w"
| run: "cli_runs x k j h w0 \<Longrightarrow> w_machine w = w_machine w0 \<Longrightarrow> ce_host env = h \<Longrightarrow> fills (ce_rnd env 1) \<Longrightarrow>
    fills (ce_rnd env 2) \<Longrightarrow> run_cli x k j env command w = Some (w', Inr ()) \<Longrightarrow> cli_runs x k j h w'"

text \<open>C12. After any number of successful runs of the command line client on a machine that had no state, whatever
  the commands, the bridge, the peers and the messages it received, the state file can be loaded, and the state
  in it is well-formed.\<close>

theorem cli_runs_keep_state:
  assumes runs: "cli_runs x k j h w" and ready: "store_ready x k j h" and sha: "sha256_len x"
  shows "\<exists>s. state_ok x k s \<and> (\<forall>rng. load_state x k j h rng (w_machine w) = Some (w_machine w, Inr s))"
  using runs
proof (induction rule: cli_runs.induct)
  case (new w)
  show ?case by (rule state_file.first_run [where P = "state_ok x k", OF new state_ok_default])
next
  case (run w0 w env command w')
  obtain m s s1 w1 where r: "load_state x k j (ce_host env) (ce_rnd env 0 0) (w_machine w) = Some (m, Inr s)"
    "run_command x k j env command (s, w\<lparr>w_machine := m\<rparr>) = Some ((s1, w1), Inr ())"
    "save_state x k j (ce_host env) (ce_rnd env 2) (ce_words env) s1 (w_machine w1) = (w_machine w', Inr ())"
    by (rule run_cli_saves [OF run.hyps(6)])
  have "length (ce_rnd env 2 0 12) = 12" using run.hyps(5) by (simp add: fills_def)
  then have save: "case (ce_rnd env 2, ce_words env) of (rnd, words) \<Rightarrow> store_ready x k j h \<and> length (rnd 0 12) = 12"
    using ready by simp
  show ?case
  proof (rule state_file.next_run [where P = "state_ok x k", OF run.IH _ _ save])
    show "load_state x k j h (ce_rnd env 0 0) (w_machine w0) = Some (m, Inr s)" using r(1) run.hyps(2,3) by simp
    show "state_ok x k s \<Longrightarrow> state_ok x k s1" by (rule run_command_keeps [OF r(2) sha run.hyps(4)])
    show "(case (ce_rnd env 2, ce_words env) of (rnd, words) \<Rightarrow> save_state x k j h rnd words) s1 (w_machine w1) =
        (w_machine w', Inr ())"
      using r(3) run.hyps(3) by simp
  qed
qed

definition sample_env :: "unit cli_env" where
  "sample_env = \<lparr>ce_host = sample_host, ce_rnd = (\<lambda>_ _ n. replicate n 5), ce_words = (\<lambda>_. Inl ''''), ce_now = (\<lambda>_. 4),
    ce_get = (\<lambda>_ b. (Inl '''', b)), ce_put = (\<lambda>_ _ b. (Inl '''', b)), ce_lib = quiet_lib, ce_parse_addr = (\<lambda>_. Inl ''''),
    ce_listen = (\<lambda>_. Inl ''''), ce_peer_id = '''', ce_node_start = 0, ce_node_events = [], ce_sqlite = (\<lambda>_. None),
    ce_record_json = (\<lambda>_. Inl '''')\<rparr>"

lemma sample_run:
  assumes "mc_keychain (w_machine w) = None \<or> mc_keychain (w_machine w) = Some (cx_b64 toy_codec (replicate 32 5))"
    and "load_state toy_crypto toy_codec state_sample_serde sample_host (\<lambda>n. replicate n 5) (w_machine w) =
      Some (w_machine w, Inr LocalState_default)"
  obtains w' where "run_cli toy_crypto toy_codec state_sample_serde sample_env (LogCmd LogInfo) w = Some (w', Inr ())"
    "mc_keychain (w_machine w') = Some (cx_b64 toy_codec (replicate 32 5))"
    "\<And>rng. load_state toy_crypto toy_codec state_sample_serde sample_host rng (w_machine w') =
      Some (w_machine w', Inr LocalState_default)"
proof -
  obtain m where m: "sample_save LocalState_default (w_machine w) = (m, Inr ())"
    "mc_keychain m = Some (cx_b64 toy_codec (replicate 32 5))"
    by (rule sample_saved [OF assms(1), of LocalState_default]) simp_all
  have "load_checkpoint_log toy_crypto toy_codec state_sample_serde LocalState_default = Inr CheckpointLog_new"
    by (simp add: load_checkpoint_log_def LocalState_default_def)
  then have "\<exists>w'. run_cli toy_crypto toy_codec state_sample_serde sample_env (LogCmd LogInfo) w = Some (w', Inr ()) \<and> w_machine w' = m"
    using assms(2) m(1)
    by (simp add: run_cli_def run_log_info_def merkle_root_def CheckpointLog_new_def println_def sample_env_def)
  moreover have "load_state toy_crypto toy_codec state_sample_serde sample_host rng m = Some (m, Inr LocalState_default)" for rng
    using saved_load [OF toy_crypto_laws(4) toy_codec_correct sample_serde_ok m(1) _ sample_path] by (simp add: sample_host_def)
  ultimately show ?thesis using that m(2) by blast
qed

theorem cli_runs_keep_state_witness:
  "\<exists>(w :: unit world) w1 w2. run_cli toy_crypto toy_codec state_sample_serde sample_env (LogCmd LogInfo) w = Some (w1, Inr ()) \<and>
    run_cli toy_crypto toy_codec state_sample_serde sample_env (LogCmd LogInfo) w1 = Some (w2, Inr ()) \<and>
    (\<exists>s. state_ok toy_crypto toy_codec s \<and>
      load_state toy_crypto toy_codec state_sample_serde sample_host (\<lambda>n. replicate n 6) (w_machine w2) = Some (w_machine w2, Inr s))"
proof -
  let ?runs = "cli_runs toy_crypto toy_codec state_sample_serde sample_host"
  let ?w = "\<lparr>w_machine = \<lparr>mc_files = Map.empty, mc_keychain = None\<rparr>, w_bridge = (), w_audit = fresh_bridge, w_out = []\<rparr>"
  have fills: "fills (ce_rnd sample_env n)" and host: "ce_host sample_env = sample_host" for n
    by (simp_all add: fills_def sample_env_def)
  have none: "no_state sample_host (w_machine ?w)" by (simp add: no_state_def sample_path)
  have ready: "store_ready toy_crypto toy_codec state_sample_serde sample_host"
    using toy_crypto_laws(4) toy_codec_correct sample_serde_ok by (simp add: store_ready_def sample_path) (simp add: sample_host_def)
  obtain w1 where w1: "run_cli toy_crypto toy_codec state_sample_serde sample_env (LogCmd LogInfo) ?w = Some (w1, Inr ())"
    "mc_keychain (w_machine w1) = Some (cx_b64 toy_codec (replicate 32 5))"
    "\<And>rng. load_state toy_crypto toy_codec state_sample_serde sample_host rng (w_machine w1) =
      Some (w_machine w1, Inr LocalState_default)"
    by (rule sample_run [of ?w]) (simp_all add: load_state_def sample_path)
  obtain w2 where w2: "run_cli toy_crypto toy_codec state_sample_serde sample_env (LogCmd LogInfo) w1 = Some (w2, Inr ())"
    by (rule sample_run [of w1]) (use w1 in simp_all)
  have "?runs ?w" by (rule cli_runs.new [OF none])
  then have "?runs w1" by (rule cli_runs.run [OF _ refl host fills fills w1(1)])
  then have "?runs w2" by (rule cli_runs.run [OF _ refl host fills fills w2])
  from cli_runs_keep_state [OF this ready toy_crypto_laws(1)] w1(1) w2 show ?thesis by blast
qed

end
