(* ===== verification/Spec2Isabelle.thy ===== *)
theory Spec2Isabelle
  imports Checkpoint_Log Mls_Rs P2p_Ban Bridge_Quota Bridge_Main Client_Delivery Cli_State
begin

text \<open>
  A verification of SPEX, a messaging system in Rust: canonical wire structures and a checkpoint log
  (\<open>spex-core\<close>), group state and message encryption (\<open>spex-mls\<close>), content-addressed transport over libp2p and
  over an HTTP bridge (\<open>spex-transport\<close>), the bridge server (\<open>spex-bridge\<close>), the client library (\<open>spex-client\<close>)
  and the command line program (\<open>spex-cli\<close>).  The client seals a message with the secrets of the thread's group,
  signs the envelope with its identity key, encodes it canonically, cuts it into chunks, and hands it to the
  recipients' inboxes through peers or through the bridge; the bridge admits a write only with a signed grant and
  a proof of work and within a quota; the recipient scans the inbox, verifies, opens and records.

  \<^bold>\<open>How the code is read.\<close>  A struct is a record whose fields carry the source's names with a prefix, an enum is
  a datatype, a function is a definition of the same name (\<open>Type_method\<close> where two methods share it).  Machine
  integers are words of their width, with wrapping, saturating and checked operations as in the source.
  \<open>Result\<close> is a sum, \<open>?\<close> is \<open>bind_res\<close>, and an operation on \<open>&mut self\<close> returns the state it leaves together with
  its result, also when it fails.  An outer option is a panic or a wait that never ends.

  \<^bold>\<open>Third-party code\<close> is a parameter: \<open>crypto\<close> (SHA-256, Ed25519, Argon2id, ChaCha20-Poly1305), \<open>codec\<close> (hex,
  base64), \<open>serde\<close> and the CBOR reader, \<open>mls_lib\<close> (\<open>mls-rs\<close>), \<open>p2p_lib\<close> (libp2p, the file system of a node),
  \<open>sqlite_faults\<close>, \<open>host\<close> (environment, files, keychain), \<open>boot_env\<close> and \<open>cli_env\<close>.  What the code relies on is
  stated by named predicates, such as \<open>ed25519_correct\<close> (an own signature verifies), \<open>aead_correct\<close> (what was
  sealed opens), \<open>codec_correct\<close> (decoding inverts encoding), \<open>cbor_conforms\<close> (the reader agrees with RFC 8949)
  and \<open>state_serde\<close>.  Theorems that use them are applied to concrete instances (\<open>toy_crypto\<close>, \<open>toy_codec\<close>, ...).

  \<^bold>\<open>Theories and sources.\<close>
  \<^item> \<open>Spex_Prelude\<close>, \<open>Btree_Map\<close>: shared types and lemmas; \<open>BTreeMap\<close> as the locale \<open>ordered_map\<close>.
  \<^item> \<open>Cbor\<close> models \<open>spex-core/src/cbor.rs\<close>; \<open>Cbor_Spec\<close> has an RFC 8949 decoder and shows that the encoder is
    canonical, decodable and prefix free, and that \<open>from_ctap2_canonical_slice\<close> accepts exactly its image.
  \<^item> \<open>Spex_Types\<close> (\<open>types.rs\<close>, \<open>utils.rs\<close>): the structures, the trait \<open>Ctap2Cbor\<close> as the locales \<open>ctap2_struct\<close> and
    \<open>ctap2_ext_struct\<close>, round trip of envelopes, injectivity of signed bytes.
  \<^item> \<open>Core_Crypto\<close> (\<open>hash.rs\<close>, \<open>sign.rs\<close>, \<open>pow.rs\<close>, \<open>validation.rs\<close>, \<open>aead_ad.rs\<close>, \<open>mls_ext.rs\<close>): when grants and puzzles
    are accepted, injectivity of the associated data.
  \<^item> \<open>Checkpoint_Log\<close> (\<open>log.rs\<close>): the incremental Merkle state refines a reference tree, and its root binds the log.
  \<^item> \<open>Mls_Group\<close>, \<open>Mls_Rs\<close> (\<open>spex-mls/src/lib.rs\<close>): the group as a state machine with its invariant, recovery in
    epoch order, encryption round trip, what a refused commit changes; the wrapper around \<open>mls-rs\<close>.
  \<^item> \<open>Transport\<close> (\<open>chunking.rs\<close>, \<open>transport.rs\<close>, \<open>ingest.rs\<close>, \<open>telemetry.rs\<close>, \<open>error.rs\<close>): chunks, manifests, what a manifest
    binds, grants and puzzles of peers, atomic snapshots.
  \<^item> \<open>P2p_Node\<close>, \<open>P2p_Flow\<close> (\<open>p2p.rs\<close>): reputation, bans, persistence, and the event-driven publication, fetch and
    recovery, with their bounds, and that an available payload is recovered.  \<open>P2p_Ban\<close> has every public operation
    of a running node as a step and shows that bans hold along them.
  \<^item> \<open>Inbox\<close> (\<open>inbox.rs\<close>): the bridge client; the pages it relies on are the locale \<open>paged_inbox\<close>.
  \<^item> \<open>Bridge_Store\<close>, \<open>Bridge\<close>, \<open>Bridge_Main\<close> (\<open>spex-bridge/src\<close>): tables, handlers, start-up; \<open>Bridge_Safety\<close> shows
    that stored content is authorised along every run, whichever SQLite calls fail.  \<open>Bridge_Tasks\<close> cuts the
    handlers into their SQL statements, and \<open>Bridge_Quota\<close> shows how far the quota holds when the server
    interleaves them.  \<open>Delivery\<close> interprets \<open>paged_inbox\<close> on the bridge.
  \<^item> \<open>Client_State\<close>, \<open>Client_Request\<close>, \<open>Client_Thread\<close>, \<open>Client_Inbox\<close>, \<open>Client_Store\<close> (\<open>spex-client/src/lib.rs\<close>): identity
    and contacts, requests and grants, threads, sending and receiving, the encrypted state file, whose contract
    is the locale \<open>state_store\<close>.  \<open>Client_Invariant\<close> shows that every operation keeps the state well-formed and does
    not panic on it; \<open>Client_Delivery\<close> that what is sent is opened by the other members.
  \<^item> \<open>Cli\<close>, \<open>Cli_State\<close> (\<open>spex-cli/main.rs\<close>): the commands, and sequences of runs over the state file.
  \<^item> This theory: a message from the sender's state through the bridge into the recipient's state, and the
    inbox key under which it is not found.

  \<^bold>\<open>Loops and bounds.\<close>  Loops are structural or have a termination proof.  The scan of an inbox, which follows the
  cursors of a server, is a \<open>partial_function (option)\<close>, shown to return on the bridge.  Waiting in \<open>P2p_Flow\<close> consumes
  a finite list of events; a wait without timer on the exhausted list is \<open>None\<close>.  Kademlia itself ends a query after its
  timeout with an event, so a list that an execution can produce goes on as long as a query is pending.  The RFC 8949 decoder, which
  is specification and not code, takes a nesting bound: each level costs a byte, so the length of the input is enough.

  \<^bold>\<open>Simplifications.\<close>
  \<^item> Outside \<open>Bridge_Tasks\<close> and \<open>Bridge_Quota\<close> a bridge handler runs alone from start to end.  A panic of a blocking
    task, a poisoned mutex and the overflow of an \<open>Instant\<close> are left out.  The rows of a query are read in one call.
  \<^item> The crates are built with their default features, so \<open>HashId\<close> has SHA-256 only: no crate of the repository turns
    on \<open>blake3_hash\<close>.
  \<^item> \<open>kad_store\<close>, by which the round trip of \<open>Transport\<close> reads back what was published, keeps every record it is given.
    The limits of libp2p's \<open>MemoryStore\<close> and the errors of \<open>put_record\<close>, which the source drops, are not in it.
  \<^item> Connections that libp2p opens by itself, as during a Kademlia query, are not commands of the node.
  \<^item> Random jitter and the scaling of durations by an \<open>f64\<close> are parameters.
  \<^item> The operating system's random source fails only in \<open>generate_state_salt\<close>, the one place that handles it.
  \<^item> The database that the audit command opens is a component of the world of a run, and stands for the file.

  \<^bold>\<open>Not modelled.\<close>  The construction of the libp2p swarm (\<open>build_swarm\<close>, \<open>TransportComponents\<close>), the axum
  extractors and serving loop, \<open>SystemClock\<close>, argument parsing by \<open>clap\<close>, the tracing output, plain getters, and
  derived serializers: they only call libraries.  The fixed test vectors (\<open>test_vectors.rs\<close>), tests, benchmarks, fuzz
  targets and scripts are not part of the running program.
\<close>

section \<open>From the sender to the recipient through the bridge\<close>






section \<open>From one client to another\<close>

text \<open>C1. A message whose envelope fits in an inbox item, sent by a client in a thread, reaches a member that has the
  thread and knows the sender's key.  Sending succeeds and names the member's inbox.  Publishing the envelope is
  accepted by a bridge whose quota has room for it at the base cost, which holds after fewer than 20 requests and
  262144 bytes of the sender in the last minute.  Until the item expires, if the member can open the items already
  waiting and their texts are UTF-8, polling the hash of its identifier returns them and then this message, and
  recording them ends the member's copy of the thread with the text as it was sent.\<close>

theorem message_reaches_member:
  assumes laws: "sha256_len x" "ed25519_correct x" "ed25519_sizes x k" "aead_correct x" "aead_seals x" "argon2_solves x"
      "codec_correct k" "cbor_laws j" "manifests_serialize j"
    and random: "length (rng 12) = 12" "length (rng' 32) = 32"
    and sender: "ls_identity s = Some identity" "identity_ok x k identity" "ls_threads s h = Some t" "thread_ok k h t"
    and members: "\<forall>m \<in> set (th_members t). hex_of k 32 m" "length (th_members t) < 2 ^ 32"
      "cx_hex k key \<in> set (th_members t)" "cx_hex k key \<noteq> id_user_id_hex identity"
    and message: "utf8_ok (map of_char body)" "length body + 273 \<le> MAX_INBOX_ITEM_BYTES"
    and receiver: "ls_threads r h = Some t'" "same_group t t'" "id_verifying_key_hex identity = cx_hex k verifying_key"
      "knows_sender k r t' (id_user_id_hex identity) verifying_key"
      "ls_p2p_inbox r (inbox_key_hex x k (x_sha256 x key)) = None"
    and bridge: "admits x k (fst clock) (id_user_id_hex identity) (length body + 273) pow_minimum b"
      "list_all2 (opens x k j r) (map snd (live_rows (inbox_key_hex x k key) later b)) waiting"
      "\<forall>i \<in> set waiting. from_utf8 (di_plaintext i) \<noteq> None"
    and clocks: "snd clock < sat_add sent_at 300" "compute_inbox_expiration (fst clock) ttl = Inr e" "as_i64 later < as_i64 e"
    and urls: "route_put (trim_end_slashes base_url @ ''/inbox/'' @ inbox_key_hex x k key) = Some (inbox_key_hex x k key)"
      "routes route (trim_end_slashes base_url) (inbox_key_hex x k key)
        (insert (db_inbox_seq (as_db b) + 1) (fst ` set (live_rows (inbox_key_hex x k key) later b)))"
  shows "\<exists>s' d b1 b2 r' receipts ms.
    send_thread_message_for_state x k j rng now h body s = Some (s', Inr d) \<and> key \<in> set (td_recipient_inbox_keys d) \<and>
    publish_via_bridge x k rng' sent_at (bridge_put x k route_put wire_request clock addr) identity key (td_envelope d) base_url ttl b =
      (Inr (), b1) \<and>
    receive_inbox_messages x k j (bridge_get k route err later) (x_sha256 x key) (Some base_url) (r, b1) =
      Some ((r, b2), Inr \<lparr>dr_items = waiting @ [\<lparr>di_thread_id_hex = h, di_sender_user_id_hex = id_user_id_hex identity,
        di_plaintext = str_bytes body\<rparr>], dr_source = Inbox.Bridge\<rparr>) \<and>
    record_inbox_messages stamps (waiting @ [\<lparr>di_thread_id_hex = h, di_sender_user_id_hex = id_user_id_hex identity,
        di_plaintext = str_bytes body\<rparr>]) r =
      (r', Inr (receipts @ [\<lparr>re_thread_id_hex = h, re_sender_user_id_hex = id_user_id_hex identity, re_text = body\<rparr>])) \<and>
    length receipts = length waiting \<and>
    ls_threads r' h = Some (t'\<lparr>th_messages := th_messages t' @ ms @
      [\<lparr>msg_sender_user_id = id_user_id_hex identity, msg_text = body, msg_sent_at = stamps (length waiting)\<rparr>]\<rparr>) \<and>
    length ms = length (filter (\<lambda>i. di_thread_id_hex i = h) waiting)"
proof -
  have "length body < 2 ^ 32" using message(2) by (simp add: MAX_INBOX_ITEM_BYTES_def)
  then obtain s' d payload where sent: "send_thread_message_for_state x k j rng now h body s = Some (s', Inr d)"
    and payload: "ctap2_canonical_value_bytes (Envelope_to_cbor (td_envelope d)) = Inr payload" "length payload \<le> length body + 273"
      "decrypt_item x k j r payload = Some (Inr \<lparr>di_thread_id_hex = h, di_sender_user_id_hex = id_user_id_hex identity,
        di_plaintext = str_bytes body\<rparr>)"
    and keys: "\<And>key. cx_hex k key \<in> set (th_members t) \<Longrightarrow> cx_hex k key \<noteq> id_user_id_hex identity \<Longrightarrow>
      key \<in> set (td_recipient_inbox_keys d)"
    by (rule sent_message_readable [where rng = rng, OF laws(1-5,7-9) random(1) sender members(1,2) _ receiver(1-4)]) blast
  have small: "length payload \<le> MAX_INBOX_ITEM_BYTES" using payload(2) message(2) by simp
  obtain b1 b2 where
    "publish_via_bridge x k rng' sent_at (bridge_put x k route_put wire_request clock addr) identity key (td_envelope d) base_url
      ttl b = (Inr (), b1)"
    "receive_inbox_messages x k j (bridge_get k route err later) (x_sha256 x key) (Some base_url) (r, b1) =
      Some ((r, b2), Inr \<lparr>dr_items = waiting @ [\<lparr>di_thread_id_hex = h, di_sender_user_id_hex = id_user_id_hex identity,
        di_plaintext = str_bytes body\<rparr>], dr_source = Inbox.Bridge\<rparr>)"
    by (rule published_message_received [where rng = rng' and route_put = route_put and route = route, OF laws(1,6,2,7,3) random(2)
          members(1) [THEN bspec, OF members(3)] sender(2) payload(1) small payload(3) receiver(5)
          admits_mono [OF bridge(1) payload(2)] bridge(2) clocks urls])
  moreover have "\<forall>i \<in> set waiting. from_utf8 (di_plaintext i) \<noteq> None \<and> ls_threads r (di_thread_id_hex i) \<noteq> None"
    using bridge(2,3) opened_thread by (fastforce simp: list_all2_conv_all_nth in_set_conv_nth)
  from message_recorded [OF message(1) receiver(1) this, of stamps "id_user_id_hex identity"]
  obtain r' receipts ms where "record_inbox_messages stamps (waiting @ [\<lparr>di_thread_id_hex = h,
        di_sender_user_id_hex = id_user_id_hex identity, di_plaintext = str_bytes body\<rparr>]) r =
      (r', Inr (receipts @ [\<lparr>re_thread_id_hex = h, re_sender_user_id_hex = id_user_id_hex identity, re_text = body\<rparr>]))"
    "length receipts = length waiting"
    "ls_threads r' h = Some (t'\<lparr>th_messages := th_messages t' @ ms @
      [\<lparr>msg_sender_user_id = id_user_id_hex identity, msg_text = body, msg_sent_at = stamps (length waiting)\<rparr>]\<rparr>)"
    "length ms = length (filter (\<lambda>i. di_thread_id_hex i = h) waiting)" by blast
  ultimately show ?thesis using sent keys [OF members(3,4)] by blast
qed

theorem message_reaches_member_witness:
  "\<exists>s' d b1 b2.
    send_thread_message_for_state sample_crypto toy_codec sample_serde (\<lambda>n. replicate n 5) (\<lambda>_. 4) (sample_name 7) ''hello''
      (sample_client 1 2) = Some (s', Inr d) \<and>
    publish_via_bridge sample_crypto toy_codec (\<lambda>n. replicate n 6) 4
      (bridge_put sample_crypto toy_codec (\<lambda>_. Some (inbox_key_hex sample_crypto toy_codec (replicate 32 2))) wire_request (4, 5) None)
      (toy_identity 1) (replicate 32 2) (td_envelope d) ''http://bridge/'' None fresh_bridge = (Inr (), b1) \<and>
    receive_inbox_messages sample_crypto toy_codec sample_serde
      (bridge_get toy_codec (sample_routes (inbox_key_hex sample_crypto toy_codec (replicate 32 2))) (\<lambda>_. ''error'') 8)
      (x_sha256 sample_crypto (replicate 32 2)) (Some ''http://bridge/'') (sample_client 2 1, b1) =
      Some ((sample_client 2 1, b2), Inr \<lparr>dr_items = [\<lparr>di_thread_id_hex = sample_name 7,
        di_sender_user_id_hex = sample_name 1, di_plaintext = str_bytes ''hello''\<rparr>], dr_source = Inbox.Bridge\<rparr>)"
proof -
  have member: "\<forall>m \<in> set (th_members sample_thread). hex_of toy_codec 32 m" by simp
  have known: "knows_sender toy_codec (sample_client 2 1) sample_thread (id_user_id_hex (toy_identity 1)) (replicate 32 1)"
    unfolding toy_identity_simps(1) by (rule sample_sender_known) simp_all
  let ?key = "inbox_key_hex sample_crypto toy_codec (replicate 32 2)"
  have routes: "routes (sample_routes ?key) (trim_end_slashes ''http://bridge/'') ?key
      (insert (db_inbox_seq (as_db fresh_bridge) + 1) (fst ` set (live_rows ?key 8 fresh_bridge)))"
    using sample_routes_ok by (simp add: fresh_bridge_empty)
  have admits: "admits sample_crypto toy_codec (fst (4, 5 :: u64)) (id_user_id_hex (toy_identity 1)) (length ''hello'' + 273) pow_minimum fresh_bridge"
    by (rule fresh_bridge_admits) simp
  have none: "list_all2 (opens sample_crypto toy_codec sample_serde (sample_client 2 1)) (map snd (live_rows ?key 8 fresh_bridge)) []"
    "\<forall>i \<in> set []. from_utf8 (di_plaintext i) \<noteq> None"
    by (simp_all add: fresh_bridge_empty)
  have ascii: "utf8_ok (map of_char ''hello'')" by simp
  have small: "length ''hello'' + 273 \<le> MAX_INBOX_ITEM_BYTES" by (simp add: MAX_INBOX_ITEM_BYTES_def)
  have names: "length (th_members sample_thread) < 2 ^ 32" "sample_name 2 \<in> set (th_members sample_thread)"
    "sample_name 2 \<noteq> id_user_id_hex (toy_identity 1)"
    by simp_all
  have clock: "snd (4, 5) < sat_add (4 :: u64) 300" by (simp add: sat_add_def)
  show ?thesis
    using message_reaches_member [where x = sample_crypto and k = toy_codec and j = sample_serde and t = sample_thread
        and t' = sample_thread and identity = "toy_identity 1" and h = "sample_name 7" and ttl = None and e = 86404
        and verifying_key = "replicate 32 1" and rng = "\<lambda>n. replicate n 5" and rng' = "\<lambda>n. replicate n 6" and s = "sample_client 1 2"
        and r = "sample_client 2 1" and key = "replicate 32 2" and body = "''hello''" and clock = "(4, 5)" and sent_at = 4
        and later = 8 and b = fresh_bridge and base_url = "''http://bridge/''" and now = "\<lambda>_. 4" and err = "\<lambda>_. ''error''"
        and route_put = "\<lambda>_. Some (inbox_key_hex sample_crypto toy_codec (replicate 32 2))" and stamps = "\<lambda>_. 9"
        and route = "sample_routes (inbox_key_hex sample_crypto toy_codec (replicate 32 2))" and addr = None,
        OF sample_crypto_laws toy_codec_correct sample_serde_laws length_replicate length_replicate
          sample_client_simps(1,6,2,4) member names ascii small
          sample_client_simps(2,7) toy_identity_simps(3) known sample_client_simps(3) admits none
          clock sample_expiry refl routes]
    unfolding toy_identity_simps(1) append_Nil by blast
qed

text \<open>C35. A member that polls the bridge with its own identifier does not find what was published for it.  The client
  publishes for the member with identifier \<open>key\<close> under the hash of \<open>key\<close>.  On a bridge that has room for the
  request and has no inbox named by \<open>key\<close> itself the item is stored and live, but the member, with no items of a P2P
  inbox at hand, asks for the inbox named by the identifier and gets the error 404.\<close>

theorem own_identifier_not_found:
  assumes laws: "sha256_len x" "argon2_solves x" "ed25519_correct x" "codec_correct k" "ed25519_sizes x k"
    and sender: "length (rng 32) = 32" "hex_of k 32 (cx_hex k key)" "identity_ok x k identity"
    and envelope: "ctap2_canonical_value_bytes (Envelope_to_cbor envelope) = Inr payload"
      "length payload \<le> MAX_INBOX_ITEM_BYTES"
    and receiver: "ls_p2p_inbox r (inbox_key_hex x k key) = None" "x_sha256 x key \<noteq> key"
    and bridge: "admits x k (fst clock) (id_user_id_hex identity) (length payload) pow_minimum b"
      "cx_hex k key \<notin> set (db_inbox_keys (as_db b))"
    and clocks: "snd clock < sat_add now 300" "compute_inbox_expiration (fst clock) ttl = Inr e" "as_i64 later < as_i64 e"
    and urls: "route_put (trim_end_slashes base_url @ ''/inbox/'' @ inbox_key_hex x k key) = Some (inbox_key_hex x k key)"
      "route (inbox_url (trim_end_slashes base_url) (cx_hex k key) None) = Some (cx_hex k key, query)"
  shows "\<exists>b1 b2.
    publish_via_bridge x k rng now (bridge_put x k route_put wire_request clock addr) identity key envelope base_url ttl b =
      (Inr (), b1) \<and>
    payload \<in> snd ` set (live_rows (inbox_key_hex x k key) later b1) \<and>
    receive_inbox_messages x k j (bridge_get k route err later) key (Some base_url) (r, b1) =
      Some ((r, b2), Inl (CTransport (''http error: '' @ err 404)))"
proof -
  obtain b1 b2 where
    "publish_via_bridge x k rng now (bridge_put x k route_put wire_request clock addr) identity key envelope base_url ttl b =
      (Inr (), b1)"
    "payload \<in> snd ` set (live_rows (inbox_key_hex x k key) later b1)"
    "receive_inbox_messages x k j (bridge_get k route err later) key (Some base_url) (r, b1) =
      Some ((r, b2), Inl (CTransport (''http error: '' @ err 404)))"
    by (rule published_message_missed [where rng = rng and route_put = route_put and route = route,
          OF laws sender envelope receiver bridge clocks urls])
  then show ?thesis by blast
qed

definition sample_envelope :: Envelope where
  "sample_envelope = \<lparr>env_thread_id = [], env_epoch = 0, env_seq = 0, env_sender_user_id = [], env_ciphertext = [],
    env_signature = None, env_extensions = []\<rparr>"

theorem own_identifier_not_found_witness:
  "\<exists>b1 b2.
    publish_via_bridge sample_crypto toy_codec (\<lambda>n. replicate n 6) 4
      (bridge_put sample_crypto toy_codec (\<lambda>_. Some (inbox_key_hex sample_crypto toy_codec (replicate 32 2))) wire_request (4, 5) None)
      (toy_identity 1) (replicate 32 2) sample_envelope ''http://bridge/'' None fresh_bridge = (Inr (), b1) \<and>
    receive_inbox_messages sample_crypto toy_codec sample_serde
      (bridge_get toy_codec (sample_routes (sample_name 2)) (\<lambda>_. ''404 Not Found'') 8)
      (replicate 32 2) (Some ''http://bridge/'') (sample_client 2 1, b1) =
      Some ((sample_client 2 1, b2), Inl (CTransport ''http error: 404 Not Found''))"
proof -
  have payload: "ctap2_canonical_value_bytes (Envelope_to_cbor sample_envelope) =
      Inr [0xa5, 0, 0x40, 1, 0, 2, 0, 3, 0x40, 4, 0x40]"
    by code_simp
  have hash: "x_sha256 sample_crypto (replicate 32 2) \<noteq> replicate 32 2" by (simp add: sample_crypto_def)
  have admits: "admits sample_crypto toy_codec (fst (4, 5 :: u64)) (id_user_id_hex (toy_identity 1))
      (length [0xa5 :: u8, 0, 0x40, 1, 0, 2, 0, 3, 0x40, 4, 0x40]) pow_minimum fresh_bridge"
    by (rule fresh_bridge_admits) simp
  have missing: "sample_name 2 \<notin> set (db_inbox_keys (as_db fresh_bridge))" by simp
  have route: "sample_routes (sample_name 2) (inbox_url (trim_end_slashes ''http://bridge/'') (sample_name 2) None) =
      Some (sample_name 2, \<lparr>nq_limit = Some 100, nq_cursor = None, nq_max_bytes = None\<rparr>)"
    by (simp add: sample_routes_def trim_end_slashes_def)
  show ?thesis
    using own_identifier_not_found [where rng = "\<lambda>n. replicate n 6" and r = "sample_client 2 1" and key = "replicate 32 2"
        and identity = "toy_identity 1" and clock = "(4, 5)" and now = 4 and later = 8 and b = fresh_bridge
        and base_url = "''http://bridge/''" and err = "\<lambda>_. ''404 Not Found''" and addr = None
        and route_put = "\<lambda>_. Some (inbox_key_hex sample_crypto toy_codec (replicate 32 2))"
        and route = "sample_routes (sample_name 2)" and j = sample_serde,
        OF sample_crypto_laws(1,6,2) toy_codec_correct sample_crypto_laws(3) _ sample_names(1) sample_client_simps(6) payload _
          sample_client_simps(3) hash admits missing _ sample_expiry _ route]
    by (simp add: MAX_INBOX_ITEM_BYTES_def sat_add_def) blast
qed

end
